(* ===== verification/BW_Prelude.thy ===== *)
theory BW_Prelude
  imports Main "HOL-Library.Word" "HOL-Library.Multiset"
begin

text \<open>
  Shared vocabulary of the development.

  \<^item> The C types the sources use (\<open>byte\<close>, \<open>Oid\<close>, \<open>XLogRecPtr\<close>, 64-bit integers) and the
    \<open>errno\<close> values they return.
  \<^item> \<open>ptr\<close>: a C pointer that owns a reference, with the two failure modes of manual memory
    management (null and dangling) as constructors.
  \<^item> \<open>outcome\<close>: what a C function that may return, call \<open>exit\<close>, keep waiting for its
    environment, or run into undefined behaviour does to a state; sequencing, and the
    \<open>check(err, call)\<close> macro of the sources.
  \<^item> \<open>post\<close> and \<open>safe\<close>: partial correctness and freedom from undefined behaviour, with the
    rewrite rules (collection \<open>prog_simps\<close>) that push them through sequencing.
  \<^item> Network byte order (\<open>htonl\<close>/\<open>ntohl\<close> composed with \<open>memcpy\<close>).
\<close>

unbundle bit_operations_syntax

named_theorems prog_simps "rewrite rules for sequencing and the check macro"

section \<open>C types and error numbers\<close>

type_synonym byte = "8 word"
type_synonym bytes = "byte list"
type_synonym u32 = "32 word"
type_synonym u64 = "64 word"
type_synonym Oid = u32
type_synonym XLogRecPtr = u64

abbreviation (input) InvalidXLogRecPtr :: XLogRecPtr where
  "InvalidXLogRecPtr \<equiv> 0"

abbreviation (input) InvalidOid :: Oid where
  "InvalidOid \<equiv> 0"

abbreviation (input) EIO :: int where
  "EIO \<equiv> 5"

abbreviation (input) EINVAL :: int where
  "EINVAL \<equiv> 22"

abbreviation (input) ENOSPC :: int where
  "ENOSPC \<equiv> 28"

abbreviation (input) INT_MAX :: int where
  "INT_MAX \<equiv> 2147483647"

text \<open>
  A formatted message before formatting: the format string and its arguments, one of which may
  be the text of another message.
\<close>

datatype farg = FInt int | FStr string | FMsg string "farg list"

type_synonym errmsg = "string \<times> farg list"

text \<open>
  \<open>nonempty_cstr\<close> is the test \<open>s && s[0] != 0\<close> that the sources make on the strings of their
  configuration; \<open>None\<close> is the null pointer.
\<close>

definition nonempty_cstr :: "string option \<Rightarrow> bool" where
  "nonempty_cstr s = (case s of None \<Rightarrow> False | Some cs \<Rightarrow> cs \<noteq> [])"

section \<open>Pointers that own a reference\<close>

datatype 'a ptr = Null | Valid 'a | Dangling

text \<open>
  \<open>release\<close> gives a reference back (\<open>free\<close>, \<open>avro_schema_decref\<close>, \<open>rd_kafka_topic_destroy\<close>).
  The pointer variable keeps its value, so afterwards it dangles; releasing a null or a dangling
  pointer is undefined behaviour, the result \<open>None\<close>.
\<close>

fun release :: "'a ptr \<Rightarrow> 'a ptr option" where
  "release Null = None"
| "release (Valid a) = Some Dangling"
| "release Dangling = None"

fun_cases release_SomeE: "release p = Some q"

text \<open>\<open>if (p) free(p)\<close>\<close>

definition release_if :: "'a ptr \<Rightarrow> 'a ptr option" where
  "release_if p = (if p = Null then Some Null else release p)"

fun is_valid :: "'a ptr \<Rightarrow> bool" where
  "is_valid (Valid a) = True"
| "is_valid Null = False"
| "is_valid Dangling = False"

lemma is_valid_conv: "is_valid p \<longleftrightarrow> (\<exists>a. p = Valid a)"
  by (cases p) auto

definition ptr_option :: "'a ptr \<Rightarrow> 'a option" where
  "ptr_option p = (case p of Valid a \<Rightarrow> Some a | _ \<Rightarrow> None)"

lemma ptr_option_simps [simp]:
  "ptr_option (Valid a) = Some a" "ptr_option Null = None" "ptr_option Dangling = None"
  by (simp_all add: ptr_option_def)

text \<open>A byte array read as a C string, and the bytes of a string.\<close>

definition cstr_of :: "bytes \<Rightarrow> string" where
  "cstr_of b = map (\<lambda>w. char_of (unat w)) (takeWhile (\<lambda>w. w \<noteq> 0) b)"

definition bytes_of :: "string \<Rightarrow> bytes" where
  "bytes_of cs = map (\<lambda>c. word_of_nat (of_char c)) cs"

section \<open>Outcomes of C functions\<close>

text \<open>
  \<open>Ret a s\<close>: the function returned \<open>a\<close>; \<open>Exit n s\<close>: the process called \<open>exit(n)\<close>;
  \<open>Stuck s\<close>: a waiting loop used up its iteration budget while the environment had not yet
  answered; \<open>Undef\<close>: undefined behaviour of C.
\<close>

datatype ('s, 'a) outcome = Ret 'a 's | Exit int 's | Stuck 's | Undef

type_synonym ('s, 'a) prog = "'s \<Rightarrow> ('s, 'a) outcome"

fun andthen :: "('s, 'a) outcome \<Rightarrow> ('a \<Rightarrow> 's \<Rightarrow> ('s, 'b) outcome) \<Rightarrow> ('s, 'b) outcome" where
  "andthen (Ret a s) k = k a s"
| "andthen (Exit n s) k = Exit n s"
| "andthen (Stuck s) k = Stuck s"
| "andthen Undef k = Undef"

text \<open>\<open>check(err, call)\<close>: return the error of \<open>call\<close> if there is one, else go on.\<close>

definition check :: "('s, int) outcome \<Rightarrow> ('s \<Rightarrow> ('s, int) outcome) \<Rightarrow> ('s, int) outcome" where
  "check r k = andthen r (\<lambda>err s. if err \<noteq> 0 then Ret err s else k s)"

text \<open>The same macro around a call that only reads: an error code and an output parameter.\<close>

definition check_get :: "int \<times> 'a \<Rightarrow> ('a \<Rightarrow> ('s, int) prog) \<Rightarrow> ('s, int) prog" where
  "check_get r k s = (if fst r \<noteq> 0 then Ret (fst r) s else k (snd r) s)"

text \<open>Reading from the state, changing it, and changing it with an output parameter.\<close>

definition check_read :: "('s \<Rightarrow> int \<times> 'a) \<Rightarrow> ('a \<Rightarrow> ('s, int) prog) \<Rightarrow> ('s, int) prog" where
  "check_read m k s = check_get (m s) k s"

definition check_upd :: "('s \<Rightarrow> int \<times> 's) \<Rightarrow> ('s, int) prog \<Rightarrow> ('s, int) prog" where
  "check_upd m k s = (case m s of (e, t) \<Rightarrow> if e \<noteq> 0 then Ret e t else k t)"

definition check_new :: "('s \<Rightarrow> int \<times> 'a \<times> 's) \<Rightarrow> ('a \<Rightarrow> ('s, int) prog) \<Rightarrow> ('s, int) prog" where
  "check_new m k s = (case m s of (e, a, t) \<Rightarrow> if e \<noteq> 0 then Ret e t else k a t)"

fun post :: "('a \<Rightarrow> 's \<Rightarrow> bool) \<Rightarrow> ('s, 'a) outcome \<Rightarrow> bool" where
  "post Q (Ret a s) = Q a s"
| "post Q (Exit n s) = True"
| "post Q (Stuck s) = True"
| "post Q Undef = True"

fun safe :: "('s, 'a) outcome \<Rightarrow> bool" where
  "safe (Ret a s) = True"
| "safe (Exit n s) = True"
| "safe (Stuck s) = True"
| "safe Undef = False"

text \<open>Total correctness: the function returned, with the given result.\<close>

fun holds :: "('a \<Rightarrow> 's \<Rightarrow> bool) \<Rightarrow> ('s, 'a) outcome \<Rightarrow> bool" where
  "holds Q (Ret a s) = Q a s"
| "holds Q (Exit n s) = False"
| "holds Q (Stuck s) = False"
| "holds Q Undef = False"

lemma holds_conv: "holds Q r \<longleftrightarrow> (\<exists>a s. r = Ret a s \<and> Q a s)"
  by (cases r) auto

lemma post_conv: "post Q r \<longleftrightarrow> (\<forall>a s. r = Ret a s \<longrightarrow> Q a s)"
  by (cases r) auto

lemma safe_conv: "safe r \<longleftrightarrow> r \<noteq> Undef"
  by (cases r) auto

lemma post_mono: "post P r \<Longrightarrow> (\<And>a s. P a s \<Longrightarrow> Q a s) \<Longrightarrow> post Q r"
  by (cases r) auto

lemma post_trivial [simp]: "post (\<lambda>_ _. True) r"
  by (cases r) simp_all

lemma postD: "post Q r \<Longrightarrow> r = Ret a s \<Longrightarrow> Q a s"
  by simp

lemma post_andthen [prog_simps]: "post Q (andthen r k) = post (\<lambda>a s. post Q (k a s)) r"
  by (cases r) auto

lemma safe_andthen [prog_simps]: "safe (andthen r k) = (safe r \<and> post (\<lambda>a s. safe (k a s)) r)"
  by (cases r) auto

lemma post_check [prog_simps]:
  "post Q (check r k) = post (\<lambda>err s. if err \<noteq> 0 then Q err s else post Q (k s)) r"
  by (cases r) (auto simp: check_def)

lemma safe_check [prog_simps]:
  "safe (check r k) = (safe r \<and> post (\<lambda>err s. err = 0 \<longrightarrow> safe (k s)) r)"
  by (cases r) (auto simp: check_def)

lemma post_andthenI:
  "post P r \<Longrightarrow> (\<And>a s. P a s \<Longrightarrow> post Q (k a s)) \<Longrightarrow> post Q (andthen r k)"
  by (cases r) auto

lemma post_checkI:
  "post (\<lambda>_. P) r \<Longrightarrow> (\<And>s. P s \<Longrightarrow> post (\<lambda>_. P) (k s)) \<Longrightarrow> post (\<lambda>_. P) (check r k)"
  by (cases r) (auto simp: check_def)

lemma andthen_assoc: "andthen (andthen r k) l = andthen r (\<lambda>a s. andthen (k a s) l)"
  by (cases r) auto

lemma check_Ret [simp]: "check (Ret e s) k = (if e = 0 then k s else Ret e s)"
  by (simp add: check_def)

lemma check_Exit [simp]: "check (Exit n s) k = Exit n s"
  by (simp add: check_def)

lemma check_Undef [simp]: "check Undef k = Undef"
  by (simp add: check_def)

lemma check_Stuck [simp]: "check (Stuck s) k = Stuck s"
  by (simp add: check_def)

lemma check_get_ok [simp]: "check_get (0, a) k s = k a s"
  by (simp add: check_get_def)

lemma check_get_err: "e \<noteq> 0 \<Longrightarrow> check_get (e, a) k s = Ret e s"
  by (simp add: check_get_def)

lemma post_check_get [prog_simps]:
  "post Q (check_get r k s) = (if fst r \<noteq> 0 then Q (fst r) s else post Q (k (snd r) s))"
  by (simp add: check_get_def)

lemma check_read_ok [simp]: "m s = (0, a) \<Longrightarrow> check_read m k s = k a s"
  by (simp add: check_read_def)

lemma check_upd_ok [simp]: "m s = (0, t) \<Longrightarrow> check_upd m k s = k t"
  by (simp add: check_upd_def)

lemma check_new_ok [simp]: "m s = (0, a, t) \<Longrightarrow> check_new m k s = k a t"
  by (simp add: check_new_def)

text \<open>No undefined behaviour, and the given result if the function returns.\<close>

fun meets :: "('a \<Rightarrow> 's \<Rightarrow> bool) \<Rightarrow> ('s, 'a) outcome \<Rightarrow> bool" where
  "meets Q (Ret a s) = Q a s"
| "meets Q (Exit n s) = True"
| "meets Q (Stuck s) = True"
| "meets Q Undef = False"

lemma meets_conv: "meets Q r \<longleftrightarrow> safe r \<and> post Q r"
  by (cases r) auto

lemma meets_mono: "meets P r \<Longrightarrow> (\<And>a s. P a s \<Longrightarrow> Q a s) \<Longrightarrow> meets Q r"
  by (cases r) auto

lemma meets_andthen [prog_simps]: "meets Q (andthen r k) = meets (\<lambda>a s. meets Q (k a s)) r"
  by (cases r) auto

lemma meets_check [prog_simps]:
  "meets Q (check r k) = meets (\<lambda>err s. if err \<noteq> 0 then Q err s else meets Q (k s)) r"
  by (cases r) (auto simp: check_def)

lemma meets_check_get [prog_simps]:
  "meets Q (check_get r k s) = (if fst r \<noteq> 0 then Q (fst r) s else meets Q (k (snd r) s))"
  by (simp add: check_get_def)

text \<open>The same, with the promise that the function does return if \<open>c\<close> holds.\<close>

fun attains :: "bool \<Rightarrow> ('a \<Rightarrow> 's \<Rightarrow> bool) \<Rightarrow> ('s, 'a) outcome \<Rightarrow> bool" where
  "attains c Q (Ret a s) = Q a s"
| "attains c Q (Exit n s) = (\<not> c)"
| "attains c Q (Stuck s) = (\<not> c)"
| "attains c Q Undef = False"

lemma attains_holds: "attains c Q r \<Longrightarrow> c \<Longrightarrow> holds Q r"
  by (cases r) simp_all

lemma attains_mono: "attains c P r \<Longrightarrow> (\<And>a s. P a s \<Longrightarrow> Q a s) \<Longrightarrow> attains c Q r"
  by (cases r) auto

lemma attains_weaken: "attains c Q r \<Longrightarrow> (d \<Longrightarrow> c) \<Longrightarrow> attains d Q r"
  by (cases r) auto

lemma attains_andthen [prog_simps]: "attains c Q (andthen r k) = attains c (\<lambda>a s. attains c Q (k a s)) r"
  by (cases r) auto

lemma option_eq_if: "(\<And>j. a = Some j \<longleftrightarrow> b = Some j) \<Longrightarrow> a = b"
  by (cases a; cases b) auto

lemma andthen_eq_Ret:
  "andthen r k = Ret b t \<longleftrightarrow> (\<exists>a s. r = Ret a s \<and> k a s = Ret b t)"
  by (cases r) auto

section \<open>Network byte order\<close>

text \<open>
  \<open>be32_put x\<close> is the memory written by \<open>uint32 y = htonl(x); memcpy(p, &y, 4)\<close>, and
  \<open>be32_get\<close> the value of \<open>memcpy(&y, p, 4); ntohl(y)\<close>, whatever the byte order of the host.
\<close>

definition be32_put :: "u32 \<Rightarrow> bytes" where
  "be32_put x = [ucast (drop_bit 24 x), ucast (drop_bit 16 x), ucast (drop_bit 8 x), ucast x]"

fun be32_get :: "bytes \<Rightarrow> u32" where
  "be32_get (a # b # c # d # _) =
     push_bit 24 (ucast a) OR push_bit 16 (ucast b) OR push_bit 8 (ucast c) OR ucast d"
| "be32_get _ = 0"

lemma length_be32_put [simp]: "length (be32_put x) = 4"
  by (simp add: be32_put_def)

lemma byte_bit_high: "8 \<le> n \<Longrightarrow> \<not> bit (b :: byte) n"
  by (auto dest: bit_imp_le_length)

lemma be32_get_put: "be32_get (be32_put x @ rest) = x"
proof (rule bit_word_eqI)
  fix n
  assume "n < LENGTH(32)"
  then consider "n < 8" | "8 \<le> n" "n < 16" | "16 \<le> n" "n < 24" | "24 \<le> n" "n < 32"
    by force
  then show "bit (be32_get (be32_put x @ rest)) n = bit x n"
    by cases (simp_all add: be32_put_def bit_or_iff bit_push_bit_iff bit_ucast_iff bit_drop_bit_eq less_diff_conv2)
qed

lemma be32_put_get:
  "be32_put (be32_get (a # b # c # d # rest)) = [a, b, c, d]"
proof -
  have "ucast (drop_bit 24 (be32_get (a # b # c # d # rest))) = a"
    by (rule bit_word_eqI) (simp add: bit_or_iff bit_push_bit_iff bit_ucast_iff bit_drop_bit_eq byte_bit_high)
  moreover have "ucast (drop_bit 16 (be32_get (a # b # c # d # rest))) = b"
    by (rule bit_word_eqI) (simp add: bit_or_iff bit_push_bit_iff bit_ucast_iff bit_drop_bit_eq byte_bit_high)
  moreover have "ucast (drop_bit 8 (be32_get (a # b # c # d # rest))) = c"
    by (rule bit_word_eqI) (simp add: bit_or_iff bit_push_bit_iff bit_ucast_iff bit_drop_bit_eq byte_bit_high)
  moreover have "ucast (be32_get (a # b # c # d # rest)) = d"
    by (rule bit_word_eqI) (simp add: bit_or_iff bit_push_bit_iff bit_ucast_iff byte_bit_high)
  ultimately show ?thesis by (simp add: be32_put_def)
qed

lemma ucast_32_64 [simp]: "(ucast (ucast (x :: u32) :: u64) :: u32) = x"
  by (rule bit_word_eqI) (simp add: bit_ucast_iff)

lemma upd_last [simp]: "length xs = n \<Longrightarrow> (xs @ [x])[n := f ((xs @ [x]) ! n)] = xs @ [f x]"
  by (auto simp: list_update_append)

end
