(* ===== verification/Libpq.thy ===== *)
theory Libpq
  imports BW_Prelude
begin

text \<open>
  The interface to libpq (the PostgreSQL client library, not part of this repository) and to the
  clock and \<open>select\<close> of the operating system, and the C library's \<open>printf("%X/%X")\<close> and
  \<open>sscanf("%X/%X")\<close> that the client uses for log positions.

  A libpq call is a field of the parameter record \<open>pq_ops\<close>; it works on a state \<open>'w\<close> of the
  outside world, which the sources never look into. A connection is a handle; \<open>None\<close> is the null
  pointer, which every libpq function accepts.
\<close>

section \<open>Results and calls\<close>

type_synonym conn = nat

datatype exec_status =
    PGRES_COMMAND_OK | PGRES_TUPLES_OK | PGRES_SINGLE_TUPLE | PGRES_COPY_BOTH | PGRES_FATAL_ERROR
  | PGRES_OTHER nat

record pgresult =
  PQresultStatus :: exec_status
  PQresultErrorMessage :: string
  PQnfields :: nat
  PQfformats :: "int list"
  res_rows :: "bytes option list list"

definition PQntuples :: "pgresult \<Rightarrow> nat" where
  "PQntuples res = length (res_rows res)"

text \<open>Out-of-range accesses give a null value, as libpq does.\<close>

definition res_cell :: "pgresult \<Rightarrow> nat \<Rightarrow> nat \<Rightarrow> bytes option" where
  "res_cell res i j =
     (if i < PQntuples res \<and> j < length (res_rows res ! i) then res_rows res ! i ! j else None)"

definition PQgetisnull :: "pgresult \<Rightarrow> nat \<Rightarrow> nat \<Rightarrow> bool" where
  "PQgetisnull res i j = (res_cell res i j = None)"

definition PQgetvalue :: "pgresult \<Rightarrow> nat \<Rightarrow> nat \<Rightarrow> bytes" where
  "PQgetvalue res i j = (case res_cell res i j of Some b \<Rightarrow> b | None \<Rightarrow> [])"

definition PQfformat :: "pgresult \<Rightarrow> nat \<Rightarrow> int" where
  "PQfformat res j = (if j < length (PQfformats res) then PQfformats res ! j else 0)"

record 'w pq_ops =
  PQexec :: "conn option \<Rightarrow> string \<Rightarrow> 'w \<Rightarrow> pgresult \<times> 'w"
  PQexecParams :: "conn option \<Rightarrow> string \<Rightarrow> (Oid \<times> string) list \<Rightarrow> 'w \<Rightarrow> pgresult \<times> 'w"
  PQsendQueryParams :: "conn option \<Rightarrow> string \<Rightarrow> (Oid \<times> string) list \<Rightarrow> int \<Rightarrow> 'w \<Rightarrow> bool \<times> 'w"
  PQsetSingleRowMode :: "conn option \<Rightarrow> 'w \<Rightarrow> bool \<times> 'w"
  PQerrorMessage :: "conn option \<Rightarrow> 'w \<Rightarrow> string"
  PQgetResult :: "conn option \<Rightarrow> 'w \<Rightarrow> pgresult option \<times> 'w"
  PQgetCopyData :: "conn option \<Rightarrow> 'w \<Rightarrow> int \<times> bytes \<times> 'w"
  PQputCopyData :: "conn option \<Rightarrow> bytes \<Rightarrow> 'w \<Rightarrow> int \<times> 'w"
  PQflush :: "conn option \<Rightarrow> 'w \<Rightarrow> int \<times> 'w"
  PQconnectdb :: "string \<Rightarrow> 'w \<Rightarrow> conn option \<times> 'w"
  PQconnectdbParams :: "(string \<times> string) list \<Rightarrow> 'w \<Rightarrow> conn option \<times> 'w"
  PQstatus_ok :: "conn option \<Rightarrow> 'w \<Rightarrow> bool"
  PQconninfoParse :: "string \<Rightarrow> string + (string \<times> string option) list"
  PQfinish :: "conn \<Rightarrow> 'w \<Rightarrow> 'w"
  PQisBusy :: "conn option \<Rightarrow> 'w \<Rightarrow> bool"
  PQconsumeInput :: "conn option \<Rightarrow> 'w \<Rightarrow> bool \<times> 'w"
  select_readable :: "conn option list \<Rightarrow> 'w \<Rightarrow> int \<times> int \<times> 'w"
  gettimeofday :: "'w \<Rightarrow> (int \<times> int) \<times> 'w"

text \<open>
  \<open>PQgetCopyData\<close> gives the return value and the buffer; \<open>select_readable\<close> the return value and
  \<open>errno\<close>; \<open>gettimeofday\<close> the seconds and microseconds.
\<close>

section \<open>Log positions as text\<close>

definition hex_digit :: "nat \<Rightarrow> char" where
  "hex_digit n = ''0123456789ABCDEF'' ! n"

function hex_of :: "nat \<Rightarrow> string" where
  "hex_of n = (if n < 16 then [hex_digit n] else hex_of (n div 16) @ [hex_digit (n mod 16)])"
  by pat_completeness auto
termination by (relation "measure id") auto

declare hex_of.simps [simp del]

text \<open>\<open>printf("%X/%X", (uint32) (lsn >> 32), (uint32) lsn)\<close>\<close>

definition format_lsn :: "XLogRecPtr \<Rightarrow> string" where
  "format_lsn lsn = hex_of (unat (ucast (drop_bit 32 lsn) :: u32)) @ ''/'' @ hex_of (unat (ucast lsn :: u32))"

definition isspace :: "char \<Rightarrow> bool" where
  "isspace c = (c \<in> {CHR '' '', CHR 0x09, CHR 0x0A, CHR 0x0B, CHR 0x0C, CHR 0x0D})"

definition hex_value :: "char \<Rightarrow> nat option" where
  "hex_value c = (let n = of_char c :: nat in
     if 48 \<le> n \<and> n \<le> 57 then Some (n - 48)
     else if 65 \<le> n \<and> n \<le> 70 then Some (n - 55)
     else if 97 \<le> n \<and> n \<le> 102 then Some (n - 87)
     else None)"

fun hex_run :: "nat \<Rightarrow> string \<Rightarrow> nat \<times> string" where
  "hex_run acc [] = (acc, [])"
| "hex_run acc (c # cs) = (case hex_value c of
     None \<Rightarrow> (acc, c # cs) | Some d \<Rightarrow> hex_run (acc * 16 + d) cs)"

definition strip_0x :: "string \<Rightarrow> string" where
  "strip_0x cs = (case cs of
     a # b # rest \<Rightarrow> if a = CHR ''0'' \<and> (b = CHR ''x'' \<or> b = CHR ''X'') then rest else cs
   | _ \<Rightarrow> cs)"

definition strip_sign :: "string \<Rightarrow> bool \<times> string" where
  "strip_sign cs = (case cs of
     a # rest \<Rightarrow> if a = CHR ''-'' then (True, rest) else if a = CHR ''+'' then (False, rest) else (False, cs)
   | [] \<Rightarrow> (False, cs))"

text \<open>The conversion \<open>%X\<close>: white space, sign, optional \<open>0x\<close>, at least one digit; stored in 32 bits.\<close>

definition scan_X :: "string \<Rightarrow> (u32 \<times> string) option" where
  "scan_X cs =
     (let (neg, cs) = strip_sign (dropWhile isspace cs); cs = strip_0x cs in
      case cs of
        [] \<Rightarrow> None
      | c # _ \<Rightarrow> if hex_value c = None then None
          else let (n, rest) = hex_run 0 cs;
                   v = word_of_nat n :: u32
               in Some (if neg then - v else v, rest))"

text \<open>
  \<open>sscanf(text, "%X/%X", &h32, &l32) == 2\<close>, and \<open>((uint64) h32) << 32 | l32\<close>.
\<close>

definition sscanf_lsn :: "string \<Rightarrow> XLogRecPtr option" where
  "sscanf_lsn cs = (case scan_X cs of
     None \<Rightarrow> None
   | Some (h32, rest) \<Rightarrow> (case rest of
       [] \<Rightarrow> None
     | c # rest \<Rightarrow> if c \<noteq> CHR ''/'' then None else (case scan_X rest of
         None \<Rightarrow> None
       | Some (l32, _) \<Rightarrow> Some (push_bit 32 (ucast h32) OR ucast l32))))"

lemma hex_value_digit [simp]: "n < 16 \<Longrightarrow> hex_value (hex_digit n) = Some n"
proof -
  assume "n < 16"
  then have "n \<in> set [0..<16]" by simp
  moreover have "\<forall>n \<in> set [0..<16]. hex_value (hex_digit n) = Some n" by code_simp
  ultimately show ?thesis by blast
qed

lemma hex_run_append:
  "hex_run a (hex_of n @ rest) = hex_run (a * 16 ^ length (hex_of n) + n) rest"
proof (induction n arbitrary: a rest rule: hex_of.induct)
  case (1 n)
  show ?case
  proof (cases "n < 16")
    case True
    then show ?thesis by (simp add: hex_of.simps [of n])
  next
    case False
    with 1 have "hex_run a (hex_of n @ rest) =
        hex_run (a * 16 ^ length (hex_of (n div 16)) + n div 16) (hex_digit (n mod 16) # rest)"
      by (simp add: hex_of.simps [of n])
    with False show ?thesis by (simp add: hex_of.simps [of n] algebra_simps)
  qed
qed

lemma hex_of_start: "\<exists>d cs. d < 16 \<and> hex_of n = hex_digit d # cs"
proof (induction n rule: hex_of.induct)
  case (1 n)
  then show ?case by (cases "n < 16") (force simp: hex_of.simps [of n])+
qed

lemma hex_of_second: "hex_of n = hex_digit d # c # cs \<Longrightarrow> \<exists>e < 16. c = hex_digit e"
proof (induction n arbitrary: cs rule: hex_of.induct)
  case (1 n)
  show ?case
  proof (cases "n < 16 \<or> n div 16 < 16")
    case True
    with 1(2) have "c = hex_digit (n mod 16)"
      by (auto simp: hex_of.simps [of n] hex_of.simps [of "n div 16"] split: if_splits)
    then show ?thesis by (intro exI [of _ "n mod 16"]) simp
  next
    case False
    then have "length (hex_of (n div 16)) \<ge> 2"
      by (simp add: hex_of.simps [of "n div 16"]) (metis Suc_leI hex_of_start length_greater_0_conv list.discI)
    then obtain x y zs where "hex_of (n div 16) = x # y # zs"
      by (metis Suc_le_length_iff numeral_2_eq_2)
    with 1 False show ?thesis by (auto simp: hex_of.simps [of n])
  qed
qed

lemma digit_plain:
  "d < 16 \<Longrightarrow> \<not> isspace (hex_digit d) \<and> hex_digit d \<notin> {CHR ''-'', CHR ''+'', CHR ''x'', CHR ''X''}"
proof -
  assume "d < 16"
  then have "d \<in> set [0..<16]" by simp
  moreover have "\<forall>d \<in> set [0..<16]. \<not> isspace (hex_digit d) \<and>
      hex_digit d \<notin> {CHR ''-'', CHR ''+'', CHR ''x'', CHR ''X''}" by code_simp
  ultimately show ?thesis by blast
qed

lemma strip_0x_hex:
  assumes "rest = [] \<or> hd rest = CHR ''/''"
  shows "strip_0x (hex_of n @ rest) = hex_of n @ rest"
proof -
  obtain d cs where d: "d < 16" "hex_of n = hex_digit d # cs" using hex_of_start by blast
  show ?thesis
  proof (cases cs)
    case Nil
    with d assms show ?thesis by (auto simp: strip_0x_def split: list.split)
  next
    case (Cons c cs')
    with d hex_of_second [of n d c cs'] digit_plain show ?thesis by (auto simp: strip_0x_def)
  qed
qed

lemma scan_X_hex:
  assumes "rest = [] \<or> hd rest = CHR ''/''"
  shows "scan_X (hex_of n @ rest) = Some (word_of_nat n, rest)"
proof -
  obtain d cs where d: "d < 16" "hex_of n = hex_digit d # cs" using hex_of_start by blast
  have stop: "hex_run n rest = (n, rest)"
    using assms by (cases rest) (auto simp: hex_value_def)
  have "strip_sign (dropWhile isspace (hex_of n @ rest)) = (False, hex_of n @ rest)"
    using d digit_plain [OF d(1)] by (simp add: strip_sign_def)
  moreover have "strip_0x (hex_of n @ rest) = hex_digit d # cs @ rest"
    using strip_0x_hex [OF assms, of n] d by simp
  moreover have "hex_run 0 (hex_digit d # cs @ rest) = (n, rest)"
    using hex_run_append [of 0 n rest] stop d by simp
  ultimately show ?thesis
    using d(1) by (simp add: scan_X_def del: hex_run.simps)
qed

lemma join_halves: "push_bit 32 (ucast (ucast (drop_bit 32 (x :: u64)) :: u32)) OR ucast (ucast x :: u32) = x"
  by (rule bit_word_eqI) (auto simp: bit_or_iff bit_push_bit_iff bit_ucast_iff bit_drop_bit_eq)

lemma sscanf_format_lsn: "sscanf_lsn (format_lsn lsn) = Some lsn"
  using scan_X_hex [of "''/'' @ hex_of (unat (ucast lsn :: u32))"] scan_X_hex [of "[]"]
  by (simp add: sscanf_lsn_def format_lsn_def join_halves)

end
