(* ===== verification/Avro_Values.thy ===== *)
theory Avro_Values
  imports BW_Prelude
begin

text \<open>
  The Avro data model and the part of the Avro C library (avro-c, not part of this repository)
  that the sources call.

  \<^item> \<open>avro_schema\<close> is the term built by the schema constructors of the library, \<open>avro_val\<close> a
    generic value together with the schema information its mutators need.
  \<^item> An \<open>avro_value_t\<close> handle is a position (\<open>vpos\<close>) inside a root value: the path of child
    indices, with 0 for the current branch of a union. \<open>val_at\<close> and \<open>val_upd\<close> read and write
    at a position.
  \<^item> The library functions are the fields of a record \<open>avro_ops\<close>, a parameter of every
    definition that calls them. Locale \<open>avro_values\<close> states what their documentation promises
    of the calls the sources make; \<open>avro_ref\<close> is an executable instance.
\<close>

section \<open>Schemas and values\<close>

datatype avro_schema =
    SNull | SBoolean | SInt | SLong | SFloat | SDouble | SBytes | SString
  | SRecord string string "(string \<times> avro_schema) list"
  | SEnum string "string list"
  | SArray avro_schema
  | SUnion "avro_schema list"
  | SLink avro_schema

datatype avro_val =
    VNull | VBoolean bool | VInt u32 | VLong u64 | VFloat u32 | VDouble u64
  | VBytes bytes | VString bytes | VEnum nat
  | VRecord "avro_val list"
  | VArray avro_schema "avro_val list"
  | VUnion "avro_schema list" "(nat \<times> avro_val) option"

type_synonym vpos = "nat list"

text \<open>The schema constructors that extend an existing schema.\<close>

fun avro_schema_record_field_append :: "avro_schema \<Rightarrow> string \<Rightarrow> avro_schema \<Rightarrow> avro_schema" where
  "avro_schema_record_field_append (SRecord n ns fs) f s = SRecord n ns (fs @ [(f, s)])"
| "avro_schema_record_field_append r f s = r"

fun avro_schema_union_append :: "avro_schema \<Rightarrow> avro_schema \<Rightarrow> avro_schema" where
  "avro_schema_union_append (SUnion bs) s = SUnion (bs @ [s])"
| "avro_schema_union_append u s = u"

fun avro_schema_union_size :: "avro_schema \<Rightarrow> nat" where
  "avro_schema_union_size (SUnion bs) = length bs"
| "avro_schema_union_size s = 0"

fun avro_schema_name :: "avro_schema \<Rightarrow> string option" where
  "avro_schema_name (SRecord n ns fs) = Some n"
| "avro_schema_name (SEnum n syms) = Some n"
| "avro_schema_name (SLink s) = avro_schema_name s"
| "avro_schema_name s = None"

text \<open>The value of a freshly created or reset generic value.\<close>

fun default_val :: "avro_schema \<Rightarrow> avro_val" where
  "default_val SNull = VNull"
| "default_val SBoolean = VBoolean False"
| "default_val SInt = VInt 0"
| "default_val SLong = VLong 0"
| "default_val SFloat = VFloat 0"
| "default_val SDouble = VDouble 0"
| "default_val SBytes = VBytes []"
| "default_val SString = VString []"
| "default_val (SRecord n ns fs) = VRecord (map (\<lambda>fs. default_val (snd fs)) fs)"
| "default_val (SEnum n syms) = VEnum 0"
| "default_val (SArray s) = VArray s []"
| "default_val (SUnion bs) = VUnion bs None"
| "default_val (SLink s) = default_val s"

text \<open>\<open>has_schema v s\<close>: \<open>v\<close> is a value of schema \<open>s\<close>; a union may have no
  branch selected yet, and an enum value is any symbol index.\<close>

fun has_schema :: "avro_val \<Rightarrow> avro_schema \<Rightarrow> bool" where
  "has_schema v (SLink s) = has_schema v s"
| "has_schema v SNull = (v = VNull)"
| "has_schema v SBoolean = (\<exists>b. v = VBoolean b)"
| "has_schema v SInt = (\<exists>i. v = VInt i)"
| "has_schema v SLong = (\<exists>i. v = VLong i)"
| "has_schema v SFloat = (\<exists>i. v = VFloat i)"
| "has_schema v SDouble = (\<exists>i. v = VDouble i)"
| "has_schema v SBytes = (\<exists>b. v = VBytes b)"
| "has_schema v SString = (\<exists>b. v = VString b)"
| "has_schema v (SEnum n syms) = (\<exists>i. v = VEnum i)"
| "has_schema v (SRecord n ns fs) = (case v of
     VRecord vs \<Rightarrow> list_all2 (\<lambda>v fs. has_schema v (snd fs)) vs fs | _ \<Rightarrow> False)"
| "has_schema v (SArray s) = (case v of
     VArray s' vs \<Rightarrow> s' = s \<and> (\<forall>v \<in> set vs. has_schema v s) | _ \<Rightarrow> False)"
| "has_schema v (SUnion bs) = (case v of
     VUnion bs' c \<Rightarrow> bs' = bs \<and> (case c of None \<Rightarrow> True
       | Some (d, v') \<Rightarrow> d < length bs \<and> has_schema v' (bs ! d)) | _ \<Rightarrow> False)"

lemma has_schema_default: "has_schema (default_val s) s"
  by (induction s rule: default_val.induct) (auto simp: list_all2_conv_all_nth)

section \<open>Positions inside a value\<close>

fun val_at :: "avro_val \<Rightarrow> vpos \<Rightarrow> avro_val option" where
  "val_at v [] = Some v"
| "val_at (VRecord vs) (i # p) = (if i < length vs then val_at (vs ! i) p else None)"
| "val_at (VArray s vs) (i # p) = (if i < length vs then val_at (vs ! i) p else None)"
| "val_at (VUnion bs (Some (d, v))) (i # p) = (if i = 0 then val_at v p else None)"
| "val_at v (i # p) = None"

fun val_upd :: "avro_val \<Rightarrow> vpos \<Rightarrow> avro_val \<Rightarrow> avro_val" where
  "val_upd v [] w = w"
| "val_upd (VRecord vs) (i # p) w =
     (if i < length vs then VRecord (vs[i := val_upd (vs ! i) p w]) else VRecord vs)"
| "val_upd (VArray s vs) (i # p) w =
     (if i < length vs then VArray s (vs[i := val_upd (vs ! i) p w]) else VArray s vs)"
| "val_upd (VUnion bs (Some (d, v))) (i # p) w =
     (if i = 0 then VUnion bs (Some (d, val_upd v p w)) else VUnion bs (Some (d, v)))"
| "val_upd v (i # p) w = v"

lemma val_at_append:
  "val_at v (p @ q) = (case val_at v p of None \<Rightarrow> None | Some w \<Rightarrow> val_at w q)"
  by (induction v p rule: val_at.induct) auto

lemma val_at_upd_same: "val_at v p \<noteq> None \<Longrightarrow> val_at (val_upd v p w) p = Some w"
  by (induction v p rule: val_at.induct) (auto split: if_splits)

lemma val_upd_append:
  "val_at v p = Some w \<Longrightarrow> val_upd v (p @ q) x = val_upd v p (val_upd w q x)"
  by (induction v p arbitrary: w rule: val_at.induct) (auto split: if_splits)

lemma val_upd_upd: "val_upd (val_upd v p x) p y = val_upd v p y"
  by (induction v p rule: val_at.induct) auto

section \<open>The library interface\<close>

text \<open>
  Getters return an error code and their output parameter; mutators also return the changed
  root value. \<open>avro_value_set_string_len\<close> takes a buffer and a length that counts the
  terminating null byte, as \<open>avro_value_get_string\<close> reports one; a \<open>VString\<close> holds the bytes
  before it.
\<close>

record avro_ops =
  avro_value_reset :: "avro_val \<Rightarrow> int \<times> avro_val"
  avro_value_get_by_index :: "avro_val \<Rightarrow> vpos \<Rightarrow> nat \<Rightarrow> int \<times> vpos"
  avro_value_get_size :: "avro_val \<Rightarrow> vpos \<Rightarrow> int \<times> nat"
  avro_value_get_discriminant :: "avro_val \<Rightarrow> vpos \<Rightarrow> int \<times> int"
  avro_value_get_current_branch :: "avro_val \<Rightarrow> vpos \<Rightarrow> int \<times> vpos"
  avro_value_get_long :: "avro_val \<Rightarrow> vpos \<Rightarrow> int \<times> u64"
  avro_value_get_bytes :: "avro_val \<Rightarrow> vpos \<Rightarrow> int \<times> bytes"
  avro_value_get_string :: "avro_val \<Rightarrow> vpos \<Rightarrow> int \<times> (bytes \<times> nat)"
  avro_value_append :: "vpos \<Rightarrow> avro_val \<Rightarrow> int \<times> vpos \<times> avro_val"
  avro_value_set_branch :: "vpos \<Rightarrow> nat \<Rightarrow> avro_val \<Rightarrow> int \<times> vpos \<times> avro_val"
  avro_value_set_leaf :: "vpos \<Rightarrow> avro_val \<Rightarrow> avro_val \<Rightarrow> int \<times> avro_val"

text \<open>
  The typed leaf mutators (\<open>avro_value_set_long\<close> and its kin) are one field,
  \<open>avro_value_set_leaf\<close>, applied to the leaf to store.
\<close>

abbreviation avro_value_set_boolean :: "('z avro_ops_scheme) \<Rightarrow> vpos \<Rightarrow> bool \<Rightarrow> avro_val \<Rightarrow> int \<times> avro_val" where
  "avro_value_set_boolean A p b \<equiv> avro_value_set_leaf A p (VBoolean b)"

abbreviation avro_value_set_int :: "('z avro_ops_scheme) \<Rightarrow> vpos \<Rightarrow> u32 \<Rightarrow> avro_val \<Rightarrow> int \<times> avro_val" where
  "avro_value_set_int A p i \<equiv> avro_value_set_leaf A p (VInt i)"

abbreviation avro_value_set_long :: "('z avro_ops_scheme) \<Rightarrow> vpos \<Rightarrow> u64 \<Rightarrow> avro_val \<Rightarrow> int \<times> avro_val" where
  "avro_value_set_long A p i \<equiv> avro_value_set_leaf A p (VLong i)"

abbreviation avro_value_set_bytes :: "('z avro_ops_scheme) \<Rightarrow> vpos \<Rightarrow> bytes \<Rightarrow> avro_val \<Rightarrow> int \<times> avro_val" where
  "avro_value_set_bytes A p b \<equiv> avro_value_set_leaf A p (VBytes b)"

abbreviation avro_value_set_string_len ::
  "('z avro_ops_scheme) \<Rightarrow> vpos \<Rightarrow> bytes \<Rightarrow> nat \<Rightarrow> avro_val \<Rightarrow> int \<times> avro_val" where
  "avro_value_set_string_len A p b n \<equiv> avro_value_set_leaf A p (VString (take (n - 1) b))"

abbreviation avro_value_set_enum :: "('z avro_ops_scheme) \<Rightarrow> vpos \<Rightarrow> nat \<Rightarrow> avro_val \<Rightarrow> int \<times> avro_val" where
  "avro_value_set_enum A p i \<equiv> avro_value_set_leaf A p (VEnum i)"

text \<open>Two leaves of the same type: a mutator of that type applies to both.\<close>

fun leaf_type :: "avro_val \<Rightarrow> avro_schema option" where
  "leaf_type (VBoolean b) = Some SBoolean"
| "leaf_type (VInt i) = Some SInt"
| "leaf_type (VLong i) = Some SLong"
| "leaf_type (VFloat i) = Some SFloat"
| "leaf_type (VDouble i) = Some SDouble"
| "leaf_type (VBytes b) = Some SBytes"
| "leaf_type (VString b) = Some SString"
| "leaf_type (VEnum i) = Some (SEnum [] [])"
| "leaf_type v = None"

definition same_leaf :: "avro_val \<Rightarrow> avro_val \<Rightarrow> bool" where
  "same_leaf v w \<longleftrightarrow> leaf_type v = leaf_type w \<and> leaf_type v \<noteq> None"

text \<open>Selecting branch \<open>d\<close> of a union keeps the branch value if it is already selected.\<close>

definition select_branch :: "avro_schema list \<Rightarrow> (nat \<times> avro_val) option \<Rightarrow> nat \<Rightarrow> avro_val" where
  "select_branch bs c d = VUnion bs (Some (d, case c of
     Some (d', v) \<Rightarrow> if d' = d then v else default_val (bs ! d) | None \<Rightarrow> default_val (bs ! d)))"

locale avro_values =
  fixes A :: "'z avro_ops_scheme"
  assumes reset: "has_schema v s \<Longrightarrow> avro_value_reset A v = (0, default_val s)"
    and index_record: "val_at v p = Some (VRecord vs) \<Longrightarrow> i < length vs \<Longrightarrow>
      avro_value_get_by_index A v p i = (0, p @ [i])"
    and index_array: "val_at v p = Some (VArray s vs) \<Longrightarrow> i < length vs \<Longrightarrow>
      avro_value_get_by_index A v p i = (0, p @ [i])"
    and size_array: "val_at v p = Some (VArray s vs) \<Longrightarrow>
      avro_value_get_size A v p = (0, length vs)"
    and discriminant: "val_at v p = Some (VUnion bs (Some (d, w))) \<Longrightarrow>
      avro_value_get_discriminant A v p = (0, int d)"
    and current_branch: "val_at v p = Some (VUnion bs (Some (d, w))) \<Longrightarrow>
      avro_value_get_current_branch A v p = (0, p @ [0])"
    and get_long: "val_at v p = Some (VLong n) \<Longrightarrow> avro_value_get_long A v p = (0, n)"
    and get_bytes: "val_at v p = Some (VBytes b) \<Longrightarrow> avro_value_get_bytes A v p = (0, b)"
    and get_string: "val_at v p = Some (VString b) \<Longrightarrow>
      avro_value_get_string A v p = (0, b, length b + 1)"
    and append: "val_at v p = Some (VArray s vs) \<Longrightarrow>
      avro_value_append A p v =
        (0, p @ [length vs], val_upd v p (VArray s (vs @ [default_val s])))"
    and set_branch: "val_at v p = Some (VUnion bs c) \<Longrightarrow> d < length bs \<Longrightarrow>
      avro_value_set_branch A p d v = (0, p @ [0], val_upd v p (select_branch bs c d))"
    and set_leaf: "val_at v p = Some l \<Longrightarrow> same_leaf l w \<Longrightarrow>
      avro_value_set_leaf A p w v = (0, val_upd v p w)"
begin

lemmas values_simps =
  index_record index_array size_array discriminant current_branch get_long get_bytes
  get_string append set_branch set_leaf

end

section \<open>An executable instance\<close>

text \<open>The schema-shaped default of a value: what a reset makes of it.\<close>

fun reset_val :: "avro_val \<Rightarrow> avro_val" where
  "reset_val VNull = VNull"
| "reset_val (VBoolean b) = VBoolean False"
| "reset_val (VInt i) = VInt 0"
| "reset_val (VLong i) = VLong 0"
| "reset_val (VFloat i) = VFloat 0"
| "reset_val (VDouble i) = VDouble 0"
| "reset_val (VBytes b) = VBytes []"
| "reset_val (VString b) = VString []"
| "reset_val (VEnum i) = VEnum 0"
| "reset_val (VRecord vs) = VRecord (map reset_val vs)"
| "reset_val (VArray s vs) = VArray s []"
| "reset_val (VUnion bs c) = VUnion bs None"

lemma reset_val_default: "has_schema v s \<Longrightarrow> reset_val v = default_val s"
proof (induction v s rule: has_schema.induct)
  case (11 v n ns fs)
  then show ?case
    by (cases v) (auto simp: list_all2_conv_all_nth intro!: nth_equalityI, metis nth_mem prod.collapse)
qed (auto split: avro_val.splits)

definition avro_ref :: avro_ops where
  "avro_ref = \<lparr>
     avro_value_reset = (\<lambda>v. (0, reset_val v)),
     avro_value_get_by_index = (\<lambda>v p i. (case val_at v p of
        Some (VRecord vs) \<Rightarrow> if i < length vs then (0, p @ [i]) else (EINVAL, p)
      | Some (VArray s vs) \<Rightarrow> if i < length vs then (0, p @ [i]) else (EINVAL, p)
      | _ \<Rightarrow> (EINVAL, p))),
     avro_value_get_size = (\<lambda>v p. (case val_at v p of
        Some (VArray s vs) \<Rightarrow> (0, length vs) | _ \<Rightarrow> (EINVAL, 0))),
     avro_value_get_discriminant = (\<lambda>v p. (case val_at v p of
        Some (VUnion bs (Some (d, w))) \<Rightarrow> (0, int d) | _ \<Rightarrow> (EINVAL, -1))),
     avro_value_get_current_branch = (\<lambda>v p. (case val_at v p of
        Some (VUnion bs (Some (d, w))) \<Rightarrow> (0, p @ [0]) | _ \<Rightarrow> (EINVAL, p))),
     avro_value_get_long = (\<lambda>v p. (case val_at v p of
        Some (VLong i) \<Rightarrow> (0, i) | _ \<Rightarrow> (EINVAL, 0))),
     avro_value_get_bytes = (\<lambda>v p. (case val_at v p of
        Some (VBytes b) \<Rightarrow> (0, b) | _ \<Rightarrow> (EINVAL, []))),
     avro_value_get_string = (\<lambda>v p. (case val_at v p of
        Some (VString b) \<Rightarrow> (0, b, length b + 1) | _ \<Rightarrow> (EINVAL, [], 0))),
     avro_value_append = (\<lambda>p v. (case val_at v p of
        Some (VArray s vs) \<Rightarrow> (0, p @ [length vs], val_upd v p (VArray s (vs @ [default_val s])))
      | _ \<Rightarrow> (EINVAL, p, v))),
     avro_value_set_branch = (\<lambda>p d v. (case val_at v p of
        Some (VUnion bs c) \<Rightarrow> if d < length bs then (0, p @ [0], val_upd v p (select_branch bs c d))
                              else (EINVAL, p, v)
      | _ \<Rightarrow> (EINVAL, p, v))),
     avro_value_set_leaf = (\<lambda>p w v. (case val_at v p of
        Some l \<Rightarrow> if same_leaf l w then (0, val_upd v p w) else (EINVAL, v)
      | None \<Rightarrow> (EINVAL, v))) \<rparr>"

interpretation aref: avro_values avro_ref
  by unfold_locales (auto simp: avro_ref_def reset_val_default)

end
