(* ===== verification/Protocol.thy ===== *)
theory Protocol
  imports Avro_Values
begin

text \<open>
  The wire protocol between the output plugin and the client (\<open>ext/protocol.h\<close>,
  \<open>ext/protocol.c\<close>): the Avro schema of a frame, and the messages a frame carries.

  \<open>schema_for_frame\<close> follows the code, with its \<open>assert\<close>s as failures; \<open>wire_msg\<close> is the
  abstract message, \<open>enc_msg\<close> its Avro value and \<open>frame_of\<close> the value of a frame that carries a
  list of messages. The server and client theories relate their code to these.
\<close>

abbreviation PROTOCOL_SCHEMA_NAMESPACE :: string where
  "PROTOCOL_SCHEMA_NAMESPACE \<equiv> ''com.martinkl.bottledwater.protocol''"

abbreviation (input) PROTOCOL_MSG_BEGIN_TXN :: nat where "PROTOCOL_MSG_BEGIN_TXN \<equiv> 0"
abbreviation (input) PROTOCOL_MSG_COMMIT_TXN :: nat where "PROTOCOL_MSG_COMMIT_TXN \<equiv> 1"
abbreviation (input) PROTOCOL_MSG_TABLE_SCHEMA :: nat where "PROTOCOL_MSG_TABLE_SCHEMA \<equiv> 2"
abbreviation (input) PROTOCOL_MSG_INSERT :: nat where "PROTOCOL_MSG_INSERT \<equiv> 3"
abbreviation (input) PROTOCOL_MSG_UPDATE :: nat where "PROTOCOL_MSG_UPDATE \<equiv> 4"
abbreviation (input) PROTOCOL_MSG_DELETE :: nat where "PROTOCOL_MSG_DELETE \<equiv> 5"

section \<open>Schemas\<close>

definition nullable_schema :: "avro_schema \<Rightarrow> avro_schema" where
  "nullable_schema value_schema =
     (let null_schema = SNull;
          union_schema = SUnion [];
          union_schema = avro_schema_union_append union_schema null_schema;
          union_schema = avro_schema_union_append union_schema value_schema
      in union_schema)"

definition schema_for_begin_txn :: avro_schema where
  "schema_for_begin_txn =
     (let record_schema = SRecord ''BeginTxn'' PROTOCOL_SCHEMA_NAMESPACE []
      in avro_schema_record_field_append record_schema ''xid'' SLong)"

definition schema_for_commit_txn :: avro_schema where
  "schema_for_commit_txn =
     (let record_schema = SRecord ''CommitTxn'' PROTOCOL_SCHEMA_NAMESPACE [];
          record_schema = avro_schema_record_field_append record_schema ''xid'' SLong;
          record_schema = avro_schema_record_field_append record_schema ''lsn'' SLong
      in record_schema)"

definition schema_for_table_schema :: avro_schema where
  "schema_for_table_schema =
     (let record_schema = SRecord ''TableSchema'' PROTOCOL_SCHEMA_NAMESPACE [];
          record_schema = avro_schema_record_field_append record_schema ''relid'' SLong;
          record_schema = avro_schema_record_field_append record_schema ''keySchema''
                            (nullable_schema SString);
          record_schema = avro_schema_record_field_append record_schema ''rowSchema'' SString
      in record_schema)"

definition schema_for_insert :: avro_schema where
  "schema_for_insert =
     (let record_schema = SRecord ''Insert'' PROTOCOL_SCHEMA_NAMESPACE [];
          record_schema = avro_schema_record_field_append record_schema ''relid'' SLong;
          record_schema = avro_schema_record_field_append record_schema ''key''
                            (nullable_schema SBytes);
          record_schema = avro_schema_record_field_append record_schema ''newRow'' SBytes
      in record_schema)"

definition schema_for_update :: avro_schema where
  "schema_for_update =
     (let record_schema = SRecord ''Update'' PROTOCOL_SCHEMA_NAMESPACE [];
          record_schema = avro_schema_record_field_append record_schema ''relid'' SLong;
          record_schema = avro_schema_record_field_append record_schema ''key''
                            (nullable_schema SBytes);
          record_schema = avro_schema_record_field_append record_schema ''oldRow''
                            (nullable_schema SBytes);
          record_schema = avro_schema_record_field_append record_schema ''newRow'' SBytes
      in record_schema)"

definition schema_for_delete :: avro_schema where
  "schema_for_delete =
     (let record_schema = SRecord ''Delete'' PROTOCOL_SCHEMA_NAMESPACE [];
          record_schema = avro_schema_record_field_append record_schema ''relid'' SLong;
          record_schema = avro_schema_record_field_append record_schema ''key''
                            (nullable_schema SBytes);
          record_schema = avro_schema_record_field_append record_schema ''oldRow''
                            (nullable_schema SBytes)
      in record_schema)"

text \<open>\<open>None\<close> is a failed \<open>assert\<close>.\<close>

definition assert_then :: "bool \<Rightarrow> 'a option \<Rightarrow> 'a option" where
  "assert_then b k = (if b then k else None)"

definition schema_for_frame :: "avro_schema option" where
  "schema_for_frame =
     (let union_schema = SUnion [] in
      assert_then (avro_schema_union_size union_schema = PROTOCOL_MSG_BEGIN_TXN)
     (let union_schema = avro_schema_union_append union_schema schema_for_begin_txn in
      assert_then (avro_schema_union_size union_schema = PROTOCOL_MSG_COMMIT_TXN)
     (let union_schema = avro_schema_union_append union_schema schema_for_commit_txn in
      assert_then (avro_schema_union_size union_schema = PROTOCOL_MSG_TABLE_SCHEMA)
     (let union_schema = avro_schema_union_append union_schema schema_for_table_schema in
      assert_then (avro_schema_union_size union_schema = PROTOCOL_MSG_INSERT)
     (let union_schema = avro_schema_union_append union_schema schema_for_insert in
      assert_then (avro_schema_union_size union_schema = PROTOCOL_MSG_UPDATE)
     (let union_schema = avro_schema_union_append union_schema schema_for_update in
      assert_then (avro_schema_union_size union_schema = PROTOCOL_MSG_DELETE)
     (let union_schema = avro_schema_union_append union_schema schema_for_delete;
          array_schema = SArray union_schema;
          record_schema = SRecord ''Frame'' PROTOCOL_SCHEMA_NAMESPACE []
      in Some (avro_schema_record_field_append record_schema ''msg'' array_schema))))))))"

section \<open>Messages\<close>

text \<open>The branches of the message union, in the order of the \<open>PROTOCOL_MSG\<close> constants.\<close>

definition msg_branches :: "avro_schema list" where
  "msg_branches = [schema_for_begin_txn, schema_for_commit_txn, schema_for_table_schema,
     schema_for_insert, schema_for_update, schema_for_delete]"

definition frame_schema :: avro_schema where
  "frame_schema =
     SRecord ''Frame'' PROTOCOL_SCHEMA_NAMESPACE [(''msg'', SArray (SUnion msg_branches))]"

datatype wire_msg =
    BeginTxn u32
  | CommitTxn u32 XLogRecPtr
  | TableSchema Oid "bytes option" bytes
  | Insert Oid "bytes option" bytes
  | Update Oid "bytes option" "bytes option" bytes
  | Delete Oid "bytes option" "bytes option"

definition enc_opt :: "avro_schema \<Rightarrow> (bytes \<Rightarrow> avro_val) \<Rightarrow> bytes option \<Rightarrow> avro_val" where
  "enc_opt s f b = VUnion [SNull, s]
     (Some (case b of None \<Rightarrow> (0, VNull) | Some b \<Rightarrow> (1, f b)))"

fun msg_type :: "wire_msg \<Rightarrow> nat" where
  "msg_type (BeginTxn x) = PROTOCOL_MSG_BEGIN_TXN"
| "msg_type (CommitTxn x l) = PROTOCOL_MSG_COMMIT_TXN"
| "msg_type (TableSchema r k w) = PROTOCOL_MSG_TABLE_SCHEMA"
| "msg_type (Insert r k n) = PROTOCOL_MSG_INSERT"
| "msg_type (Update r k l n) = PROTOCOL_MSG_UPDATE"
| "msg_type (Delete r k l) = PROTOCOL_MSG_DELETE"

fun msg_record :: "wire_msg \<Rightarrow> avro_val list" where
  "msg_record (BeginTxn x) = [VLong (ucast x)]"
| "msg_record (CommitTxn x l) = [VLong (ucast x), VLong l]"
| "msg_record (TableSchema r k w) = [VLong (ucast r), enc_opt SString VString k, VString w]"
| "msg_record (Insert r k n) = [VLong (ucast r), enc_opt SBytes VBytes k, VBytes n]"
| "msg_record (Update r k l n) =
     [VLong (ucast r), enc_opt SBytes VBytes k, enc_opt SBytes VBytes l, VBytes n]"
| "msg_record (Delete r k l) =
     [VLong (ucast r), enc_opt SBytes VBytes k, enc_opt SBytes VBytes l]"

definition enc_msg :: "wire_msg \<Rightarrow> avro_val" where
  "enc_msg m = VUnion msg_branches (Some (msg_type m, VRecord (msg_record m)))"

definition frame_of :: "wire_msg list \<Rightarrow> avro_val" where
  "frame_of ms = VRecord [VArray (SUnion msg_branches) (map enc_msg ms)]"

text \<open>What a participant knows of the tables: the row schema and, if there is one, the key schema.\<close>

type_synonym schema_view = "Oid \<Rightarrow> (avro_schema \<times> avro_schema option) option"

lemmas schema_defs =
  nullable_schema_def schema_for_begin_txn_def schema_for_commit_txn_def
  schema_for_table_schema_def schema_for_insert_def schema_for_update_def schema_for_delete_def

lemma schema_for_frame_eq: "schema_for_frame = Some frame_schema"
  by (simp add: schema_for_frame_def assert_then_def Let_def frame_schema_def msg_branches_def)

lemma default_frame: "default_val frame_schema = frame_of []"
  by (simp add: frame_schema_def frame_of_def)

lemma length_msg_branches [simp]: "length msg_branches = 6"
  by (simp add: msg_branches_def)

lemma msg_type_less [simp]: "msg_type m < 6"
  by (cases m) simp_all

lemma enc_msg_schema: "has_schema (enc_msg m) (SUnion msg_branches)"
  by (cases m) (auto simp: enc_msg_def msg_branches_def schema_defs enc_opt_def numeral_nat
      split: option.splits)

lemma frame_of_schema: "has_schema (frame_of ms) frame_schema"
  using enc_msg_schema by (auto simp: frame_of_def frame_schema_def)

end
