(* ===== verification/Avro_IO.thy ===== *)
theory Avro_IO
  imports Avro_Values
begin

text \<open>
  The encoding half of the Avro C library: binary reading and writing of values, schemas as
  JSON text, values as JSON text. As in \<open>Avro_Values\<close> the functions are fields of a parameter
  record, and locale \<open>avro_codec\<close> states what the sources rely on: a value written with a
  schema is read back, and nothing of the input beyond it is consumed.
\<close>

record avro_io = avro_ops +
  avro_value_write :: "avro_val \<Rightarrow> nat \<Rightarrow> int \<times> bytes"
  avro_value_read :: "bytes \<Rightarrow> avro_val \<Rightarrow> int \<times> bytes \<times> avro_val"
  avro_skip :: "bytes \<Rightarrow> nat \<Rightarrow> int \<times> bytes"
  avro_schema_to_json :: "avro_schema \<Rightarrow> nat \<Rightarrow> int \<times> bytes"
  avro_schema_from_json_length :: "bytes \<Rightarrow> nat \<Rightarrow> int \<times> avro_schema"
  avro_generic_value_new :: "avro_schema \<Rightarrow> int \<times> avro_val"
  avro_value_to_json :: "avro_val \<Rightarrow> int \<times> bytes"
  avro_write :: "bytes \<Rightarrow> nat \<Rightarrow> bytes \<Rightarrow> int \<times> bytes"

text \<open>
  \<open>avro_value_write v n\<close> writes into a memory writer with room for \<open>n\<close> bytes and gives the bytes
  written; \<open>avro_write w n b\<close> adds the bytes \<open>b\<close> to such a writer that already holds \<open>w\<close>;
  \<open>avro_value_read src v\<close> reads a value of the schema of \<open>v\<close> and gives the unread rest
  of the source.
\<close>

locale avro_codec = avro_values A for A :: "'z avro_io_scheme" +
  assumes write_fits: "avro_value_write A v n = (0, b) \<Longrightarrow> length b \<le> n"
    and write_room: "avro_value_write A v n = (0, b) \<Longrightarrow>
      if length b \<le> m then avro_value_write A v m = (0, b) else fst (avro_value_write A v m) = ENOSPC"
    and read_write: "avro_value_write A v n = (0, b) \<Longrightarrow> has_schema v s \<Longrightarrow> has_schema u s \<Longrightarrow>
      avro_value_read A (b @ rest) u = (0, rest, v)"
    and read_schema: "has_schema u s \<Longrightarrow> has_schema (snd (snd (avro_value_read A src u))) s"
    and skip: "0 < n \<Longrightarrow> avro_skip A src n = (if length src < n then (ENOSPC, src) else (0, drop n src))"
    and json_fits: "avro_schema_to_json A s n = (0, b) \<Longrightarrow> length b \<le> n"
    and json_room: "avro_schema_to_json A s n = (0, b) \<Longrightarrow>
      if length b \<le> m then avro_schema_to_json A s m = (0, b) else fst (avro_schema_to_json A s m) = ENOSPC"
    and schema_json: "avro_schema_to_json A s n = (0, b) \<Longrightarrow>
      avro_schema_from_json_length A b (length b) = (0, s)"
    and write_raw: "length w \<le> n \<Longrightarrow>
      avro_write A w n b = (if length w + length b \<le> n then (0, w @ b) else (ENOSPC, w))"
    and value_new: "avro_generic_value_new A s = (0, default_val s)"

end
