(* ===== verification/Relid_Table.thy ===== *)
theory Relid_Table
  imports BW_Prelude
begin

text \<open>
  Two components keep a growable array of structures that they search by relid: the schema list
  of the frame reader (\<open>client/protocol_client.c\<close>) and the table list of the table mapper
  (\<open>kafka/table_mapper.c\<close>). Their shared contract is locale \<open>relid_table\<close>: what a lookup finds,
  what a new entry adds, and that the array never overflows its capacity. Its lemmas are about
  the client code's idiom \<^emph>\<open>look up, or else create\<close>.
\<close>

definition table_invar :: "nat \<Rightarrow> nat \<Rightarrow> 'k list \<Rightarrow> bool" where
  "table_invar n c ks \<longleftrightarrow> n = length ks \<and> n \<le> c \<and> 0 < c \<and> distinct ks"

locale relid_table =
  fixes key :: "'e \<Rightarrow> 'k"
    and entries :: "'t \<Rightarrow> 'e list"
    and num :: "'t \<Rightarrow> nat"
    and cap :: "'t \<Rightarrow> nat"
    and lookup :: "'t \<Rightarrow> 'k \<Rightarrow> nat option"
    and new_entry :: "'k \<Rightarrow> 't \<Rightarrow> nat \<times> 't"
  assumes lookup_Some: "num t = length (entries t) \<Longrightarrow> lookup t k = Some i \<Longrightarrow>
      i < length (entries t) \<and> key (entries t ! i) = k"
    and lookup_None: "num t = length (entries t) \<Longrightarrow> lookup t k = None \<Longrightarrow>
      k \<notin> key ` set (entries t)"
    and new_entry: "new_entry k t = (i, t') \<Longrightarrow> num t = length (entries t) \<Longrightarrow>
      num t \<le> cap t \<Longrightarrow> 0 < cap t \<Longrightarrow>
      i = length (entries t) \<and> num t' = Suc (num t) \<and> num t' \<le> cap t' \<and> cap t \<le> cap t' \<and>
      (\<exists>e. entries t' = entries t @ [e] \<and> key e = k)"
begin

definition invar :: "'t \<Rightarrow> bool" where
  "invar t \<longleftrightarrow> table_invar (num t) (cap t) (map key (entries t))"

definition upsert :: "'k \<Rightarrow> 't \<Rightarrow> nat \<times> 't" where
  "upsert k t = (case lookup t k of Some i \<Rightarrow> (i, t) | None \<Rightarrow> new_entry k t)"

lemma lookup_iff:
  assumes "invar t"
  shows "lookup t k = Some i \<longleftrightarrow> i < length (entries t) \<and> key (entries t ! i) = k"
proof
  assume "lookup t k = Some i"
  with assms lookup_Some show "i < length (entries t) \<and> key (entries t ! i) = k"
    by (simp add: invar_def table_invar_def)
next
  assume i: "i < length (entries t) \<and> key (entries t ! i) = k"
  then have "k \<in> key ` set (entries t)" by auto
  with assms lookup_None obtain j where j: "lookup t k = Some j"
    by (auto simp: invar_def table_invar_def)
  with assms lookup_Some have "j < length (entries t) \<and> key (entries t ! j) = k"
    by (simp add: invar_def table_invar_def)
  with i assms have "i = j"
    by (simp add: invar_def table_invar_def) (metis length_map nth_eq_iff_index_eq nth_map)
  with j show "lookup t k = Some i" by simp
qed

lemma upsert_result:
  assumes "invar t" and "upsert k t = (i, t')"
  shows "invar t'" and "lookup t' k = Some i" and "num t' \<le> cap t'"
    and "k' \<noteq> k \<Longrightarrow> lookup t' k' = lookup t k'"
proof -
  have main: "invar t' \<and> lookup t' k = Some i \<and> num t' \<le> cap t' \<and>
      (k' \<noteq> k \<longrightarrow> lookup t' k' = lookup t k')" for k'
  proof (cases "lookup t k")
    case (Some j)
    with assms show ?thesis by (auto simp: upsert_def invar_def table_invar_def)
  next
    case None
    with assms have n: "new_entry k t = (i, t')" by (simp add: upsert_def)
    from assms(1) have inv: "num t = length (entries t)" "num t \<le> cap t" "0 < cap t"
        "distinct (map key (entries t))"
      by (simp_all add: invar_def table_invar_def)
    from new_entry [OF n inv(1-3)] obtain e where e: "i = length (entries t)"
        "num t' = Suc (num t)" "num t' \<le> cap t'" "entries t' = entries t @ [e]" "key e = k"
      by blast
    from lookup_None [OF inv(1) None] e inv have inv': "invar t'"
      by (auto simp: invar_def table_invar_def)
    have k: "lookup t' k = Some i"
      using lookup_iff [OF inv'] e by (simp add: nth_append)
    have "lookup t' k' = Some j \<longleftrightarrow> lookup t k' = Some j" if "k' \<noteq> k" for j
      using lookup_iff [OF inv'] lookup_iff [OF assms(1)] e that
      by (auto simp: nth_append less_Suc_eq)
    then have "k' \<noteq> k \<longrightarrow> lookup t' k' = lookup t k'"
      by (metis option.exhaust)
    with inv' k e show ?thesis by simp
  qed
  show "invar t'" "lookup t' k = Some i" "num t' \<le> cap t'"
    "k' \<noteq> k \<Longrightarrow> lookup t' k' = lookup t k'"
    using main by blast+
qed

end

end
