(* ===== verification/Protocol_Client.thy ===== *)
theory Protocol_Client
  imports Protocol Avro_IO Relid_Table
begin

text \<open>
  The client side of the wire protocol, \<open>client/protocol_client.c\<close> and its header: the frame
  reader with its growable list of table schemas, and the dispatch of the messages of a frame to
  the callbacks of the application.

  The C structures embed or point to each other one to one (frame reader, replication stream,
  client context, producer context); the model makes them one extensible record, so a callback
  works on the whole application state and the functions here on its frame reader part.
\<close>

section \<open>State\<close>

record schema_list_entry =
  relid :: Oid
  key_schema :: "avro_schema ptr"
  row_schema :: "avro_schema ptr"
  key_iface :: "avro_schema ptr"
  row_iface :: "avro_schema ptr"
  key_value :: "avro_val ptr"
  row_value :: "avro_val ptr"
  old_value :: "avro_val ptr"
  avro_reader :: "unit ptr"

record frame_reader =
  num_schemas :: nat
  capacity :: nat
  schemas :: "schema_list_entry list"
  frame_value :: avro_val
  reader_refs :: "unit ptr"

text \<open>
  \<open>reader_refs\<close> stands for the references the reader itself owns (frame schema, interface,
  value and Avro reader), which are created and released together.

  The callbacks of a frame reader; \<open>None\<close> is a null function pointer. Lengths of byte arrays
  are those of the lists.
\<close>

record 's callbacks =
  cb_begin_txn :: "(u64 \<Rightarrow> u32 \<Rightarrow> ('s, int) prog) option"
  cb_commit_txn :: "(u64 \<Rightarrow> u32 \<Rightarrow> ('s, int) prog) option"
  cb_table_schema :: "(u64 \<Rightarrow> Oid \<Rightarrow> bytes option \<Rightarrow> nat \<Rightarrow> avro_schema option \<Rightarrow>
      bytes \<Rightarrow> nat \<Rightarrow> avro_schema \<Rightarrow> ('s, int) prog) option"
  cb_insert_row :: "(u64 \<Rightarrow> Oid \<Rightarrow> bytes option \<Rightarrow> avro_val option \<Rightarrow>
      bytes \<Rightarrow> avro_val \<Rightarrow> ('s, int) prog) option"
  cb_update_row :: "(u64 \<Rightarrow> Oid \<Rightarrow> bytes option \<Rightarrow> avro_val option \<Rightarrow>
      bytes option \<Rightarrow> avro_val option \<Rightarrow> bytes \<Rightarrow> avro_val \<Rightarrow> ('s, int) prog) option"
  cb_delete_row :: "(u64 \<Rightarrow> Oid \<Rightarrow> bytes option \<Rightarrow> avro_val option \<Rightarrow>
      bytes option \<Rightarrow> avro_val option \<Rightarrow> ('s, int) prog) option"

text \<open>\<open>if (reader->on_x) check(err, reader->on_x(...))\<close>\<close>

definition call_back :: "'f option \<Rightarrow> ('f \<Rightarrow> ('s, int) prog) \<Rightarrow> ('s, int) prog" where
  "call_back f app s = (case f of None \<Rightarrow> Ret 0 s | Some g \<Rightarrow> check (app g s) (Ret 0))"

section \<open>The schema list\<close>

definition blank_entry :: schema_list_entry where
  "blank_entry = \<lparr> relid = 0, key_schema = Null, row_schema = Null, key_iface = Null,
     row_iface = Null, key_value = Null, row_value = Null, old_value = Null, avro_reader = Null \<rparr>"

definition frame_reader_new :: "('z avro_io_scheme) \<Rightarrow> frame_reader option" where
  "frame_reader_new A = (case schema_for_frame of
     None \<Rightarrow> None
   | Some schema \<Rightarrow>
       Some \<lparr> num_schemas = 0, capacity = 16, schemas = [],
              frame_value = snd (avro_generic_value_new A schema),
              reader_refs = Valid () \<rparr>)"

text \<open>
  \<open>schema_list_lookup\<close> compares an \<open>Oid\<close> field with a 64-bit relid; its result, a pointer to an
  entry, is the index of the entry.
\<close>

fun schema_list_find :: "schema_list_entry list \<Rightarrow> nat \<Rightarrow> u64 \<Rightarrow> nat option" where
  "schema_list_find [] i rid = None"
| "schema_list_find (entry # rest) i rid =
     (if ucast (relid entry) = rid then Some i else schema_list_find rest (Suc i) rid)"

definition schema_list_lookup :: "('z frame_reader_scheme) \<Rightarrow> u64 \<Rightarrow> nat option" where
  "schema_list_lookup reader rid = schema_list_find (take (num_schemas reader) (schemas reader)) 0 rid"

definition schema_list_entry_new :: "('z frame_reader_scheme) \<Rightarrow> nat \<times> ('z frame_reader_scheme)" where
  "schema_list_entry_new reader =
     (let reader = (if num_schemas reader = capacity reader
                    then reader\<lparr>capacity := capacity reader * 4\<rparr> else reader)
      in (num_schemas reader,
          reader\<lparr>schemas := schemas reader @ [blank_entry], num_schemas := num_schemas reader + 1\<rparr>))"

text \<open>
  \<open>schema_list_entry_decrefs\<close> releases every reference of an entry and leaves the pointers in
  place; \<open>None\<close> is undefined behaviour.
\<close>

definition schema_list_entry_decrefs :: "schema_list_entry \<Rightarrow> schema_list_entry option" where
  "schema_list_entry_decrefs entry =
     Option.bind (release (avro_reader entry)) (\<lambda>ar.
     Option.bind (release (old_value entry)) (\<lambda>ov.
     Option.bind (release (row_value entry)) (\<lambda>rv.
     Option.bind (release (row_iface entry)) (\<lambda>ri.
     Option.bind (release (row_schema entry)) (\<lambda>rs.
       let entry = entry\<lparr>avro_reader := ar, old_value := ov, row_value := rv, row_iface := ri,
                         row_schema := rs\<rparr>
       in if key_schema entry = Null then Some entry
          else Option.bind (release (key_value entry)) (\<lambda>kv.
               Option.bind (release (key_iface entry)) (\<lambda>ki.
               Option.bind (release (key_schema entry)) (\<lambda>ks.
                 Some (entry\<lparr>key_value := kv, key_iface := ki, key_schema := ks\<rparr>)))))))))"

definition schema_list_replace ::
  "u64 \<Rightarrow> ('z frame_reader_scheme, nat) prog" where
  "schema_list_replace rid reader = (case schema_list_lookup reader rid of
     Some i \<Rightarrow> (case schema_list_entry_decrefs (schemas reader ! i) of
         None \<Rightarrow> Undef
       | Some entry \<Rightarrow> Ret i (reader\<lparr>schemas := (schemas reader)[i := entry]\<rparr>))
   | None \<Rightarrow> (let (i, reader) = schema_list_entry_new reader in Ret i reader))"

fun decref_entries :: "schema_list_entry list \<Rightarrow> schema_list_entry list option" where
  "decref_entries [] = Some []"
| "decref_entries (e # es) = Option.bind (schema_list_entry_decrefs e) (\<lambda>e'.
     Option.bind (decref_entries es) (\<lambda>es'. Some (e' # es')))"

definition frame_reader_free :: "('z frame_reader_scheme, unit) prog" where
  "frame_reader_free reader = (case release (reader_refs reader) of
     None \<Rightarrow> Undef
   | Some refs \<Rightarrow> (case decref_entries (take (num_schemas reader) (schemas reader)) of
       None \<Rightarrow> Undef
     | Some es \<Rightarrow> Ret () (reader\<lparr>reader_refs := refs, schemas := es\<rparr>)))"

section \<open>Reading values\<close>

definition read_entirely :: "('z avro_io_scheme) \<Rightarrow> avro_val \<Rightarrow> bytes \<Rightarrow> int \<times> avro_val" where
  "read_entirely A val buf =
     (case avro_value_read A buf val of (err, rest, val') \<Rightarrow>
        if err \<noteq> 0 then (err, val')
        else if fst (avro_skip A rest 1) \<noteq> ENOSPC then (EINVAL, val')
        else (0, val'))"

text \<open>The value of an entry that a row message is decoded into.\<close>

datatype entry_field = KeyValue | RowValue | OldValue

fun get_field :: "entry_field \<Rightarrow> schema_list_entry \<Rightarrow> avro_val ptr" where
  "get_field KeyValue e = key_value e"
| "get_field RowValue e = row_value e"
| "get_field OldValue e = old_value e"

fun set_field :: "entry_field \<Rightarrow> avro_val \<Rightarrow> schema_list_entry \<Rightarrow> schema_list_entry" where
  "set_field KeyValue v e = e\<lparr>key_value := Valid v\<rparr>"
| "set_field RowValue v e = e\<lparr>row_value := Valid v\<rparr>"
| "set_field OldValue v e = e\<lparr>old_value := Valid v\<rparr>"

text \<open>\<open>read_entirely(&entry->field, entry->avro_reader, bin, len)\<close> on entry number \<open>i\<close>.\<close>

definition read_entry :: "('z avro_io_scheme) \<Rightarrow> entry_field \<Rightarrow> nat \<Rightarrow> bytes \<Rightarrow>
    ('y frame_reader_scheme, int) prog" where
  "read_entry A f i bin s =
     (let entry = schemas s ! i in
      case (get_field f entry, avro_reader entry) of
        (Valid v, Valid _) \<Rightarrow>
          (case read_entirely A v bin of (err, v') \<Rightarrow>
             Ret err (s\<lparr>schemas := (schemas s)[i := set_field f v' entry]\<rparr>))
      | _ \<Rightarrow> Undef)"

text \<open>The block \<open>if (present) { ...get_current_branch; get_bytes; read_entirely }\<close>.\<close>

definition read_nullable :: "('z avro_io_scheme) \<Rightarrow> entry_field \<Rightarrow> nat \<Rightarrow> vpos \<Rightarrow> int \<Rightarrow>
    (bytes option \<Rightarrow> ('y frame_reader_scheme, int) prog) \<Rightarrow> ('y frame_reader_scheme, int) prog" where
  "read_nullable A f i pos present k s =
     (if present \<noteq> 0 then
        check_get (avro_value_get_current_branch A (frame_value s) pos) (\<lambda>branch_val.
        check_get (avro_value_get_bytes A (frame_value s) branch_val) (\<lambda>bin s.
        check (read_entry A f i bin s) (k (Some bin)))) s
      else k None s)"

text \<open>\<open>bin ? &entry->field : NULL\<close>\<close>

definition field_arg :: "entry_field \<Rightarrow> nat \<Rightarrow> bytes option \<Rightarrow> ('y frame_reader_scheme) \<Rightarrow> avro_val option" where
  "field_arg f i bin s = (case (bin, get_field f (schemas s ! i)) of
     (Some _, Valid v) \<Rightarrow> Some v | _ \<Rightarrow> None)"

definition row_arg :: "nat \<Rightarrow> ('y frame_reader_scheme) \<Rightarrow> avro_val" where
  "row_arg i s = (case row_value (schemas s ! i) of Valid v \<Rightarrow> v | _ \<Rightarrow> VNull)"

section \<open>Processing the messages of a frame\<close>

definition process_frame_begin_txn :: "('z avro_io_scheme) \<Rightarrow> ('y frame_reader_scheme) callbacks \<Rightarrow>
    vpos \<Rightarrow> u64 \<Rightarrow> ('y frame_reader_scheme, int) prog" where
  "process_frame_begin_txn A cb record_val wal_pos s =
     (let v = frame_value s in
      check_get (avro_value_get_by_index A v record_val 0) (\<lambda>xid_val.
      check_get (avro_value_get_long A v xid_val) (\<lambda>xid.
      call_back (cb_begin_txn cb) (\<lambda>f. f wal_pos (ucast xid)))) s)"

definition process_frame_commit_txn :: "('z avro_io_scheme) \<Rightarrow> ('y frame_reader_scheme) callbacks \<Rightarrow>
    vpos \<Rightarrow> u64 \<Rightarrow> ('y frame_reader_scheme, int) prog" where
  "process_frame_commit_txn A cb record_val wal_pos s =
     (let v = frame_value s in
      check_get (avro_value_get_by_index A v record_val 0) (\<lambda>xid_val.
      check_get (avro_value_get_long A v xid_val) (\<lambda>xid.
      call_back (cb_commit_txn cb) (\<lambda>f. f wal_pos (ucast xid)))) s)"

text \<open>Filling an entry: the row part before the key schema is looked at, the key part after it.\<close>

definition entry_set_row :: "('z avro_io_scheme) \<Rightarrow> u64 \<Rightarrow> avro_schema \<Rightarrow> schema_list_entry \<Rightarrow> schema_list_entry" where
  "entry_set_row A rid schema e = e\<lparr>relid := ucast rid, row_schema := Valid schema,
     row_iface := Valid schema, row_value := Valid (snd (avro_generic_value_new A schema)),
     old_value := Valid (snd (avro_generic_value_new A schema)), avro_reader := Valid ()\<rparr>"

definition entry_set_key :: "('z avro_io_scheme) \<Rightarrow> avro_schema \<Rightarrow> schema_list_entry \<Rightarrow> schema_list_entry" where
  "entry_set_key A schema e = e\<lparr>key_schema := Valid schema, key_iface := Valid schema,
     key_value := Valid (snd (avro_generic_value_new A schema))\<rparr>"

definition upd_entry :: "nat \<Rightarrow> (schema_list_entry \<Rightarrow> schema_list_entry) \<Rightarrow>
    ('y frame_reader_scheme) \<Rightarrow> ('y frame_reader_scheme)" where
  "upd_entry i f s = s\<lparr>schemas := (schemas s)[i := f (schemas s ! i)]\<rparr>"

definition process_frame_table_schema :: "('z avro_io_scheme) \<Rightarrow> ('y frame_reader_scheme) callbacks \<Rightarrow>
    vpos \<Rightarrow> u64 \<Rightarrow> ('y frame_reader_scheme, int) prog" where
  "process_frame_table_schema A cb record_val wal_pos s =
     (let v = frame_value s in
      check_get (avro_value_get_by_index A v record_val 0) (\<lambda>relid_val.
      check_get (avro_value_get_by_index A v record_val 1) (\<lambda>key_schema_val.
      check_get (avro_value_get_by_index A v record_val 2) (\<lambda>row_schema_val.
      check_get (avro_value_get_long A v relid_val) (\<lambda>rid.
      check_get (avro_value_get_discriminant A v key_schema_val) (\<lambda>key_schema_present.
      check_get (avro_value_get_string A v row_schema_val) (\<lambda>(row_schema_json, row_schema_len).
      check_get (avro_schema_from_json_length A row_schema_json (row_schema_len - 1)) (\<lambda>rschema s.
      andthen (schema_list_replace rid s) (\<lambda>i s.
        let s = upd_entry i (entry_set_row A rid rschema) s in
        if key_schema_present \<noteq> 0 then
          check_get (avro_value_get_current_branch A v key_schema_val) (\<lambda>branch_val.
          check_get (avro_value_get_string A v branch_val) (\<lambda>(key_schema_json, key_schema_len).
          check_get (avro_schema_from_json_length A key_schema_json (key_schema_len - 1)) (\<lambda>kschema s.
          call_back (cb_table_schema cb) (\<lambda>f. f wal_pos (ucast rid)
             (Some key_schema_json) (key_schema_len - 1) (Some kschema)
             row_schema_json (row_schema_len - 1) rschema)
            (upd_entry i (entry_set_key A kschema) s)))) s
        else
          call_back (cb_table_schema cb) (\<lambda>f. f wal_pos (ucast rid) None 0 None
             row_schema_json (row_schema_len - 1) rschema)
            (upd_entry i (\<lambda>e. e\<lparr>key_schema := Null\<rparr>) s))))))))) s)"

definition process_frame_insert :: "('z avro_io_scheme) \<Rightarrow> ('y frame_reader_scheme) callbacks \<Rightarrow>
    vpos \<Rightarrow> u64 \<Rightarrow> ('y frame_reader_scheme, int) prog" where
  "process_frame_insert A cb record_val wal_pos s =
     (let v = frame_value s in
      check_get (avro_value_get_by_index A v record_val 0) (\<lambda>relid_val.
      check_get (avro_value_get_by_index A v record_val 1) (\<lambda>key_val.
      check_get (avro_value_get_by_index A v record_val 2) (\<lambda>new_val.
      check_get (avro_value_get_long A v relid_val) (\<lambda>rid.
      check_get (avro_value_get_discriminant A v key_val) (\<lambda>key_present.
      check_get (avro_value_get_bytes A v new_val) (\<lambda>new_bin s.
      case schema_list_lookup s rid of
        None \<Rightarrow> Ret EINVAL s
      | Some i \<Rightarrow>
          read_nullable A KeyValue i key_val key_present (\<lambda>key_bin s.
          check (read_entry A RowValue i new_bin s) (\<lambda>s.
          call_back (cb_insert_row cb) (\<lambda>f. f wal_pos (ucast rid)
             key_bin (field_arg KeyValue i key_bin s) new_bin (row_arg i s)) s)) s)))))) s)"

definition process_frame_update :: "('z avro_io_scheme) \<Rightarrow> ('y frame_reader_scheme) callbacks \<Rightarrow>
    vpos \<Rightarrow> u64 \<Rightarrow> ('y frame_reader_scheme, int) prog" where
  "process_frame_update A cb record_val wal_pos s =
     (let v = frame_value s in
      check_get (avro_value_get_by_index A v record_val 0) (\<lambda>relid_val.
      check_get (avro_value_get_by_index A v record_val 1) (\<lambda>key_val.
      check_get (avro_value_get_by_index A v record_val 2) (\<lambda>old_val.
      check_get (avro_value_get_by_index A v record_val 3) (\<lambda>new_val.
      check_get (avro_value_get_long A v relid_val) (\<lambda>rid.
      check_get (avro_value_get_discriminant A v key_val) (\<lambda>key_present.
      check_get (avro_value_get_discriminant A v old_val) (\<lambda>old_present.
      check_get (avro_value_get_bytes A v new_val) (\<lambda>new_bin s.
      case schema_list_lookup s rid of
        None \<Rightarrow> Ret EINVAL s
      | Some i \<Rightarrow>
          read_nullable A KeyValue i key_val key_present (\<lambda>key_bin.
          read_nullable A OldValue i old_val old_present (\<lambda>old_bin s.
          check (read_entry A RowValue i new_bin s) (\<lambda>s.
          call_back (cb_update_row cb) (\<lambda>f. f wal_pos (ucast rid)
             key_bin (field_arg KeyValue i key_bin s) old_bin (field_arg OldValue i old_bin s)
             new_bin (row_arg i s)) s))) s)))))))) s)"

definition process_frame_delete :: "('z avro_io_scheme) \<Rightarrow> ('y frame_reader_scheme) callbacks \<Rightarrow>
    vpos \<Rightarrow> u64 \<Rightarrow> ('y frame_reader_scheme, int) prog" where
  "process_frame_delete A cb record_val wal_pos s =
     (let v = frame_value s in
      check_get (avro_value_get_by_index A v record_val 0) (\<lambda>relid_val.
      check_get (avro_value_get_by_index A v record_val 1) (\<lambda>key_val.
      check_get (avro_value_get_by_index A v record_val 2) (\<lambda>old_val.
      check_get (avro_value_get_long A v relid_val) (\<lambda>rid.
      check_get (avro_value_get_discriminant A v key_val) (\<lambda>key_present.
      check_get (avro_value_get_discriminant A v old_val) (\<lambda>old_present s.
      case schema_list_lookup s rid of
        None \<Rightarrow> Ret EINVAL s
      | Some i \<Rightarrow>
          read_nullable A KeyValue i key_val key_present (\<lambda>key_bin.
          read_nullable A OldValue i old_val old_present (\<lambda>old_bin s.
          call_back (cb_delete_row cb) (\<lambda>f. f wal_pos (ucast rid)
             key_bin (field_arg KeyValue i key_bin s) old_bin (field_arg OldValue i old_bin s)) s)) s)))))) s)"

text \<open>The body of the loop of \<open>process_frame\<close> for message number \<open>i\<close>.\<close>

definition process_message :: "('z avro_io_scheme) \<Rightarrow> ('y frame_reader_scheme) callbacks \<Rightarrow>
    vpos \<Rightarrow> u64 \<Rightarrow> nat \<Rightarrow> ('y frame_reader_scheme, int) prog" where
  "process_message A cb msg_val wal_pos i s =
     (let v = frame_value s in
      check_get (avro_value_get_by_index A v msg_val i) (\<lambda>union_val.
      check_get (avro_value_get_discriminant A v union_val) (\<lambda>msg_type.
      check_get (avro_value_get_current_branch A v union_val) (\<lambda>record_val s.
        if msg_type = int PROTOCOL_MSG_BEGIN_TXN then process_frame_begin_txn A cb record_val wal_pos s
        else if msg_type = int PROTOCOL_MSG_COMMIT_TXN then process_frame_commit_txn A cb record_val wal_pos s
        else if msg_type = int PROTOCOL_MSG_TABLE_SCHEMA then process_frame_table_schema A cb record_val wal_pos s
        else if msg_type = int PROTOCOL_MSG_INSERT then process_frame_insert A cb record_val wal_pos s
        else if msg_type = int PROTOCOL_MSG_UPDATE then process_frame_update A cb record_val wal_pos s
        else if msg_type = int PROTOCOL_MSG_DELETE then process_frame_delete A cb record_val wal_pos s
        else Ret EINVAL s))) s)"

fun process_messages :: "('z avro_io_scheme) \<Rightarrow> ('y frame_reader_scheme) callbacks \<Rightarrow>
    vpos \<Rightarrow> u64 \<Rightarrow> nat list \<Rightarrow> ('y frame_reader_scheme, int) prog" where
  "process_messages A cb msg_val wal_pos [] s = Ret 0 s"
| "process_messages A cb msg_val wal_pos (i # is) s =
     check (process_message A cb msg_val wal_pos i s) (process_messages A cb msg_val wal_pos is)"

definition process_frame :: "('z avro_io_scheme) \<Rightarrow> ('y frame_reader_scheme) callbacks \<Rightarrow>
    u64 \<Rightarrow> ('y frame_reader_scheme, int) prog" where
  "process_frame A cb wal_pos s =
     check_get (avro_value_get_by_index A (frame_value s) [] 0) (\<lambda>msg_val.
     check_get (avro_value_get_size A (frame_value s) msg_val) (\<lambda>num_messages.
     process_messages A cb msg_val wal_pos [0..<num_messages])) s"

definition parse_frame :: "('z avro_io_scheme) \<Rightarrow> ('y frame_reader_scheme) callbacks \<Rightarrow>
    u64 \<Rightarrow> bytes \<Rightarrow> ('y frame_reader_scheme, int) prog" where
  "parse_frame A cb wal_pos buf s =
     (case read_entirely A (frame_value s) buf of (err, v) \<Rightarrow>
        if err \<noteq> 0 then Ret err (s\<lparr>frame_value := v\<rparr>)
        else check (process_frame A cb wal_pos (s\<lparr>frame_value := v\<rparr>)) (Ret 0))"

section \<open>The schema list as a table of relids\<close>

text \<open>A new entry gets its relid from \<open>process_frame_table_schema\<close>.\<close>

definition schema_list_add :: "Oid \<Rightarrow> ('z frame_reader_scheme) \<Rightarrow> nat \<times> ('z frame_reader_scheme)" where
  "schema_list_add rid reader =
     (let (i, reader) = schema_list_entry_new reader in (i, upd_entry i (\<lambda>e. e\<lparr>relid := rid\<rparr>) reader))"

lemma ucast_relid_eq [simp]: "(ucast (x :: Oid) :: u64) = ucast y \<longleftrightarrow> x = y"
  by (metis ucast_32_64)

lemma schema_list_find_Some:
  "schema_list_find es j (ucast r) = Some i \<Longrightarrow> j \<le> i \<and> i - j < length es \<and> relid (es ! (i - j)) = r"
  by (induction es arbitrary: j) (fastforce simp: nth_Cons' split: if_splits)+

lemma schema_list_find_None: "schema_list_find es j (ucast r) = None \<Longrightarrow> r \<notin> relid ` set es"
  by (induction es arbitrary: j) (auto split: if_splits)

interpretation sl: relid_table relid schemas num_schemas capacity
  "\<lambda>reader rid. schema_list_lookup reader (ucast rid)" schema_list_add
proof unfold_locales
  fix t :: "'z frame_reader_scheme" and k i
  assume t: "num_schemas t = length (schemas t)"
  show "i < length (schemas t) \<and> relid (schemas t ! i) = k" if "schema_list_lookup t (ucast k) = Some i"
    using schema_list_find_Some [of "schemas t" 0 k i] that t by (simp add: schema_list_lookup_def)
  show "k \<notin> relid ` set (schemas t)" if "schema_list_lookup t (ucast k) = None"
    using schema_list_find_None [of "schemas t" 0 k] that t by (simp add: schema_list_lookup_def)
qed (auto simp: schema_list_add_def schema_list_entry_new_def upd_entry_def Let_def)

end
