(* ===== verification/Replication.thy ===== *)
theory Replication
  imports Libpq Protocol_Client
begin

text \<open>
  The client of the logical replication protocol, \<open>client/replication.c\<close>: creating and dropping
  the slot, starting the stream, the messages received from the server and the status updates
  sent back to it.

  Times are \<open>int\<close>: an \<open>int64\<close> count of microseconds holds any date of the system clock.
\<close>

section \<open>State\<close>

record 'w replication_stream = frame_reader +
  slot_name :: "string option"
  output_plugin :: "string option"
  snapshot_name :: "string option"
  repl_conn :: "conn option"
  start_lsn :: XLogRecPtr
  recvd_lsn :: XLogRecPtr
  fsync_lsn :: XLogRecPtr
  last_checkpoint :: int
  repl_status :: int
  repl_errbuf :: errmsg
  world :: 'w

definition repl_error :: "string \<Rightarrow> farg list \<Rightarrow> ('w, 'z) replication_stream_scheme \<Rightarrow>
    ('w, 'z) replication_stream_scheme" where
  "repl_error fmt args stream = stream\<lparr>repl_errbuf := (fmt, args)\<rparr>"

text \<open>\<open>repl_error(...); return err;\<close>\<close>

definition repl_fail :: "int \<Rightarrow> string \<Rightarrow> farg list \<Rightarrow> (('w, 'z) replication_stream_scheme, int) prog" where
  "repl_fail err fmt args stream = Ret err (repl_error fmt args stream)"

section \<open>Byte order\<close>

definition sendint64 :: "u64 \<Rightarrow> bytes" where
  "sendint64 i64 = be32_put (ucast (drop_bit 32 i64)) @ be32_put (ucast i64)"

definition recvint64 :: "bytes \<Rightarrow> u64" where
  "recvint64 buf =
     (let h32 = be32_get (take 4 buf);
          l32 = be32_get (take 4 (drop 4 buf));
          result = ucast h32;
          result = push_bit 32 result
      in result OR ucast l32)"

lemma length_sendint64 [simp]: "length (sendint64 x) = 8"
  by (simp add: sendint64_def)

lemma recv_send: "recvint64 (sendint64 x @ rest) = x"
proof -
  have "take 4 (be32_put a @ bs) = be32_put a" "drop 4 (be32_put a @ bs) = bs" for a bs by simp_all
  then show ?thesis
    using be32_get_put [of "ucast (drop_bit 32 x)" "[]"] be32_get_put [of "ucast x" "[]"]
    by (simp add: sendint64_def recvint64_def Let_def join_halves)
qed

section \<open>The slot and the stream\<close>

definition create_slot_query :: "string \<Rightarrow> string \<Rightarrow> string" where
  "create_slot_query slot plugin =
     ''CREATE_REPLICATION_SLOT \"'' @ slot @ ''\" LOGICAL \"'' @ plugin @ ''\"''"

definition replication_slot_create :: "'w pq_ops \<Rightarrow> (('w, 'z) replication_stream_scheme, int) prog" where
  "replication_slot_create L stream =
     (if \<not> nonempty_cstr (slot_name stream) then
        repl_fail EINVAL ''slot_name must be set in replication stream'' [] stream
      else if \<not> nonempty_cstr (output_plugin stream) then
        repl_fail EINVAL ''output_plugin must be set in replication stream'' [] stream
      else
        let query = create_slot_query (the (slot_name stream)) (the (output_plugin stream));
            (res, w) = PQexec L (repl_conn stream) query (world stream);
            stream = stream\<lparr>world := w\<rparr>
        in if PQresultStatus res \<noteq> PGRES_TUPLES_OK then
             repl_fail EIO ''Command failed: %s: %s''
               [FStr query, FStr (PQerrorMessage L (repl_conn stream) w)] stream
           else if PQntuples res \<noteq> 1 \<or> PQnfields res \<noteq> 4 then
             repl_fail EIO ''Unexpected CREATE_REPLICATION_SLOT result (%d rows, %d fields)''
               [FInt (int (PQntuples res)), FInt (int (PQnfields res))] stream
           else if PQgetisnull res 0 1 \<or> PQgetisnull res 0 2 then
             repl_fail EIO ''Unexpected null value in CREATE_REPLICATION_SLOT response'' [] stream
           else (case sscanf_lsn (cstr_of (PQgetvalue res 0 1)) of
               None \<Rightarrow> repl_fail EIO ''Could not parse LSN: \"%s\"''
                 [FStr (cstr_of (PQgetvalue res 0 1))] stream
             | Some lsn \<Rightarrow>
                 Ret 0 (stream\<lparr>start_lsn := lsn,
                          snapshot_name := Some (cstr_of (PQgetvalue res 0 2))\<rparr>)))"

text \<open>\<open>printf\<close> of a null string, which glibc shows as \<open>(null)\<close>.\<close>

definition cstr_arg :: "string option \<Rightarrow> string" where
  "cstr_arg s = (case s of None \<Rightarrow> ''(null)'' | Some cs \<Rightarrow> cs)"

definition drop_slot_query :: "string \<Rightarrow> string" where
  "drop_slot_query slot = ''DROP_REPLICATION_SLOT \"'' @ slot @ ''\"''"

definition replication_slot_drop :: "'w pq_ops \<Rightarrow> (('w, 'z) replication_stream_scheme, int) prog" where
  "replication_slot_drop L stream =
     (let query = drop_slot_query (cstr_arg (slot_name stream));
          (res, w) = PQexec L (repl_conn stream) query (world stream);
          stream = stream\<lparr>world := w\<rparr>
      in if PQresultStatus res \<noteq> PGRES_COMMAND_OK then
           repl_fail EIO ''Command failed: %s: %s''
             [FStr query, FStr (PQerrorMessage L (repl_conn stream) w)] stream
         else Ret 0 stream)"

definition replication_stream_check :: "'w pq_ops \<Rightarrow> (('w, 'z) replication_stream_scheme, int) prog" where
  "replication_stream_check L stream =
     (let (res, w) = PQexec L (repl_conn stream) ''IDENTIFY_SYSTEM'' (world stream);
          stream = stream\<lparr>world := w\<rparr>
      in if PQresultStatus res \<noteq> PGRES_TUPLES_OK then
           repl_fail EIO ''IDENTIFY_SYSTEM failed: %s''
             [FStr (PQerrorMessage L (repl_conn stream) w)] stream
         else if PQntuples res \<noteq> 1 \<or> PQnfields res < 4 then
           repl_fail EIO ''Unexpected IDENTIFY_SYSTEM result (%d rows, %d fields).''
             [FInt (int (PQntuples res)), FInt (int (PQnfields res))] stream
         else if PQgetisnull res 0 3 then
           repl_fail EIO ''Not using a database-specific replication connection.'' [] stream
         else Ret 0 stream)"

definition start_query :: "string \<Rightarrow> XLogRecPtr \<Rightarrow> string" where
  "start_query slot lsn =
     ''START_REPLICATION SLOT \"'' @ slot @ ''\" LOGICAL '' @ format_lsn lsn"

definition replication_stream_start :: "'w pq_ops \<Rightarrow> (('w, 'z) replication_stream_scheme, int) prog" where
  "replication_stream_start L stream =
     (let query = start_query (cstr_arg (slot_name stream)) (start_lsn stream);
          (res, w) = PQexec L (repl_conn stream) query (world stream);
          stream = stream\<lparr>world := w\<rparr>
      in if PQresultStatus res \<noteq> PGRES_COPY_BOTH then
           repl_fail EIO ''Could not send replication command \"%s\": %s''
             [FStr query, FStr (PQresultErrorMessage res)] stream
         else Ret 0 stream)"

definition replication_stream_finish :: "'w pq_ops \<Rightarrow> (('w, 'z) replication_stream_scheme, int) prog" where
  "replication_stream_finish L stream =
     (let (res, w) = PQgetResult L (repl_conn stream) (world stream);
          stream = stream\<lparr>world := w\<rparr>;
          status = (case res of None \<Rightarrow> PGRES_FATAL_ERROR | Some r \<Rightarrow> PQresultStatus r)
      in if status \<noteq> PGRES_COMMAND_OK then
           repl_fail EIO ''Replication stream was unexpectedly terminated: %s''
             [FStr (case res of None \<Rightarrow> [] | Some r \<Rightarrow> PQresultErrorMessage r)] stream
         else Ret 0 stream)"

section \<open>Status updates\<close>

abbreviation (input) USECS_PER_SEC :: int where "USECS_PER_SEC \<equiv> 1000000"
abbreviation (input) CHECKPOINT_INTERVAL_SEC :: int where "CHECKPOINT_INTERVAL_SEC \<equiv> 10"
abbreviation (input) POSTGRES_EPOCH_JDATE :: int where "POSTGRES_EPOCH_JDATE \<equiv> 2451545"
abbreviation (input) UNIX_EPOCH_JDATE :: int where "UNIX_EPOCH_JDATE \<equiv> 2440588"
abbreviation (input) SECS_PER_DAY :: int where "SECS_PER_DAY \<equiv> 86400"

definition current_time :: "'w pq_ops \<Rightarrow> 'w \<Rightarrow> int \<times> 'w" where
  "current_time L w =
     (let ((tv_sec, tv_usec), w) = gettimeofday L w;
          timestamp = tv_sec - ((POSTGRES_EPOCH_JDATE - UNIX_EPOCH_JDATE) * SECS_PER_DAY);
          timestamp = (timestamp * USECS_PER_SEC) + tv_usec
      in (timestamp, w))"

definition checkpoint_message :: "XLogRecPtr \<Rightarrow> XLogRecPtr \<Rightarrow> int \<Rightarrow> bytes" where
  "checkpoint_message recvd fsync now =
     [word_of_nat (of_char (CHR ''r''))] @ sendint64 recvd @ sendint64 fsync @
     sendint64 InvalidXLogRecPtr @ sendint64 (word_of_int now) @ [0]"

definition send_checkpoint :: "'w pq_ops \<Rightarrow> int \<Rightarrow> (('w, 'z) replication_stream_scheme, int) prog" where
  "send_checkpoint L now stream =
     (let buf = checkpoint_message (recvd_lsn stream) (fsync_lsn stream) now;
          (put, w) = PQputCopyData L (repl_conn stream) buf (world stream);
          (flushed, w) = (if put \<le> 0 then (0, w) else PQflush L (repl_conn stream) w);
          stream = stream\<lparr>world := w\<rparr>
      in if put \<le> 0 \<or> flushed \<noteq> 0 then
           repl_fail EIO ''Could not send checkpoint to server: %s''
             [FStr (PQerrorMessage L (repl_conn stream) w)] stream
         else Ret 0 (stream\<lparr>last_checkpoint := now\<rparr>))"

definition replication_stream_keepalive :: "'w pq_ops \<Rightarrow> (('w, 'z) replication_stream_scheme, int) prog" where
  "replication_stream_keepalive L stream =
     (if recvd_lsn stream \<noteq> InvalidXLogRecPtr then
        let (now, w) = current_time L (world stream);
            stream = stream\<lparr>world := w\<rparr>
        in if now - last_checkpoint stream > CHECKPOINT_INTERVAL_SEC * USECS_PER_SEC
           then send_checkpoint L now stream
           else Ret 0 stream
      else Ret 0 stream)"

section \<open>Messages from the server\<close>

definition parse_keepalive_message :: "'w pq_ops \<Rightarrow> bytes \<Rightarrow> (('w, 'z) replication_stream_scheme, int) prog" where
  "parse_keepalive_message L buf stream =
     (if length buf < 1 + 8 + 8 + 1 then
        repl_fail EIO ''Keepalive message too small: %d bytes'' [FInt (int (length buf))] stream
      else
        let wal_pos = recvint64 (drop 1 buf);
            reply_requested = buf ! 17 \<noteq> 0;
            stream = stream\<lparr>recvd_lsn := max wal_pos (recvd_lsn stream)\<rparr>
        in if reply_requested then
             let (now, w) = current_time L (world stream) in send_checkpoint L now (stream\<lparr>world := w\<rparr>)
           else Ret 0 stream)"

text \<open>
  \<open>avro_strerror\<close> is the last message of the Avro library, whose text is not modelled; the error
  buffer records the empty string for it.
\<close>

definition parse_xlogdata_message :: "('y avro_io_scheme) \<Rightarrow> (('w, 'z) replication_stream_scheme) callbacks \<Rightarrow>
    bytes \<Rightarrow> (('w, 'z) replication_stream_scheme, int) prog" where
  "parse_xlogdata_message A cb buf stream =
     (let hdrlen = 1 + 8 + 8 + 8 in
      if length buf < hdrlen + 1 then
        repl_fail EIO ''XLogData header too small: %d bytes'' [FInt (int (length buf))] stream
      else
        let wal_pos = recvint64 (drop 1 buf) in
        andthen (parse_frame A cb wal_pos (drop hdrlen buf) stream) (\<lambda>err stream.
          let stream = (if err \<noteq> 0 then repl_error ''Error parsing frame data: %s'' [FStr []] stream
                        else stream)
          in Ret err (stream\<lparr>recvd_lsn := max wal_pos (recvd_lsn stream)\<rparr>)))"

definition replication_stream_poll :: "('y avro_io_scheme) \<Rightarrow> 'w pq_ops \<Rightarrow>
    (('w, 'z) replication_stream_scheme) callbacks \<Rightarrow> (('w, 'z) replication_stream_scheme, int) prog" where
  "replication_stream_poll A L cb stream =
     (let (ret, buf, w) = PQgetCopyData L (repl_conn stream) (world stream);
          stream = stream\<lparr>world := w\<rparr>
      in if ret < 0 then
           andthen (if ret = -1 then replication_stream_finish L stream
                    else repl_fail EIO ''Could not read from replication stream: %s''
                           [FStr (PQerrorMessage L (repl_conn stream) w)] stream)
             (\<lambda>err stream. Ret err (stream\<lparr>repl_status := ret\<rparr>))
         else if ret > 0 then
           let stream = stream\<lparr>repl_status := 1\<rparr>;
               buf = take (nat ret) buf
           in andthen (case buf of
                  c # _ \<Rightarrow>
                    if c = word_of_nat (of_char (CHR ''k'')) then parse_keepalive_message L buf stream
                    else if c = word_of_nat (of_char (CHR ''w'')) then parse_xlogdata_message A cb buf stream
                    else repl_fail EIO ''Unknown streaming message type: \"%c\"'' [FInt (uint c)] stream
                | [] \<Rightarrow> Undef)
                (\<lambda>err stream. if err = 0 then replication_stream_keepalive L stream else Ret err stream)
         else replication_stream_keepalive L (stream\<lparr>repl_status := 0\<rparr>))"

section \<open>What status updates change\<close>

definition status_sent :: "('w, 'z) replication_stream_scheme \<Rightarrow> ('w, 'z) replication_stream_scheme \<Rightarrow> bool" where
  "status_sent s t \<longleftrightarrow> (\<exists>w e c. t = s\<lparr>world := w, repl_errbuf := e, last_checkpoint := c\<rparr>)"

lemma status_sentI:
  "status_sent s s" "status_sent s (s\<lparr>world := w\<rparr>)" "status_sent s (s\<lparr>world := w, repl_errbuf := e\<rparr>)"
  "status_sent s (s\<lparr>world := w, last_checkpoint := c\<rparr>)"
proof -
  have *: "status_sent s (s\<lparr>world := w, repl_errbuf := e, last_checkpoint := c\<rparr>)" for w e c
    unfolding status_sent_def by blast
  show "status_sent s s" using * [of "last_checkpoint s" "repl_errbuf s" "world s"] by simp
  show "status_sent s (s\<lparr>world := w\<rparr>)" using * [of "last_checkpoint s" "repl_errbuf s" w] by simp
  show "status_sent s (s\<lparr>world := w, repl_errbuf := e\<rparr>)" using * [of "last_checkpoint s" e w] by simp
  show "status_sent s (s\<lparr>world := w, last_checkpoint := c\<rparr>)" using * [of c "repl_errbuf s" w] by simp
qed

lemma send_checkpoint_only: "post (\<lambda>_ t. status_sent s t) (send_checkpoint L now s)"
  by (auto simp: send_checkpoint_def Let_def repl_fail_def repl_error_def status_sentI split: prod.split)

lemma keepalive_only: "post (\<lambda>_ t. status_sent s t) (replication_stream_keepalive L s)"
proof -
  have "post (\<lambda>_ t. status_sent s t) (send_checkpoint L now (s\<lparr>world := w\<rparr>))" for now w
    by (rule post_mono [OF send_checkpoint_only]) (auto simp: status_sent_def)
  then show ?thesis
    by (auto simp: replication_stream_keepalive_def Let_def status_sentI split: prod.split)
qed

end
