(* ===== verification/Connect.thy ===== *)
theory Connect
  imports Replication
begin

text \<open>
  The connection to PostgreSQL, \<open>client/connect.c\<close>: two connections (one for SQL and the
  snapshot, one for replication), the decision between snapshot and streaming, and the polling
  of whichever of the two is active.
\<close>

section \<open>State\<close>

record 'w client_context = "'w replication_stream" +
  conninfo :: "string option"
  app_name :: "string option"
  sql_conn :: "conn option"
  allow_unkeyed :: bool
  taking_snapshot :: bool
  client_status :: int
  client_errbuf :: errmsg

definition client_error :: "string \<Rightarrow> farg list \<Rightarrow> ('w, 'z) client_context_scheme \<Rightarrow>
    ('w, 'z) client_context_scheme" where
  "client_error fmt args context = context\<lparr>client_errbuf := (fmt, args)\<rparr>"

definition client_fail :: "int \<Rightarrow> string \<Rightarrow> farg list \<Rightarrow> (('w, 'z) client_context_scheme, int) prog" where
  "client_fail err fmt args context = Ret err (client_error fmt args context)"

text \<open>The macro \<open>checkRepl\<close>: an error of the stream is copied to the context.\<close>

definition checkRepl :: "(('w, 'z) client_context_scheme, int) outcome \<Rightarrow>
    (('w, 'z) client_context_scheme, int) prog \<Rightarrow> (('w, 'z) client_context_scheme, int) outcome" where
  "checkRepl r k = andthen r (\<lambda>err context.
     if err \<noteq> 0 then Ret err (context\<lparr>client_errbuf := repl_errbuf context\<rparr>) else k context)"

section \<open>Operations\<close>

text \<open>
  \<open>db_client_new\<close>: whatever the memory of the structure holds, \<open>memset\<close> sets every field to zero.
  The frame reader is a structure of its own, created by \<open>frame_reader_new\<close>, and the outside world
  is not part of the structure.
\<close>

definition db_client_new :: "('w, 'z) client_context_scheme \<Rightarrow> ('w, 'z) client_context_scheme" where
  "db_client_new context = context\<lparr>slot_name := None, output_plugin := None, snapshot_name := None,
     repl_conn := None, start_lsn := 0, recvd_lsn := 0, fsync_lsn := 0, last_checkpoint := 0,
     repl_status := 0, repl_errbuf := ([], []), conninfo := None, app_name := None, sql_conn := None,
     allow_unkeyed := False, taking_snapshot := False, client_status := 0, client_errbuf := ([], [])\<rparr>"

text \<open>\<open>context->repl.frame_reader = frame_reader\<close>\<close>

definition set_frame_reader :: "frame_reader \<Rightarrow> 'z frame_reader_scheme \<Rightarrow> 'z frame_reader_scheme" where
  "set_frame_reader reader context = context\<lparr>num_schemas := num_schemas reader,
     capacity := capacity reader, schemas := schemas reader, frame_value := frame_value reader,
     reader_refs := reader_refs reader\<rparr>"

definition db_client_free :: "'w pq_ops \<Rightarrow> ('w, 'z) client_context_scheme \<Rightarrow> ('w, 'z) client_context_scheme" where
  "db_client_free L context =
     (let w = (case sql_conn context of Some c \<Rightarrow> PQfinish L c (world context) | None \<Rightarrow> world context);
          w = (case repl_conn context of Some c \<Rightarrow> PQfinish L c w | None \<Rightarrow> w)
      in context\<lparr>world := w\<rparr>)"

definition exec_sql :: "'w pq_ops \<Rightarrow> string \<Rightarrow> (('w, 'z) client_context_scheme, int) prog" where
  "exec_sql L query context =
     (let (res, w) = PQexec L (sql_conn context) query (world context);
          context = context\<lparr>world := w\<rparr>
      in if PQresultStatus res = PGRES_COMMAND_OK then Ret 0 context
         else client_fail EIO ''Query failed: %s: %s''
                [FStr query, FStr (PQerrorMessage L (sql_conn context) w)] context)"

text \<open>The options of the connection string, with those of the replication connection added.\<close>

fun set_options :: "(string \<times> string option) list \<Rightarrow> (string \<times> string) list" where
  "set_options [] = []"
| "set_options ((keyword, val) # opts) = (case val of
     Some v \<Rightarrow> if v \<noteq> [] then (keyword, v) # set_options opts else set_options opts
   | None \<Rightarrow> set_options opts)"

definition client_connect :: "'w pq_ops \<Rightarrow> (('w, 'z) client_context_scheme, int) prog" where
  "client_connect L context =
     (if \<not> nonempty_cstr (conninfo context) then
        client_fail EINVAL ''conninfo must be set in client context'' [] context
      else if \<not> nonempty_cstr (app_name context) then
        client_fail EINVAL ''app_name must be set in client context'' [] context
      else
        let (conn, w) = PQconnectdb L (the (conninfo context)) (world context);
            context = context\<lparr>sql_conn := conn, world := w\<rparr>
        in if \<not> PQstatus_ok L conn w then
             client_fail EIO ''Connection to database failed: %s'' [FStr (PQerrorMessage L conn w)] context
           else (case PQconninfoParse L (the (conninfo context)) of
               Inl err \<Rightarrow> client_fail EIO ''Replication connection info: %s'' [FStr err] context
             | Inr parsed_opts \<Rightarrow>
                 let params = set_options parsed_opts @
                       [(''replication'', ''database''), (''fallback_application_name'', the (app_name context))];
                     (conn, w) = PQconnectdbParams L params (world context);
                     context = context\<lparr>repl_conn := conn, world := w\<rparr>
                 in if \<not> PQstatus_ok L conn w then
                      client_fail EIO ''Replication connection failed: %s'' [FStr (PQerrorMessage L conn w)] context
                    else Ret 0 context))"

definition replication_slot_exists :: "'w pq_ops \<Rightarrow>
    (bool \<Rightarrow> (('w, 'z) client_context_scheme, int) prog) \<Rightarrow> (('w, 'z) client_context_scheme, int) prog" where
  "replication_slot_exists L k context =
     (if \<not> nonempty_cstr (slot_name context) then
        client_fail EINVAL ''repl.slot_name must be set in client context'' [] context
      else
        let (res, w) = PQexecParams L (sql_conn context)
              ''SELECT restart_lsn FROM pg_replication_slots where slot_name = $1''
              [(19, the (slot_name context))] (world context);
            context = context\<lparr>world := w\<rparr>
        in if PQresultStatus res \<noteq> PGRES_TUPLES_OK then
             client_fail EIO ''Could not check for existing replication slot: %s''
               [FStr (PQerrorMessage L (sql_conn context) w)] context
           else if 0 < PQntuples res \<and> \<not> PQgetisnull res 0 0 then
             (case sscanf_lsn (cstr_of (PQgetvalue res 0 0)) of
                None \<Rightarrow> client_fail EIO ''Could not parse restart LSN: \"%s\"''
                  [FStr (cstr_of (PQgetvalue res 0 0))] context
              | Some lsn \<Rightarrow> k True (context\<lparr>start_lsn := lsn\<rparr>))
           else k False context)"

definition snapshot_start :: "'w pq_ops \<Rightarrow> (('w, 'z) client_context_scheme) callbacks \<Rightarrow>
    (('w, 'z) client_context_scheme, int) prog" where
  "snapshot_start L cb context =
     (if \<not> nonempty_cstr (snapshot_name context) then
        client_fail EINVAL ''snapshot_name must be set in client context'' [] context
      else
        check (exec_sql L ''BEGIN'' context) (\<lambda>context.
        check (exec_sql L ''SET TRANSACTION ISOLATION LEVEL REPEATABLE READ'' context) (\<lambda>context.
        check (exec_sql L (''SET TRANSACTION SNAPSHOT '' @ [CHR 0x27] @ the (snapshot_name context) @ [CHR 0x27]) context) (\<lambda>context.
        let (sent, w) = PQsendQueryParams L (sql_conn context)
              ''SELECT bottledwater_export(table_pattern := $1, allow_unkeyed := $2)''
              [(25, ''%''), (16, if allow_unkeyed context then ''t'' else ''f'')] 1 (world context);
            context = context\<lparr>world := w\<rparr>
        in if \<not> sent then
             client_fail EIO ''Could not dispatch snapshot fetch: %s''
               [FStr (PQerrorMessage L (sql_conn context) w)] context
           else
             let (single, w) = PQsetSingleRowMode L (sql_conn context) (world context);
                 context = context\<lparr>world := w\<rparr>
             in if \<not> single then client_fail EIO ''Could not activate single-row mode'' [] context
                else call_back (cb_begin_txn cb) (\<lambda>f. f (start_lsn context) 0) context))))"

definition snapshot_tuple :: "('y avro_io_scheme) \<Rightarrow> (('w, 'z) client_context_scheme) callbacks \<Rightarrow>
    pgresult \<Rightarrow> nat \<Rightarrow> (('w, 'z) client_context_scheme, int) prog" where
  "snapshot_tuple A cb res row_number context =
     (if PQnfields res \<noteq> 1 then
        client_fail EIO ''Unexpected response with %d fields'' [FInt (int (PQnfields res))] context
      else if PQgetisnull res row_number 0 then
        client_fail EIO ''Unexpected null response value'' [] context
      else if PQfformat res 0 \<noteq> 1 then
        client_fail EIO ''Unexpected response format: %d'' [FInt (PQfformat res 0)] context
      else
        andthen (parse_frame A cb 0 (PQgetvalue res row_number 0) context) (\<lambda>err context.
          if err \<noteq> 0 then client_fail err ''Error parsing frame data: %s'' [FStr []] context
          else Ret 0 context))"

fun snapshot_tuples :: "('y avro_io_scheme) \<Rightarrow> (('w, 'z) client_context_scheme) callbacks \<Rightarrow>
    pgresult \<Rightarrow> nat list \<Rightarrow> (('w, 'z) client_context_scheme, int) prog" where
  "snapshot_tuples A cb res [] context = Ret 0 context"
| "snapshot_tuples A cb res (tuple # tuples) context =
     check (snapshot_tuple A cb res tuple context) (snapshot_tuples A cb res tuples)"

definition snapshot_poll :: "('y avro_io_scheme) \<Rightarrow> 'w pq_ops \<Rightarrow>
    (('w, 'z) client_context_scheme) callbacks \<Rightarrow> (('w, 'z) client_context_scheme, int) prog" where
  "snapshot_poll A L cb context =
     (let (res, w) = PQgetResult L (sql_conn context) (world context);
          context = context\<lparr>world := w\<rparr>
      in case res of
           None \<Rightarrow>
             check (exec_sql L ''COMMIT'' context) (\<lambda>context.
               let w = (case sql_conn context of Some c \<Rightarrow> PQfinish L c (world context) | None \<Rightarrow> world context);
                   context = context\<lparr>world := w, sql_conn := None\<rparr>
               in call_back (cb_commit_txn cb) (\<lambda>f. f (start_lsn context) 0) context)
         | Some res \<Rightarrow>
             if PQresultStatus res \<noteq> PGRES_SINGLE_TUPLE \<and> PQresultStatus res \<noteq> PGRES_TUPLES_OK then
               client_fail EIO ''While reading snapshot: %s: %s''
                 [FStr [], FStr (PQresultErrorMessage res)] context
             else snapshot_tuples A cb res [0..<PQntuples res] context)"

definition db_client_start :: "'w pq_ops \<Rightarrow> (('w, 'z) client_context_scheme) callbacks \<Rightarrow>
    (('w, 'z) client_context_scheme, int) prog" where
  "db_client_start L cb context =
     check (client_connect L context) (\<lambda>context.
     checkRepl (replication_stream_check L context) (
     replication_slot_exists L (\<lambda>slot_exists context.
       if slot_exists then
         let w = (case sql_conn context of Some c \<Rightarrow> PQfinish L c (world context) | None \<Rightarrow> world context);
             context = context\<lparr>world := w, sql_conn := None, taking_snapshot := False\<rparr>
         in checkRepl (replication_stream_start L context) (Ret 0)
       else
         checkRepl (replication_slot_create L (context\<lparr>taking_snapshot := True\<rparr>)) (\<lambda>context.
         check (snapshot_start L cb context) (Ret 0)))))"

definition db_client_poll :: "('y avro_io_scheme) \<Rightarrow> 'w pq_ops \<Rightarrow>
    (('w, 'z) client_context_scheme) callbacks \<Rightarrow> (('w, 'z) client_context_scheme, int) prog" where
  "db_client_poll A L cb context =
     (if sql_conn context \<noteq> None then
        if PQisBusy L (sql_conn context) (world context) then Ret 0 (context\<lparr>client_status := 0\<rparr>)
        else
          check (snapshot_poll A L cb context) (\<lambda>context.
            let context = context\<lparr>client_status := 1\<rparr> in
            if sql_conn context = None then checkRepl (replication_stream_start L context) (Ret 0)
            else Ret 0 context)
      else
        checkRepl (replication_stream_poll A L cb context) (\<lambda>context.
          Ret 0 (context\<lparr>client_status := repl_status context\<rparr>)))"

abbreviation (input) EINTR :: int where "EINTR \<equiv> 4"

definition db_client_wait :: "'w pq_ops \<Rightarrow> (('w, 'z) client_context_scheme, int) prog" where
  "db_client_wait L context =
     (let fds = (case sql_conn context of None \<Rightarrow> [repl_conn context]
                 | Some c \<Rightarrow> [repl_conn context, Some c]);
          (ret, errno, w) = select_readable L fds (world context);
          context = context\<lparr>world := w\<rparr>
      in if ret = 0 \<or> (ret < 0 \<and> errno = EINTR) then Ret 0 context
         else if ret < 0 then client_fail errno ''select() failed: %s'' [FInt errno] context
         else
           let (ok, w) = PQconsumeInput L (repl_conn context) (world context);
               context = context\<lparr>world := w\<rparr>
           in if \<not> ok then client_fail EIO ''Could not receive replication data: %s''
                     [FStr (PQerrorMessage L (repl_conn context) w)] context
              else if sql_conn context = None then Ret 0 context
              else
                let (ok, w) = PQconsumeInput L (sql_conn context) (world context);
                    context = context\<lparr>world := w\<rparr>
                in if \<not> ok then client_fail EIO ''Could not receive snapshot data: %s''
                       [FStr (PQerrorMessage L (sql_conn context) w)] context
                   else Ret 0 context)"

lemma db_client_free_errbuf: "world (db_client_free L (u\<lparr>repl_errbuf := b\<rparr>)) = world (db_client_free L u)"
  by (simp add: db_client_free_def Let_def split: option.split)

end
