(* ===== verification/Registry.thy ===== *)
theory Registry
  imports Libpq
begin

text \<open>
  The client of the schema registry, \<open>kafka/registry.c\<close>: submitting a schema over HTTP, reading
  the identifier out of the response, and the five-byte prefix that carries the identifier in
  every message.

  libcurl and jansson are parameters (record \<open>http_ops\<close>); a parsed JSON document is a \<open>json\<close>
  value. Functions work on the registry structure and the outside world.
\<close>

section \<open>Libraries\<close>

datatype json =
    JObject "(string \<times> json) list" | JArray "json list" | JString string | JInteger int
  | JReal | JTrue | JFalse | JNull

fun json_object_get :: "json \<Rightarrow> string \<Rightarrow> json option" where
  "json_object_get (JObject kvs) k = map_of kvs k"
| "json_object_get j k = None"

text \<open>
  A request is answered by a result code, the error text of libcurl, the chunks of the response
  body handed to the write function, and the HTTP status. \<open>json_pack_dumps\<close> is
  \<open>json_dumps(json_pack("{s:s}", "schema", schema_json), JSON_COMPACT)\<close>; \<open>None\<close> is a null result.
\<close>

record 'w http_ops =
  curl_easy_perform :: "string \<Rightarrow> string \<Rightarrow> 'w \<Rightarrow> (int \<times> string \<times> bytes list \<times> int) \<times> 'w"
  json_pack_dumps :: "bytes \<Rightarrow> string option"
  json_loadb :: "bytes \<Rightarrow> string + json"

abbreviation (input) CURLE_OK :: int where "CURLE_OK \<equiv> 0"

section \<open>State\<close>

record schema_registry =
  registry_url :: string
  curl_error :: string
  reg_errbuf :: errmsg

definition registry_error :: "string \<Rightarrow> farg list \<Rightarrow> schema_registry \<Rightarrow> schema_registry" where
  "registry_error fmt args registry = registry\<lparr>reg_errbuf := (fmt, args)\<rparr>"

text \<open>Indexing a C string: the position after the last character holds the null character.\<close>

definition c_at :: "string \<Rightarrow> nat \<Rightarrow> char" where
  "c_at cs i = (if i < length cs then cs ! i else CHR 0x00)"

definition schema_registry_set_url :: "string \<Rightarrow> schema_registry \<Rightarrow> schema_registry" where
  "schema_registry_set_url url registry =
     (let registry = registry\<lparr>registry_url := url\<rparr>;
          len = length url
      in if c_at (registry_url registry) len = CHR ''/''
         then registry\<lparr>registry_url := take len (registry_url registry)\<rparr>
         else registry)"

definition schema_registry_new :: "string \<Rightarrow> schema_registry" where
  "schema_registry_new url =
     schema_registry_set_url url \<lparr> registry_url = [], curl_error = [], reg_errbuf = ([], []) \<rparr>"

section \<open>The message prefix\<close>

abbreviation (input) SCHEMA_REGISTRY_MESSAGE_PREFIX_LEN :: nat where
  "SCHEMA_REGISTRY_MESSAGE_PREFIX_LEN \<equiv> 5"

definition add_schema_prefix :: "int \<Rightarrow> bytes option \<Rightarrow> bytes option" where
  "add_schema_prefix schema_id avro_bin = (case avro_bin of
     None \<Rightarrow> None
   | Some bin \<Rightarrow> Some ([0] @ be32_put (word_of_int schema_id) @ bin))"

text \<open>
  The encoded key and row with their lengths; an absent input has length 0, as the callers pass it.
\<close>

definition bin_len :: "bytes option \<Rightarrow> nat" where
  "bin_len b = (case b of None \<Rightarrow> 0 | Some x \<Rightarrow> length x)"

definition schema_registry_encode_msg :: "int \<Rightarrow> int \<Rightarrow> bytes option \<Rightarrow> bytes option \<Rightarrow>
    (bytes option \<times> nat) \<times> (bytes option \<times> nat)" where
  "schema_registry_encode_msg key_schema_id row_schema_id key_bin row_bin =
     ((add_schema_prefix key_schema_id key_bin, bin_len key_bin + SCHEMA_REGISTRY_MESSAGE_PREFIX_LEN),
      (add_schema_prefix row_schema_id row_bin, bin_len row_bin + SCHEMA_REGISTRY_MESSAGE_PREFIX_LEN))"

section \<open>Requests\<close>

definition registry_response_cb :: "bytes \<Rightarrow> bytes \<Rightarrow> bytes" where
  "registry_response_cb buffer data = buffer @ data"

text \<open>\<open>(int) json_integer_value(...)\<close>: a 64-bit integer cut to 32 bits.\<close>

definition c_int :: "int \<Rightarrow> int" where
  "c_int i = sint (word_of_int i :: u32)"

text \<open>The error code and, on success, the schema id.\<close>

definition registry_parse_response :: "'w http_ops \<Rightarrow> int \<Rightarrow> bytes \<Rightarrow> int \<Rightarrow> schema_registry \<Rightarrow>
    (int \<times> int) \<times> schema_registry" where
  "registry_parse_response R result resp_body resp_code registry =
     (let fail = (\<lambda>fmt args. ((EIO, 0), registry_error fmt args registry)) in
      if result \<noteq> CURLE_OK then
        fail ''Could not send schema to registry: %s'' [FStr (curl_error registry)]
      else (case json_loadb R resp_body of
          Inl parse_err \<Rightarrow>
            if resp_code = 200 then
              fail (''Could not parse schema registry response: %s'' @ [CHR 0x0A, CHR 0x09] @ ''Response text: %.*s'')
                [FStr parse_err, FStr (cstr_of resp_body)]
            else fail ''Schema registry returned HTTP status %ld'' [FInt resp_code]
        | Inr resp_json \<Rightarrow>
            if resp_code \<noteq> 200 then
              (case json_object_get resp_json ''message'' of
                 Some (JString m) \<Rightarrow>
                   fail ''Schema registry returned HTTP status %ld: %s'' [FInt resp_code, FStr m]
               | _ \<Rightarrow> fail ''Schema registry returned HTTP status %ld'' [FInt resp_code])
            else
              (case json_object_get resp_json ''id'' of
                 Some (JInteger n) \<Rightarrow> ((0, c_int n), registry)
               | _ \<Rightarrow> fail ''Missing id field in schema registry response: %.*s''
                        [FStr (cstr_of resp_body)])))"

definition subject_url :: "string \<Rightarrow> string \<Rightarrow> bool \<Rightarrow> string" where
  "subject_url base name is_key =
     base @ ''/subjects/'' @ name @ ''-'' @ (if is_key then ''key'' else ''value'') @ ''/versions''"

text \<open>
  \<open>schema_id_out\<close> is the value of the output parameter before the call; it is only changed when
  the registry answered with an identifier.
\<close>

definition schema_registry_request :: "'w http_ops \<Rightarrow> string \<Rightarrow> bool \<Rightarrow> bytes option \<Rightarrow> int \<Rightarrow>
    schema_registry \<times> 'w \<Rightarrow> (int \<times> int) \<times> (schema_registry \<times> 'w)" where
  "schema_registry_request R name is_key schema_json schema_id_out s =
     (let (registry, w) = s in
      case schema_json of
        None \<Rightarrow> ((0, schema_id_out), s)
      | Some json \<Rightarrow>
          if length json = 0 then ((0, schema_id_out), s)
          else
            let url = subject_url (registry_url registry) name is_key in
            if 512 \<le> length url then
              ((EINVAL, schema_id_out),
               (registry_error ''Schema registry URL is too long: %s'' [FStr (take 511 url)] registry, w))
            else (case json_pack_dumps R json of
                None \<Rightarrow>
                  ((EINVAL, schema_id_out),
                   (registry_error ''Could not encode JSON request for schema registry'' [] registry, w))
              | Some req_body \<Rightarrow>
                  let ((result, errtext, chunks, resp_code), w) = curl_easy_perform R url req_body w;
                      registry = registry\<lparr>curl_error := errtext\<rparr>;
                      response = foldl registry_response_cb [] chunks;
                      ((err, schema_id), registry) = registry_parse_response R result response resp_code registry
                  in if err = 0 then ((0, schema_id), (registry, w))
                     else ((err, schema_id_out), (registry, w))))"

end
