(* ===== verification/Rdkafka.thy ===== *)
theory Rdkafka
  imports BW_Prelude
begin

text \<open>
  The interface to librdkafka (the Kafka client library, not part of this repository).

  A topic handle is the name it was opened with. A produced message carries the application's
  envelope, which comes back with the delivery report. The library's queue of messages that have
  been accepted and not yet reported is explicit, \<open>kafka_msg list\<close>: \<open>rd_kafka_poll\<close> turns some of
  it into delivery reports. Predicate \<open>reports_once\<close> is the documented promise that every
  accepted message is reported exactly once.
\<close>

type_synonym topic = string

record msg_envelope =
  env_wal_pos :: u64
  env_relid :: Oid
  env_xact :: nat

record kafka_msg =
  msg_topic :: topic
  msg_key :: "bytes option"
  msg_val :: "bytes option"
  msg_env :: msg_envelope

text \<open>
  \<open>rd_kafka_produce m q w\<close> gives the return value, whether \<open>errno\<close> afterwards stands for a full
  queue, and the new world; \<open>rd_kafka_poll q timeout w\<close> the reports (message and error code) in
  the order of their callbacks, the messages that stay in the queue, and the new world.
\<close>

record 'w kafka_ops =
  rd_kafka_topic_new :: "string \<Rightarrow> 'w \<Rightarrow> topic option \<times> 'w"
  rd_kafka_errstr :: "'w \<Rightarrow> string"
  rd_kafka_produce :: "kafka_msg \<Rightarrow> kafka_msg list \<Rightarrow> 'w \<Rightarrow> (int \<times> bool) \<times> 'w"
  rd_kafka_poll :: "kafka_msg list \<Rightarrow> int \<Rightarrow> 'w \<Rightarrow> (kafka_msg \<times> int) list \<times> kafka_msg list \<times> 'w"
  shutdown_signal :: "'w \<Rightarrow> bool"

text \<open>
  \<open>shutdown_signal\<close> is the flag set by the handler of \<open>SIGINT\<close> and \<open>SIGTERM\<close>, which the outside
  world may raise at any time.
\<close>

definition reports_once :: "'w kafka_ops \<Rightarrow> bool" where
  "reports_once K \<longleftrightarrow> (\<forall>q timeout w reports rest w'.
     rd_kafka_poll K q timeout w = (reports, rest, w') \<longrightarrow>
     mset q = mset (map fst reports) + mset rest)"

text \<open>
  An instance: the world is a script of the broker's reactions, how many messages to
  acknowledge at each poll; producing always succeeds.
\<close>

definition script_kafka :: "nat list kafka_ops" where
  "script_kafka = \<lparr>
     rd_kafka_topic_new = (\<lambda>name w. (Some name, w)),
     rd_kafka_errstr = (\<lambda>w. []),
     rd_kafka_produce = (\<lambda>m q w. ((0, False), w)),
     rd_kafka_poll = (\<lambda>q timeout w. (case w of
         [] \<Rightarrow> ([], q, [])
       | n # w \<Rightarrow> (map (\<lambda>m. (m, 0)) (take n q), drop n q, w))),
     shutdown_signal = (\<lambda>w. False) \<rparr>"

lemma script_reports_once: "reports_once script_kafka"
proof -
  have "mset q = mset (take n q) + mset (drop n q)" for n and q :: "kafka_msg list"
    by (metis append_take_drop_id mset_append)
  then show ?thesis
    by (auto simp: reports_once_def script_kafka_def image_mset.compositionality comp_def split: list.splits)
qed

text \<open>A broker that acknowledges everything at once.\<close>

definition eager_kafka :: "'w kafka_ops" where
  "eager_kafka = \<lparr>
     rd_kafka_topic_new = (\<lambda>name w. (Some name, w)),
     rd_kafka_errstr = (\<lambda>w. []),
     rd_kafka_produce = (\<lambda>m q w. ((0, False), w)),
     rd_kafka_poll = (\<lambda>q timeout w. (map (\<lambda>m. (m, 0)) q, [], w)),
     shutdown_signal = (\<lambda>w. False) \<rparr>"

lemma eager_reports_once: "reports_once eager_kafka"
  by (auto simp: reports_once_def eager_kafka_def image_mset.compositionality comp_def)

end
