(* ===== verification/Table_Mapper.thy ===== *)
theory Table_Mapper
  imports Avro_IO Registry Rdkafka Relid_Table
begin

text \<open>
  The mapping from tables to Kafka topics and schemas, \<open>kafka/table_mapper.c\<close>.

  Functions work on the mapper structure and the outside world. A \<open>table_metadata_t\<close> pointer is
  the index of the table in the mapper. The pointers of a table own what they point to
  (\<open>ptr\<close>): freeing leaves them dangling. The registry structure is shared with the producer;
  the mapper's reference to it is where its error buffer changes. Log output is not modelled.
\<close>

abbreviation (input) TABLE_MAPPER_SCHEMA_ID_MISSING :: int where "TABLE_MAPPER_SCHEMA_ID_MISSING \<equiv> -1"
abbreviation (input) TABLE_MAPPER_MAX_TOPIC_LEN :: nat where "TABLE_MAPPER_MAX_TOPIC_LEN \<equiv> 257"

section \<open>State\<close>

record table_metadata =
  table_relid :: Oid
  table_name :: "string ptr"
  table_topic :: "topic ptr"
  key_schema_id :: int
  table_key_schema :: "avro_schema ptr"
  row_schema_id :: int
  table_row_schema :: "avro_schema ptr"

record table_mapper =
  mapper_errbuf :: errmsg
  mapper_registry :: "schema_registry option"
  mapper_topic_prefix :: "string option"
  num_tables :: nat
  mapper_capacity :: nat
  tables :: "table_metadata list"

definition table_mapper_new :: "schema_registry option \<Rightarrow> string option \<Rightarrow> table_mapper" where
  "table_mapper_new reg prefix =
     \<lparr> mapper_errbuf = ([], []), mapper_registry = reg, mapper_topic_prefix = prefix,
       num_tables = 0, mapper_capacity = 16, tables = [] \<rparr>"

definition mapper_error :: "string \<Rightarrow> farg list \<Rightarrow> table_mapper \<Rightarrow> table_mapper" where
  "mapper_error fmt args mapper = mapper\<lparr>mapper_errbuf := (fmt, args)\<rparr>"

fun find_table :: "table_metadata list \<Rightarrow> nat \<Rightarrow> Oid \<Rightarrow> nat option" where
  "find_table [] i rid = None"
| "find_table (table # rest) i rid =
     (if table_relid table = rid then Some i else find_table rest (Suc i) rid)"

definition table_mapper_lookup :: "table_mapper \<Rightarrow> Oid \<Rightarrow> nat option" where
  "table_mapper_lookup mapper rid = find_table (take (num_tables mapper) (tables mapper)) 0 rid"

definition table_metadata_new :: "Oid \<Rightarrow> table_mapper \<Rightarrow> nat \<times> table_mapper" where
  "table_metadata_new rid mapper =
     (let mapper = (if num_tables mapper = mapper_capacity mapper
                    then mapper\<lparr>mapper_capacity := mapper_capacity mapper * 4\<rparr> else mapper);
          table = \<lparr> table_relid = rid, table_name = Null, table_topic = Null,
                    key_schema_id = TABLE_MAPPER_SCHEMA_ID_MISSING, table_key_schema = Null,
                    row_schema_id = TABLE_MAPPER_SCHEMA_ID_MISSING, table_row_schema = Null \<rparr>
      in (num_tables mapper,
          mapper\<lparr>tables := tables mapper @ [table], num_tables := num_tables mapper + 1\<rparr>))"

definition upd_table :: "nat \<Rightarrow> (table_metadata \<Rightarrow> table_metadata) \<Rightarrow> table_mapper \<Rightarrow> table_mapper" where
  "upd_table i f mapper = mapper\<lparr>tables := (tables mapper)[i := f (tables mapper ! i)]\<rparr>"

section \<open>Topics\<close>

text \<open>
  The second half of \<open>table_metadata_update_topic\<close>: remember the name and open the topic.
  \<open>snprintf\<close> reports the length of the whole prefixed name.
\<close>

definition prefixed_name :: "string \<Rightarrow> string \<Rightarrow> string" where
  "prefixed_name prefix name = prefix @ [CHR ''-''] @ name"

definition table_open_topic :: "'w kafka_ops \<Rightarrow> nat \<Rightarrow> string \<Rightarrow> (table_mapper \<times> 'w, int) prog" where
  "table_open_topic K i name s =
     (let (mapper, w) = s;
          mapper = upd_table i (\<lambda>t. t\<lparr>table_name := Valid name\<rparr>) mapper;
          open_as = (\<lambda>topic_name.
            let (t, w) = rd_kafka_topic_new K topic_name w in
            case t of
              None \<Rightarrow>
                Ret (-1) (mapper_error ''Cannot open Kafka topic %s: %s''
                    [FStr topic_name, FStr (rd_kafka_errstr K w)]
                    (upd_table i (\<lambda>t. t\<lparr>table_topic := Null\<rparr>) mapper), w)
            | Some t \<Rightarrow> Ret 0 (upd_table i (\<lambda>m. m\<lparr>table_topic := Valid t\<rparr>) mapper, w))
      in case mapper_topic_prefix mapper of
           Some prefix \<Rightarrow>
             if TABLE_MAPPER_MAX_TOPIC_LEN \<le> length (prefixed_name prefix name) then
               Ret (-1) (mapper_error
                   ''prefixed topic name is too long (max %d bytes): prefix %s, table name %s''
                   [FInt (int TABLE_MAPPER_MAX_TOPIC_LEN), FStr prefix, FStr name] mapper, w)
             else open_as (prefixed_name prefix name)
         | None \<Rightarrow> open_as name)"

definition table_metadata_update_topic :: "'w kafka_ops \<Rightarrow> nat \<Rightarrow> string \<Rightarrow> (table_mapper \<times> 'w, int) prog" where
  "table_metadata_update_topic K i name s =
     (let (mapper, w) = s;
          table = tables mapper ! i
      in if table_topic table \<noteq> Null then
           (case table_name table of
              Valid prev_table_name \<Rightarrow>
                if name \<noteq> prev_table_name then
                  (case release (table_topic table) of
                     None \<Rightarrow> Undef
                   | Some t \<Rightarrow> table_open_topic K i name
                       (upd_table i (\<lambda>m. m\<lparr>table_name := Dangling, table_topic := t\<rparr>) mapper, w))
                else Ret 0 s
            | _ \<Rightarrow> Undef)
         else table_open_topic K i name s)"

section \<open>Schemas\<close>

definition table_metadata_set_schema_id :: "bool \<Rightarrow> int \<Rightarrow> table_metadata \<Rightarrow> table_metadata" where
  "table_metadata_set_schema_id is_key schema_id table =
     (if is_key then table\<lparr>key_schema_id := schema_id\<rparr> else table\<lparr>row_schema_id := schema_id\<rparr>)"

text \<open>
  A newly parsed schema is a new object, so the pointer comparison of the code finds only two
  null pointers equal. \<open>None\<close> is the release of a reference that is not owned.
\<close>

definition replace_schema :: "avro_schema ptr \<Rightarrow> avro_schema option \<Rightarrow> avro_schema ptr option" where
  "replace_schema old new = (case new of
     None \<Rightarrow> if old = Null then Some Null else map_option (\<lambda>_. Null) (release old)
   | Some s \<Rightarrow> if old = Null then Some (Valid s) else map_option (\<lambda>_. Valid s) (release old))"

definition table_metadata_set_schema :: "bool \<Rightarrow> avro_schema option \<Rightarrow> table_metadata \<Rightarrow> table_metadata option" where
  "table_metadata_set_schema is_key new_schema table =
     (if is_key
      then map_option (\<lambda>p. table\<lparr>table_key_schema := p\<rparr>) (replace_schema (table_key_schema table) new_schema)
      else map_option (\<lambda>p. table\<lparr>table_row_schema := p\<rparr>) (replace_schema (table_row_schema table) new_schema))"

definition key_or_row :: "bool \<Rightarrow> string" where
  "key_or_row is_key = (if is_key then ''key'' else ''row'')"

text \<open>The part of \<open>table_metadata_update_schema\<close> after the registry was asked.\<close>

definition table_store_schema :: "('y avro_io_scheme) \<Rightarrow> nat \<Rightarrow> bool \<Rightarrow> bytes option \<Rightarrow> int \<Rightarrow> int \<Rightarrow>
    (table_mapper \<times> 'w, int) prog" where
  "table_store_schema A i is_key schema_json prev_schema_id schema_id s =
     (let (mapper, w) = s;
          store = (\<lambda>schema. case table_metadata_set_schema is_key schema (tables mapper ! i) of
             None \<Rightarrow> Undef
           | Some table \<Rightarrow> Ret 0 (upd_table i (\<lambda>_. table) mapper, w))
      in if prev_schema_id = TABLE_MAPPER_SCHEMA_ID_MISSING \<or> prev_schema_id \<noteq> schema_id then
           (case schema_json of
              Some json \<Rightarrow>
                (case avro_schema_from_json_length A json (length json) of (err, schema) \<Rightarrow>
                   if err \<noteq> 0 then
                     Ret err (mapper_error ''Could not parse %s schema: %s''
                       [FStr (key_or_row is_key), FStr []] mapper, w)
                   else store (Some schema))
            | None \<Rightarrow> store None)
         else Ret 0 s)"

definition table_metadata_update_schema :: "('y avro_io_scheme) \<Rightarrow> 'w http_ops \<Rightarrow> nat \<Rightarrow> bool \<Rightarrow>
    bytes option \<Rightarrow> (table_mapper \<times> 'w, int) prog" where
  "table_metadata_update_schema A R i is_key schema_json s =
     (let (mapper, w) = s;
          table = tables mapper ! i;
          prev_schema_id = (if is_key then key_schema_id table else row_schema_id table)
      in case mapper_registry mapper of
           None \<Rightarrow> table_store_schema A i is_key schema_json prev_schema_id TABLE_MAPPER_SCHEMA_ID_MISSING s
         | Some registry \<Rightarrow>
             (case table_topic table of
                Valid t \<Rightarrow>
                  let ((err, schema_id), (registry, w)) =
                        schema_registry_request R t is_key schema_json TABLE_MAPPER_SCHEMA_ID_MISSING (registry, w);
                      mapper = mapper\<lparr>mapper_registry := Some registry\<rparr>
                  in if err \<noteq> 0 then
                       Ret err (mapper_error ''Failed to register %s schema: %s''
                         [FStr (key_or_row is_key), FMsg (fst (reg_errbuf registry)) (snd (reg_errbuf registry))] mapper, w)
                     else table_store_schema A i is_key schema_json prev_schema_id schema_id
                            (upd_table i (table_metadata_set_schema_id is_key schema_id) mapper, w)
              | _ \<Rightarrow> Undef))"

section \<open>Update and free\<close>

text \<open>The returned pointer; \<open>None\<close> is the null pointer of a failure.\<close>

definition table_mapper_update :: "('y avro_io_scheme) \<Rightarrow> 'w http_ops \<Rightarrow> 'w kafka_ops \<Rightarrow> Oid \<Rightarrow> string \<Rightarrow>
    bytes option \<Rightarrow> bytes \<Rightarrow> (table_mapper \<times> 'w, nat option) prog" where
  "table_mapper_update A R K rid name key_schema_json row_schema_json s =
     (let (mapper, w) = s;
          (i, mapper) = (case table_mapper_lookup mapper rid of
             Some i \<Rightarrow> (i, mapper) | None \<Rightarrow> table_metadata_new rid mapper)
      in andthen (table_metadata_update_topic K i name (mapper, w)) (\<lambda>err s.
         if err \<noteq> 0 then Ret None s else
         andthen (table_metadata_update_schema A R i True key_schema_json s) (\<lambda>err s.
         if err \<noteq> 0 then Ret None s else
         andthen (table_metadata_update_schema A R i False (Some row_schema_json) s) (\<lambda>err s.
         if err \<noteq> 0 then Ret None s else Ret (Some i) s))))"

definition table_metadata_free :: "table_metadata \<Rightarrow> table_metadata option" where
  "table_metadata_free table =
     Option.bind (release_if (table_name table)) (\<lambda>n.
     Option.bind (release_if (table_topic table)) (\<lambda>t.
     Option.bind (release_if (table_row_schema table)) (\<lambda>r.
     Option.bind (release_if (table_key_schema table)) (\<lambda>k.
       Some (table\<lparr>table_name := n, table_topic := t, table_row_schema := r, table_key_schema := k\<rparr>)))))"

fun free_tables :: "table_metadata list \<Rightarrow> table_metadata list option" where
  "free_tables [] = Some []"
| "free_tables (t # ts) = Option.bind (table_metadata_free t) (\<lambda>t'.
     Option.bind (free_tables ts) (\<lambda>ts'. Some (t' # ts')))"

definition table_mapper_free :: "(table_mapper, unit) prog" where
  "table_mapper_free mapper = (case free_tables (take (num_tables mapper) (tables mapper)) of
     None \<Rightarrow> Undef | Some ts \<Rightarrow> Ret () (mapper\<lparr>tables := ts\<rparr>))"

section \<open>The mapper as a table of relids\<close>

lemma find_table_Some:
  "find_table ts j r = Some i \<Longrightarrow> j \<le> i \<and> i - j < length ts \<and> table_relid (ts ! (i - j)) = r"
  by (induction ts arbitrary: j) (fastforce simp: nth_Cons' split: if_splits)+

lemma find_table_None: "find_table ts j r = None \<Longrightarrow> r \<notin> table_relid ` set ts"
  by (induction ts arbitrary: j) (auto split: if_splits)

interpretation tm: relid_table table_relid tables num_tables mapper_capacity
  table_mapper_lookup table_metadata_new
proof unfold_locales
  fix t :: table_mapper and k i
  assume t: "num_tables t = length (tables t)"
  show "i < length (tables t) \<and> table_relid (tables t ! i) = k" if "table_mapper_lookup t k = Some i"
    using find_table_Some [of "tables t" 0 k i] that t by (simp add: table_mapper_lookup_def)
  show "k \<notin> table_relid ` set (tables t)" if "table_mapper_lookup t k = None"
    using find_table_None [of "tables t" 0 k] that t by (simp add: table_mapper_lookup_def)
qed (auto simp: table_metadata_new_def Let_def)

end
