(* ===== verification/Json_Encode.thy ===== *)
theory Json_Encode
  imports Table_Mapper
begin

text \<open>
  JSON output, \<open>kafka/json.c\<close>: a binary Avro value is decoded with the schema of its table and
  converted to JSON text by the Avro library.

  The result of \<open>avro_bin_to_json\<close> is the error code and the output string (\<open>None\<close> is null); a
  schema pointer that dangles makes the call undefined. The class of a schema and its value are
  created by one call of the interface, \<open>avro_generic_value_new\<close>.
\<close>

definition avro_bin_to_json :: "('y avro_io_scheme) \<Rightarrow> avro_schema ptr \<Rightarrow> bytes option \<Rightarrow>
    ('s, int \<times> bytes option) prog" where
  "avro_bin_to_json A schema val_bin s = (case val_bin of
     None \<Rightarrow> Ret (0, None) s
   | Some bin \<Rightarrow> (case schema of
       Null \<Rightarrow> Ret (EINVAL, None) s
     | Dangling \<Rightarrow> Undef
     | Valid sch \<Rightarrow>
         (case avro_generic_value_new A sch of (err, value) \<Rightarrow>
            if err \<noteq> 0 then Ret (err, None) s
            else (case avro_value_read A bin value of (err, _, value) \<Rightarrow>
              if err \<noteq> 0 then Ret (err, None) s
              else (case avro_value_to_json A value of (err, text) \<Rightarrow>
                if err \<noteq> 0 then Ret (err, None) s
                else Ret (0, Some (takeWhile (\<lambda>b. b \<noteq> 0) text)) s)))))"

definition json_encode_msg :: "('y avro_io_scheme) \<Rightarrow> table_metadata \<Rightarrow> bytes option \<Rightarrow> bytes option \<Rightarrow>
    ('s, int \<times> bytes option \<times> bytes option) prog" where
  "json_encode_msg A table key_bin row_bin s =
     andthen (avro_bin_to_json A (table_key_schema table) key_bin s) (\<lambda>(err, key_out) s.
     if err \<noteq> 0 then Ret (err, key_out, None) s else
     andthen (avro_bin_to_json A (table_row_schema table) row_bin s) (\<lambda>(err, row_out) s.
     if err \<noteq> 0 then Ret (err, key_out, row_out) s else Ret (0, key_out, row_out) s))"

end
