(* ===== verification/Frame_Delivery.thy ===== *)
theory Frame_Delivery
  imports Protocol_Client
begin

text \<open>
  What \<open>process_frame\<close> and \<open>parse_frame\<close> of \<open>client/protocol_client.c\<close> mean. A frame is the Avro
  encoding of a list of messages (\<open>frame_of\<close>); \<open>deliver_all\<close> is what the client does with
  those messages, without any traversal of Avro values. The functions of the client, which walk
  the decoded value with the accessors of the Avro library, refine it.
\<close>


section \<open>The message-level meaning of a frame\<close>

text \<open>
  What the client does with one message, without the traversal of the Avro value: the
  specification that \<open>process_frame\<close> refines.
\<close>

definition decode_opt :: "('z avro_io_scheme) \<Rightarrow> entry_field \<Rightarrow> nat \<Rightarrow> bytes option \<Rightarrow>
    (bytes option \<Rightarrow> ('y frame_reader_scheme, int) prog) \<Rightarrow> ('y frame_reader_scheme, int) prog" where
  "decode_opt A f i b k s = (case b of
     None \<Rightarrow> k None s | Some bin \<Rightarrow> check (read_entry A f i bin s) (k (Some bin)))"

definition install_schema :: "('z avro_io_scheme) \<Rightarrow> ('y frame_reader_scheme) callbacks \<Rightarrow> u64 \<Rightarrow>
    Oid \<Rightarrow> bytes option \<Rightarrow> bytes \<Rightarrow> ('y frame_reader_scheme, int) prog" where
  "install_schema A cb wal r kj rj =
     check_get (avro_schema_from_json_length A rj (length rj)) (\<lambda>rschema s.
     andthen (schema_list_replace (ucast r) s) (\<lambda>i s.
       let s = upd_entry i (entry_set_row A (ucast r) rschema) s in
       case kj of
         Some j \<Rightarrow> check_get (avro_schema_from_json_length A j (length j)) (\<lambda>kschema s.
           call_back (cb_table_schema cb)
             (\<lambda>f. f wal r (Some j) (length j) (Some kschema) rj (length rj) rschema)
             (upd_entry i (entry_set_key A kschema) s)) s
       | None \<Rightarrow> call_back (cb_table_schema cb) (\<lambda>f. f wal r None 0 None rj (length rj) rschema)
             (upd_entry i (\<lambda>e. e\<lparr>key_schema := Null\<rparr>) s)))"

fun deliver_msg :: "('z avro_io_scheme) \<Rightarrow> ('y frame_reader_scheme) callbacks \<Rightarrow> u64 \<Rightarrow>
    wire_msg \<Rightarrow> ('y frame_reader_scheme, int) prog" where
  "deliver_msg A cb wal (BeginTxn x) s = call_back (cb_begin_txn cb) (\<lambda>f. f wal x) s"
| "deliver_msg A cb wal (CommitTxn x l) s = call_back (cb_commit_txn cb) (\<lambda>f. f wal x) s"
| "deliver_msg A cb wal (TableSchema r kj rj) s = install_schema A cb wal r kj rj s"
| "deliver_msg A cb wal (Insert r k n) s = (case schema_list_lookup s (ucast r) of
     None \<Rightarrow> Ret EINVAL s
   | Some i \<Rightarrow> decode_opt A KeyValue i k (\<lambda>k s.
       check (read_entry A RowValue i n s) (\<lambda>s.
       call_back (cb_insert_row cb)
         (\<lambda>f. f wal r k (field_arg KeyValue i k s) n (row_arg i s)) s)) s)"
| "deliver_msg A cb wal (Update r k l n) s = (case schema_list_lookup s (ucast r) of
     None \<Rightarrow> Ret EINVAL s
   | Some i \<Rightarrow> decode_opt A KeyValue i k (\<lambda>k. decode_opt A OldValue i l (\<lambda>l s.
       check (read_entry A RowValue i n s) (\<lambda>s.
       call_back (cb_update_row cb)
         (\<lambda>f. f wal r k (field_arg KeyValue i k s) l (field_arg OldValue i l s) n (row_arg i s)) s))) s)"
| "deliver_msg A cb wal (Delete r k l) s = (case schema_list_lookup s (ucast r) of
     None \<Rightarrow> Ret EINVAL s
   | Some i \<Rightarrow> decode_opt A KeyValue i k (\<lambda>k. decode_opt A OldValue i l (\<lambda>l s.
       call_back (cb_delete_row cb)
         (\<lambda>f. f wal r k (field_arg KeyValue i k s) l (field_arg OldValue i l s)) s)) s)"

fun deliver_all :: "('z avro_io_scheme) \<Rightarrow> ('y frame_reader_scheme) callbacks \<Rightarrow> u64 \<Rightarrow>
    wire_msg list \<Rightarrow> ('y frame_reader_scheme, int) prog" where
  "deliver_all A cb wal [] s = Ret 0 s"
| "deliver_all A cb wal (m # ms) s = check (deliver_msg A cb wal m s) (deliver_all A cb wal ms)"

text \<open>Callbacks belong to the application; they leave the frame reader alone.\<close>

definition reader_part :: "('y frame_reader_scheme) \<Rightarrow>
    nat \<times> nat \<times> schema_list_entry list \<times> avro_val \<times> unit ptr" where
  "reader_part s = (num_schemas s, capacity s, schemas s, frame_value s, reader_refs s)"

definition keeps_reader :: "('y frame_reader_scheme, 'a) prog \<Rightarrow> bool" where
  "keeps_reader f \<longleftrightarrow> (\<forall>s. post (\<lambda>_ t. reader_part t = reader_part s) (f s))"

definition callbacks_keep_reader :: "('y frame_reader_scheme) callbacks \<Rightarrow> bool" where
  "callbacks_keep_reader cb \<longleftrightarrow>
     (\<forall>f w x. cb_begin_txn cb = Some f \<longrightarrow> keeps_reader (f w x)) \<and>
     (\<forall>f w x. cb_commit_txn cb = Some f \<longrightarrow> keeps_reader (f w x)) \<and>
     (\<forall>f w r a b c d e g. cb_table_schema cb = Some f \<longrightarrow> keeps_reader (f w r a b c d e g)) \<and>
     (\<forall>f w r a b c d. cb_insert_row cb = Some f \<longrightarrow> keeps_reader (f w r a b c d)) \<and>
     (\<forall>f w r a b c d e g. cb_update_row cb = Some f \<longrightarrow> keeps_reader (f w r a b c d e g)) \<and>
     (\<forall>f w r a b c d. cb_delete_row cb = Some f \<longrightarrow> keeps_reader (f w r a b c d))"

definition present :: "'a option \<Rightarrow> int" where
  "present b = (if b = None then 0 else 1)"

context avro_values
begin

lemma opt_present:
  "val_at v p = Some (enc_opt s c b) \<Longrightarrow>
    avro_value_get_discriminant A v p = (0, present b)"
  by (cases b) (simp_all add: enc_opt_def discriminant present_def)

lemma opt_branch:
  "val_at v p = Some (enc_opt s c (Some b)) \<Longrightarrow> avro_value_get_current_branch A v p = (0, p @ [0])"
  by (simp add: enc_opt_def current_branch)

lemma opt_branch_at:
  "val_at v p = Some (enc_opt s c (Some b)) \<Longrightarrow> val_at v (p @ [0]) = Some (c b)"
  by (simp add: enc_opt_def val_at_append)

lemma field_at:
  "val_at v p = Some (VRecord vs) \<Longrightarrow> i < length vs \<Longrightarrow> val_at v (p @ [i]) = Some (vs ! i)"
  by (simp add: val_at_append)

end

context avro_codec
begin

lemma read_entry_frame: "post (\<lambda>_ t. frame_value t = frame_value s) (read_entry A f i b s)"
  by (auto simp: read_entry_def Let_def split: ptr.splits prod.splits)

lemma decode_opt_cong:
  assumes "\<And>b t. frame_value t = frame_value s \<Longrightarrow> k b t = l b t"
  shows "decode_opt A f i b k s = decode_opt A f i b l s"
proof (cases b)
  case None
  with assms show ?thesis by (simp add: decode_opt_def)
next
  case (Some bin)
  have "post (\<lambda>_ t. frame_value t = frame_value s) (read_entry A f i bin s)"
    by (rule read_entry_frame)
  with Some assms show ?thesis
    by (cases "read_entry A f i bin s") (auto simp: decode_opt_def)
qed

lemma read_nullable_eq:
  assumes at: "val_at (frame_value s) p = Some (enc_opt SBytes VBytes b)"
    and k: "\<And>b t. frame_value t = frame_value s \<Longrightarrow> k b t = l b t"
  shows "read_nullable A f i p (present b) k s = decode_opt A f i b l s"
proof -
  have "read_nullable A f i p (present b) k s = decode_opt A f i b k s"
  proof (cases b)
    case None
    then show ?thesis by (simp add: read_nullable_def decode_opt_def present_def)
  next
    case (Some bin)
    with at have "val_at (frame_value s) (p @ [0]) = Some (VBytes bin)"
      by (auto dest: opt_branch_at)
    with at Some show ?thesis
      by (simp add: read_nullable_def decode_opt_def opt_branch get_bytes present_def)
  qed
  also have "\<dots> = decode_opt A f i b l s" using k by (rule decode_opt_cong)
  finally show ?thesis .
qed

lemma process_begin_txn:
  assumes "val_at (frame_value s) p = Some (VRecord (msg_record (BeginTxn x)))"
  shows "process_frame_begin_txn A cb p w s = deliver_msg A cb w (BeginTxn x) s"
  using assms
  by (simp add: process_frame_begin_txn_def index_record get_long val_at_append)

lemma process_commit_txn:
  assumes "val_at (frame_value s) p = Some (VRecord (msg_record (CommitTxn x l)))"
  shows "process_frame_commit_txn A cb p w s = deliver_msg A cb w (CommitTxn x l) s"
  using assms
  by (simp add: process_frame_commit_txn_def index_record get_long val_at_append)

lemmas process_simps =
  index_record get_long get_bytes get_string opt_present Let_def numeral_nat

lemma process_insert:
  assumes "val_at (frame_value s) p = Some (VRecord (msg_record (Insert r k n)))"
  shows "process_frame_insert A cb p w s = deliver_msg A cb w (Insert r k n) s"
  using assms
  by (simp add: process_frame_insert_def process_simps field_at [OF assms] read_nullable_eq
      split: option.split)

lemma process_delete:
  assumes "val_at (frame_value s) p = Some (VRecord (msg_record (Delete r k l)))"
  shows "process_frame_delete A cb p w s = deliver_msg A cb w (Delete r k l) s"
  using assms
  by (auto simp: process_frame_delete_def process_simps field_at [OF assms]
      intro!: read_nullable_eq split: option.split)

lemma process_update:
  assumes "val_at (frame_value s) p = Some (VRecord (msg_record (Update r k l n)))"
  shows "process_frame_update A cb p w s = deliver_msg A cb w (Update r k l n) s"
  using assms
  by (auto simp: process_frame_update_def process_simps field_at [OF assms]
      intro!: read_nullable_eq split: option.split)

lemma process_table_schema:
  assumes "val_at (frame_value s) p = Some (VRecord (msg_record (TableSchema r kj rj)))"
  shows "process_frame_table_schema A cb p w s = deliver_msg A cb w (TableSchema r kj rj) s"
proof -
  have "val_at (frame_value s) (p @ [Suc 0]) = Some (enc_opt SString VString kj)"
    using assms by (simp add: field_at)
  then have key: "kj = Some j \<Longrightarrow>
      avro_value_get_string A (frame_value s) (p @ [Suc 0, 0]) = (0, j, length j + 1)" for j
    using opt_branch_at [of "frame_value s" "p @ [Suc 0]" SString VString j] by (simp add: get_string)
  show ?thesis
    using assms key
    by (cases kj) (simp_all add: process_frame_table_schema_def process_simps field_at [OF assms]
        install_schema_def present_def opt_branch)
qed

lemma process_message_deliver:
  assumes v: "frame_value s = frame_of ms" and i: "i < length ms"
  shows "process_message A cb [0] w i s = deliver_msg A cb w (ms ! i) s"
proof -
  have u: "val_at (frame_value s) [0, i] = Some (enc_msg (ms ! i))"
    using v i by (simp add: frame_of_def)
  have r: "val_at (frame_value s) [0, i, 0] = Some (VRecord (msg_record (ms ! i)))"
    using v i by (simp add: frame_of_def enc_msg_def)
  have idx: "avro_value_get_by_index A (frame_value s) [0] i = (0, [0, i])"
    using v i index_array [of "frame_value s" "[0]" _ "map enc_msg ms" i] by (simp add: frame_of_def)
  have disc: "avro_value_get_discriminant A (frame_value s) [0, i] = (0, int (msg_type (ms ! i)))"
    and br: "avro_value_get_current_branch A (frame_value s) [0, i] = (0, [0, i, 0])"
    using u by (simp_all add: enc_msg_def discriminant current_branch)
  show ?thesis
    using r by (cases "ms ! i") (simp_all add: process_message_def idx disc br Let_def
        process_begin_txn process_commit_txn process_table_schema process_insert process_update
        process_delete del: msg_record.simps deliver_msg.simps)
qed

lemma call_back_keeps:
  assumes "\<And>f. cb = Some f \<Longrightarrow> keeps_reader (app f)"
  shows "post (\<lambda>_ t. reader_part t = reader_part s) (call_back cb app s)"
proof (cases cb)
  case None
  then show ?thesis by (simp add: call_back_def)
next
  case (Some f)
  with assms have "post (\<lambda>_ t. reader_part t = reader_part s) (app f s)"
    by (simp add: keeps_reader_def)
  with Some show ?thesis by (cases "app f s") (auto simp: call_back_def)
qed

lemma decode_opt_post:
  assumes "P s" and "\<And>f i b t. P t \<Longrightarrow> post (\<lambda>_. P) (read_entry A f i b t)"
    and "\<And>b t. P t \<Longrightarrow> post (\<lambda>_. P) (k b t)"
  shows "post (\<lambda>_. P) (decode_opt A f i b k s)"
proof (cases b)
  case None
  with assms show ?thesis by (simp add: decode_opt_def)
next
  case (Some bin)
  from assms have "post (\<lambda>_. P) (read_entry A f i bin s)" by blast
  with Some assms show ?thesis
    by (cases "read_entry A f i bin s") (auto simp: decode_opt_def)
qed

end

lemma reader_part_frame: "reader_part t = reader_part s \<Longrightarrow> frame_value t = frame_value s"
  by (simp add: reader_part_def)

lemma upd_entry_frame [simp]: "frame_value (upd_entry i f s) = frame_value s"
  by (simp add: upd_entry_def)

lemma schema_list_replace_frame:
  "post (\<lambda>_ t. frame_value t = frame_value s) (schema_list_replace r s)"
  by (auto simp: schema_list_replace_def schema_list_entry_new_def Let_def split: option.split)

context avro_codec
begin

lemma callbacks_frame:
  assumes "callbacks_keep_reader cb" and "frame_value s = v"
  shows "post (\<lambda>_ t. frame_value t = v) (call_back (cb_begin_txn cb) (\<lambda>f. f w x) s)"
    and "post (\<lambda>_ t. frame_value t = v) (call_back (cb_commit_txn cb) (\<lambda>f. f w x) s)"
    and "post (\<lambda>_ t. frame_value t = v)
      (call_back (cb_table_schema cb) (\<lambda>f. f w r b1 n1 s1 b2 n2 s2) s)"
    and "post (\<lambda>_ t. frame_value t = v) (call_back (cb_insert_row cb) (\<lambda>f. f w r k1 v1 k2 v2) s)"
    and "post (\<lambda>_ t. frame_value t = v)
      (call_back (cb_update_row cb) (\<lambda>f. f w r k1 v1 k3 v3 k2 v2) s)"
    and "post (\<lambda>_ t. frame_value t = v) (call_back (cb_delete_row cb) (\<lambda>f. f w r k1 v1 k3 v3) s)"
proof -
  have *: "post (\<lambda>_ t. frame_value t = v) (call_back c app s)"
    if "\<And>f. c = Some f \<Longrightarrow> keeps_reader (app f)" for c app
    using assms(2) by (intro post_mono [OF call_back_keeps [OF that]]) (auto dest: reader_part_frame)
  show "post (\<lambda>_ t. frame_value t = v) (call_back (cb_begin_txn cb) (\<lambda>f. f w x) s)"
    "post (\<lambda>_ t. frame_value t = v) (call_back (cb_commit_txn cb) (\<lambda>f. f w x) s)"
    "post (\<lambda>_ t. frame_value t = v)
      (call_back (cb_table_schema cb) (\<lambda>f. f w r b1 n1 s1 b2 n2 s2) s)"
    "post (\<lambda>_ t. frame_value t = v) (call_back (cb_insert_row cb) (\<lambda>f. f w r k1 v1 k2 v2) s)"
    "post (\<lambda>_ t. frame_value t = v)
      (call_back (cb_update_row cb) (\<lambda>f. f w r k1 v1 k3 v3 k2 v2) s)"
    "post (\<lambda>_ t. frame_value t = v) (call_back (cb_delete_row cb) (\<lambda>f. f w r k1 v1 k3 v3) s)"
    using assms(1) by (auto intro!: * simp: callbacks_keep_reader_def)
qed

lemma row_then_frame:
  assumes "frame_value s = v" and "\<And>t. frame_value t = v \<Longrightarrow> post (\<lambda>_ t. frame_value t = v) (k t)"
  shows "post (\<lambda>_ t. frame_value t = v) (check (read_entry A f i n s) k)"
proof (rule post_checkI)
  show "post (\<lambda>_ t. frame_value t = v) (read_entry A f i n s)"
    using read_entry_frame [of s f i n] assms(1) by simp
qed (rule assms(2))

lemma install_schema_frame:
  assumes cb: "callbacks_keep_reader cb" and v: "frame_value s = v"
  shows "post (\<lambda>_ t. frame_value t = v) (install_schema A cb w r kj rj s)"
proof -
  have rep: "post (\<lambda>_ t. frame_value t = v) (schema_list_replace (ucast r) s)"
    using schema_list_replace_frame [of s] v by simp
  show ?thesis
    using v by (cases kj) (auto simp: install_schema_def check_get_def Let_def
        callbacks_frame [OF cb] intro!: post_andthenI [OF rep])
qed

lemma deliver_row_post:
  assumes s: "P s"
    and rd: "\<And>f i b t. P t \<Longrightarrow> post (\<lambda>_. P) (read_entry A f i b t)"
    and ins: "\<And>r k1 v1 k2 v2 t. P t \<Longrightarrow>
      post (\<lambda>_. P) (call_back (cb_insert_row cb) (\<lambda>f. f w r k1 v1 k2 v2) t)"
    and upd: "\<And>r k1 v1 k3 v3 k2 v2 t. P t \<Longrightarrow>
      post (\<lambda>_. P) (call_back (cb_update_row cb) (\<lambda>f. f w r k1 v1 k3 v3 k2 v2) t)"
    and del: "\<And>r k1 v1 k3 v3 t. P t \<Longrightarrow>
      post (\<lambda>_. P) (call_back (cb_delete_row cb) (\<lambda>f. f w r k1 v1 k3 v3) t)"
  shows "post (\<lambda>_. P) (deliver_msg A cb w (Insert r k n) s)"
    and "post (\<lambda>_. P) (deliver_msg A cb w (Update r k l n) s)"
    and "post (\<lambda>_. P) (deliver_msg A cb w (Delete r k l) s)"
proof -
  note D = decode_opt_post [where P = P, OF _ rd] post_checkI [OF rd]
  show "post (\<lambda>_. P) (deliver_msg A cb w (Insert r k n) s)"
    using s by (auto intro!: D ins split: option.split)
  show "post (\<lambda>_. P) (deliver_msg A cb w (Update r k l n) s)"
    using s by (auto intro!: D upd split: option.split)
  show "post (\<lambda>_. P) (deliver_msg A cb w (Delete r k l) s)"
    using s by (auto intro!: D del split: option.split)
qed

lemma deliver_msg_frame:
  assumes cb: "callbacks_keep_reader cb" and v: "frame_value s = v"
  shows "post (\<lambda>_ t. frame_value t = v) (deliver_msg A cb w m s)"
proof -
  have rd: "post (\<lambda>_ t. frame_value t = v) (read_entry A f i b t)" if "frame_value t = v" for f i b t
    using read_entry_frame [of t f i b] that by simp
  note R = deliver_row_post [where P = "\<lambda>t. frame_value t = v", OF v rd callbacks_frame(4-6) [OF cb]]
  show ?thesis
    by (cases m) (simp_all only: R deliver_msg.simps(1-3) callbacks_frame [OF cb v]
        install_schema_frame [OF cb v])
qed

lemma process_messages_deliver:
  assumes cb: "callbacks_keep_reader cb" and v: "frame_value s = frame_of ms"
    and n: "n \<le> length ms"
  shows "process_messages A cb [0] w [n..<length ms] s = deliver_all A cb w (drop n ms) s"
  using n v
proof (induction "length ms - n" arbitrary: n s)
  case 0
  then show ?case by simp
next
  case (Suc d)
  then have lt: "n < length ms" by simp
  have IH: "frame_value t = frame_of ms \<Longrightarrow>
      process_messages A cb [0] w [Suc n..<length ms] t = deliver_all A cb w (drop (Suc n) ms) t" for t
    using Suc.hyps(1) [of "Suc n" t] Suc.hyps(2) lt by simp
  have "post (\<lambda>_ t. frame_value t = frame_of ms) (deliver_msg A cb w (ms ! n) s)"
    using cb Suc.prems(2) by (rule deliver_msg_frame)
  then have "check (deliver_msg A cb w (ms ! n) s) (process_messages A cb [0] w [Suc n..<length ms]) =
      check (deliver_msg A cb w (ms ! n) s) (deliver_all A cb w (drop (Suc n) ms))"
    using IH by (cases "deliver_msg A cb w (ms ! n) s") auto
  with lt Suc.prems show ?case
    by (simp add: upt_conv_Cons Cons_nth_drop_Suc [symmetric] process_message_deliver)
qed

lemma process_frame_deliver:
  assumes "callbacks_keep_reader cb" and v: "frame_value s = frame_of ms"
  shows "process_frame A cb w s = deliver_all A cb w ms s"
proof -
  have "avro_value_get_by_index A (frame_value s) [] 0 = (0, [0])"
    using v index_record [of "frame_value s" "[]"] by (simp add: frame_of_def)
  moreover have "avro_value_get_size A (frame_value s) [0] = (0, length ms)"
    using v size_array [of "frame_value s" "[0]" _ "map enc_msg ms"] by (simp add: frame_of_def)
  ultimately show ?thesis
    using process_messages_deliver [OF assms, of 0] by (simp add: process_frame_def)
qed

lemma read_entirely_written:
  assumes "avro_value_write A v n = (0, buf)" and "has_schema v s" and "has_schema u s"
  shows "read_entirely A u buf = (0, v)"
    and "rest \<noteq> [] \<Longrightarrow> read_entirely A u (buf @ rest) = (EINVAL, v)"
proof -
  note rd = read_write [OF assms]
  from rd [of "[]"] skip [of 1 "[]"] show "read_entirely A u buf = (0, v)"
    by (simp add: read_entirely_def)
  assume "rest \<noteq> []"
  then have "\<not> length rest < 1" by (cases rest) simp_all
  with rd [of rest] skip [of 1 rest] show "read_entirely A u (buf @ rest) = (EINVAL, v)"
    by (simp add: read_entirely_def)
qed

lemma parse_frame_deliver:
  assumes "avro_value_write A (frame_of ms) n = (0, buf)"
    and "has_schema (frame_value s) frame_schema" and "callbacks_keep_reader cb"
  shows "parse_frame A cb w buf s =
      check (deliver_all A cb w ms (s\<lparr>frame_value := frame_of ms\<rparr>)) (Ret 0)"
    and "rest \<noteq> [] \<Longrightarrow> parse_frame A cb w (buf @ rest) s =
      Ret EINVAL (s\<lparr>frame_value := frame_of ms\<rparr>)"
  using read_entirely_written [OF assms(1) frame_of_schema assms(2)] assms(3)
  by (simp_all add: parse_frame_def process_frame_deliver)

end

section \<open>Row messages and callbacks\<close>

text \<open>
  Row messages reach the application after decoding, which only touches the frame reader: a
  condition \<open>P\<close> that decoding keeps holds when the callback runs.
\<close>

lemma decode_opt_wp:
  assumes "P s" and "\<And>f i b t. P t \<Longrightarrow> post (\<lambda>_. P) (read_entry A f i b t)"
    and "\<And>e t. P t \<Longrightarrow> e \<noteq> 0 \<Longrightarrow> Q e t" and "\<And>t. P t \<Longrightarrow> post Q (k b t)"
  shows "post Q (decode_opt A f i b k s)"
proof (cases b)
  case None
  with assms show ?thesis by (simp add: decode_opt_def)
next
  case (Some bin)
  have "post (\<lambda>_. P) (read_entry A f i bin s)" using assms(1) by (rule assms(2))
  with Some assms show ?thesis by (cases "read_entry A f i bin s") (auto simp: decode_opt_def)
qed

lemma read_then_wp:
  assumes "P s" and "\<And>f i b t. P t \<Longrightarrow> post (\<lambda>_. P) (read_entry A f i b t)"
    and "\<And>e t. P t \<Longrightarrow> e \<noteq> 0 \<Longrightarrow> Q e t" and "\<And>t. P t \<Longrightarrow> post Q (k t)"
  shows "post Q (check (read_entry A f i b s) k)"
proof -
  have "post (\<lambda>_. P) (read_entry A f i b s)" using assms(1) by (rule assms(2))
  with assms show ?thesis by (cases "read_entry A f i b s") auto
qed

lemma deliver_row_wp:
  assumes s: "P s" and rd: "\<And>f i b t. P t \<Longrightarrow> post (\<lambda>_. P) (read_entry A f i b t)"
    and err: "\<And>e t. P t \<Longrightarrow> e \<noteq> 0 \<Longrightarrow> Q e t"
  shows "(\<And>v1 v2 t. P t \<Longrightarrow> post Q (call_back (cb_insert_row cb) (\<lambda>f. f w r k v1 n v2) t)) \<Longrightarrow>
      post Q (deliver_msg A cb w (Insert r k n) s)"
    and "(\<And>v1 v2 v3 t. P t \<Longrightarrow> post Q (call_back (cb_update_row cb) (\<lambda>f. f w r k v1 l v2 n v3) t)) \<Longrightarrow>
      post Q (deliver_msg A cb w (Update r k l n) s)"
    and "(\<And>v1 v2 t. P t \<Longrightarrow> post Q (call_back (cb_delete_row cb) (\<lambda>f. f w r k v1 l v2) t)) \<Longrightarrow>
      post Q (deliver_msg A cb w (Delete r k l) s)"
proof -
  note D = decode_opt_wp [where P = P, OF _ rd err] read_then_wp [where P = P, OF _ rd err]
  show "post Q (deliver_msg A cb w (Insert r k n) s)"
    if "\<And>v1 v2 t. P t \<Longrightarrow> post Q (call_back (cb_insert_row cb) (\<lambda>f. f w r k v1 n v2) t)"
    using s err by (auto intro!: D that split: option.split)
  show "post Q (deliver_msg A cb w (Update r k l n) s)"
    if "\<And>v1 v2 v3 t. P t \<Longrightarrow> post Q (call_back (cb_update_row cb) (\<lambda>f. f w r k v1 l v2 n v3) t)"
    using s err by (auto intro!: D that split: option.split)
  show "post Q (deliver_msg A cb w (Delete r k l) s)"
    if "\<And>v1 v2 t. P t \<Longrightarrow> post Q (call_back (cb_delete_row cb) (\<lambda>f. f w r k v1 l v2) t)"
    using s err by (auto intro!: D that split: option.split)
qed

lemma call_back_Some: "call_back (Some f) app s = check (app f s) (Ret 0)"
  by (simp add: call_back_def)

end
