(* ===== verification/Checkpoint.thy ===== *)
theory Checkpoint
  imports Producer Frame_Delivery
begin

text \<open>
  Correctness of the producer's checkpoints (\<open>kafka/bottledwater.c\<close>).

  The circular buffer is read as the list of its slots in use (\<open>slots\<close>). The invariant
  \<open>xact_inv\<close> connects the buffer with the messages Kafka has not acknowledged and with the
  history of the run; every operation of the producer keeps it, and it implies that the
  position reported to PostgreSQL never passes a transaction with an unacknowledged message.
\<close>


section \<open>The slots in use\<close>

text \<open>The slots from the tail to the head of the buffer, both included.\<close>

definition slots :: "nat \<Rightarrow> nat \<Rightarrow> nat list" where
  "slots t h = map (\<lambda>k. (t + k) mod MAX_IN_FLIGHT_TRANSACTIONS)
     [0..<Suc ((h + MAX_IN_FLIGHT_TRANSACTIONS - t) mod MAX_IN_FLIGHT_TRANSACTIONS)]"

definition next_slot :: "nat \<Rightarrow> nat" where
  "next_slot i = (i + 1) mod MAX_IN_FLIGHT_TRANSACTIONS"

definition slot_dist :: "nat \<Rightarrow> nat \<Rightarrow> nat" where
  "slot_dist t h = (h + MAX_IN_FLIGHT_TRANSACTIONS - t) mod MAX_IN_FLIGHT_TRANSACTIONS"

lemma slots_alt:
  "slots t h = map (\<lambda>k. (t + k) mod MAX_IN_FLIGHT_TRANSACTIONS) [0..<Suc (slot_dist t h)]"
  by (simp add: slots_def slot_dist_def)

lemma capacity_pos [simp]: "0 < MAX_IN_FLIGHT_TRANSACTIONS" "Suc 0 < MAX_IN_FLIGHT_TRANSACTIONS"
  by (simp_all add: MAX_IN_FLIGHT_TRANSACTIONS_def)

lemma slot_dist_eq:
  assumes "t < MAX_IN_FLIGHT_TRANSACTIONS" and "h < MAX_IN_FLIGHT_TRANSACTIONS"
  shows "slot_dist t h = (if t \<le> h then h - t else h + MAX_IN_FLIGHT_TRANSACTIONS - t)"
proof (cases "t \<le> h")
  case True
  then have "slot_dist t h = (h - t + MAX_IN_FLIGHT_TRANSACTIONS) mod MAX_IN_FLIGHT_TRANSACTIONS"
    by (simp add: slot_dist_def)
  also have "\<dots> = h - t" using assms by simp
  finally show ?thesis using True by simp
next
  case False
  with assms show ?thesis by (simp add: slot_dist_def)
qed

lemma next_slot_eq:
  "i < MAX_IN_FLIGHT_TRANSACTIONS \<Longrightarrow>
    next_slot i = (if Suc i = MAX_IN_FLIGHT_TRANSACTIONS then 0 else Suc i)"
  by (auto simp: next_slot_def)

lemma next_slot_less [simp]: "next_slot i < MAX_IN_FLIGHT_TRANSACTIONS"
  by (simp add: next_slot_def)

lemma slot_dist_next_tail:
  assumes "t < MAX_IN_FLIGHT_TRANSACTIONS" "h < MAX_IN_FLIGHT_TRANSACTIONS" "t \<noteq> h"
  shows "slot_dist t h = Suc (slot_dist (next_slot t) h)"
  using assms by (cases "Suc t = MAX_IN_FLIGHT_TRANSACTIONS") (auto simp: slot_dist_eq next_slot_eq)

lemma slot_dist_next_head:
  assumes "t < MAX_IN_FLIGHT_TRANSACTIONS" "h < MAX_IN_FLIGHT_TRANSACTIONS" "next_slot h \<noteq> t"
  shows "slot_dist t (next_slot h) = Suc (slot_dist t h)"
  using assms by (cases "Suc h = MAX_IN_FLIGHT_TRANSACTIONS") (auto simp: slot_dist_eq next_slot_eq)

lemma slot_dist_less: "slot_dist t h < MAX_IN_FLIGHT_TRANSACTIONS"
  by (simp add: slot_dist_def)

lemma slots_same [simp]: "t < MAX_IN_FLIGHT_TRANSACTIONS \<Longrightarrow> slots t t = [t]"
  by (simp add: slots_alt slot_dist_eq)

lemma slots_Cons:
  assumes "t < MAX_IN_FLIGHT_TRANSACTIONS" "h < MAX_IN_FLIGHT_TRANSACTIONS" "t \<noteq> h"
  shows "slots t h = t # slots (next_slot t) h"
proof -
  have "(t + Suc k) mod MAX_IN_FLIGHT_TRANSACTIONS = (next_slot t + k) mod MAX_IN_FLIGHT_TRANSACTIONS" for k
    by (simp add: next_slot_def mod_simps)
  moreover have "[0..<Suc (slot_dist t h)] = 0 # map Suc [0..<Suc (slot_dist (next_slot t) h)]"
    by (simp add: slot_dist_next_tail [OF assms] map_Suc_upt upt_rec [of 0 "Suc (Suc _)"] del: upt_Suc)
  ultimately show ?thesis
    using assms(1) by (simp add: slots_alt comp_def del: upt_Suc)
qed

lemma dist_reaches:
  assumes "t < MAX_IN_FLIGHT_TRANSACTIONS" "h < MAX_IN_FLIGHT_TRANSACTIONS"
  shows "(t + slot_dist t h) mod MAX_IN_FLIGHT_TRANSACTIONS = h"
  using assms by (simp add: slot_dist_eq)

lemma slots_snoc:
  assumes "t < MAX_IN_FLIGHT_TRANSACTIONS" "h < MAX_IN_FLIGHT_TRANSACTIONS" "next_slot h \<noteq> t"
  shows "slots t (next_slot h) = slots t h @ [next_slot h]"
proof -
  have "[0..<Suc (slot_dist t (next_slot h))] = [0..<Suc (slot_dist t h)] @ [slot_dist t (next_slot h)]"
    by (simp add: slot_dist_next_head [OF assms])
  with dist_reaches [OF assms(1) next_slot_less, of h] show ?thesis
    by (simp add: slots_alt del: upt_Suc)
qed

lemma slots_last: "t < MAX_IN_FLIGHT_TRANSACTIONS \<Longrightarrow> h < MAX_IN_FLIGHT_TRANSACTIONS \<Longrightarrow> last (slots t h) = h"
  using dist_reaches by (simp add: slots_alt)

lemma slots_not_Nil [simp]: "slots t h \<noteq> []"
  by (simp add: slots_alt)

lemma slots_bound: "i \<in> set (slots t h) \<Longrightarrow> i < MAX_IN_FLIGHT_TRANSACTIONS"
  by (auto simp: slots_alt)

lemma length_slots: "length (slots t h) \<le> MAX_IN_FLIGHT_TRANSACTIONS"
  using slot_dist_less [of t h] by (simp add: slots_alt)

lemma distinct_slots:
  assumes "t < MAX_IN_FLIGHT_TRANSACTIONS"
  shows "distinct (slots t h)"
proof -
  have wrap: "(t + k) mod MAX_IN_FLIGHT_TRANSACTIONS =
      (if t + k < MAX_IN_FLIGHT_TRANSACTIONS then t + k else t + k - MAX_IN_FLIGHT_TRANSACTIONS)"
    if "k < MAX_IN_FLIGHT_TRANSACTIONS" for k
    using that assms by (simp add: le_mod_geq)
  have "inj_on (\<lambda>k. (t + k) mod MAX_IN_FLIGHT_TRANSACTIONS) {0..<Suc (slot_dist t h)}"
    using slot_dist_less [of t h] by (auto simp: inj_on_def wrap split: if_splits)
  then show ?thesis by (simp add: slots_alt distinct_map del: upt_Suc)
qed

lemma slots_eq_single: "t < MAX_IN_FLIGHT_TRANSACTIONS \<Longrightarrow> h < MAX_IN_FLIGHT_TRANSACTIONS \<Longrightarrow>
    slots t h = [i] \<longleftrightarrow> t = h \<and> i = t"
  by (cases "t = h") (auto simp: slots_Cons)

lemma next_slot_fresh:
  assumes "t < MAX_IN_FLIGHT_TRANSACTIONS" "h < MAX_IN_FLIGHT_TRANSACTIONS" "next_slot h \<noteq> t"
  shows "next_slot h \<notin> set (slots t h)"
  using distinct_slots [OF assms(1), of "next_slot h"] slots_snoc [OF assms] by simp


section \<open>The invariant\<close>

text \<open>
  \<open>M\<close> is the multiset of messages that Kafka has not reported yet. The history of the run is a
  log of committed transactions, each with the LSN of its commit and the messages sent for it,
  the flag \<open>op\<close> whether a transaction is open, and the messages \<open>cur\<close> sent for it so far.
\<close>

type_synonym txn_log = "(u64 \<times> kafka_msg list) list"

definition slot_of :: "kafka_msg \<Rightarrow> nat" where
  "slot_of m = env_xact (msg_env m)"

definition unacked :: "kafka_msg multiset \<Rightarrow> nat \<Rightarrow> kafka_msg multiset" where
  "unacked M i = filter_mset (\<lambda>m. slot_of m = i) M"

definition completed :: "transaction_info \<Rightarrow> bool" where
  "completed x \<longleftrightarrow> pending_events x = 0 \<and> (commit_lsn x > 0 \<or> xid x = 0)"

text \<open>The slots whose transaction has committed.\<close>

definition closed :: "bool \<Rightarrow> nat \<Rightarrow> nat \<Rightarrow> nat list" where
  "closed op t h = (if op then butlast (slots t h) else slots t h)"

definition last_lsn :: "txn_log \<Rightarrow> u64" where
  "last_lsn log = (if log = [] then 0 else fst (last log))"

definition ring_inv :: "nat \<Rightarrow> nat \<Rightarrow> bool" where
  "ring_inv t h \<longleftrightarrow> t < MAX_IN_FLIGHT_TRANSACTIONS \<and> h < MAX_IN_FLIGHT_TRANSACTIONS"

definition count_inv :: "kafka_msg multiset \<Rightarrow> (nat \<Rightarrow> transaction_info) \<Rightarrow> nat \<Rightarrow> nat \<Rightarrow> bool" where
  "count_inv M xl t h \<longleftrightarrow>
     (\<forall>i. pending_events (xl i) = int (size (unacked M i))) \<and>
     (\<forall>m \<in># M. slot_of m \<in> set (slots t h))"

definition slot_logged :: "kafka_msg multiset \<Rightarrow> (nat \<Rightarrow> transaction_info) \<Rightarrow> nat \<Rightarrow> u64 \<times> kafka_msg list \<Rightarrow> bool" where
  "slot_logged M xl i e \<longleftrightarrow> commit_lsn (xl i) = fst e \<and> unacked M i \<subseteq># mset (snd e)"

text \<open>The given slots are the last transactions of the log.\<close>

definition slots_logged :: "kafka_msg multiset \<Rightarrow> (nat \<Rightarrow> transaction_info) \<Rightarrow> nat list \<Rightarrow> txn_log \<Rightarrow> bool" where
  "slots_logged M xl is log \<longleftrightarrow>
     (\<exists>old recent. log = old @ recent \<and> list_all2 (slot_logged M xl) is recent)"

definition log_inv :: "bool \<Rightarrow> txn_log \<Rightarrow> kafka_msg list \<Rightarrow> kafka_msg multiset \<Rightarrow>
    (nat \<Rightarrow> transaction_info) \<Rightarrow> nat \<Rightarrow> nat \<Rightarrow> bool" where
  "log_inv op log cur M xl t h \<longleftrightarrow>
     sorted_wrt (<) (map fst log) \<and>
     slots_logged M xl (closed op t h) log \<and>
     (\<forall>i \<in> set (closed op t h). commit_lsn (xl i) > 0 \<or> xid (xl i) = 0) \<and>
     (op \<longrightarrow> commit_lsn (xl h) = 0 \<and> unacked M h \<subseteq># mset cur \<and> (xid (xl h) = 0 \<longrightarrow> log = []))"

definition fsync_inv :: "bool \<Rightarrow> txn_log \<Rightarrow> kafka_msg multiset \<Rightarrow> (nat \<Rightarrow> transaction_info) \<Rightarrow>
    nat \<Rightarrow> nat \<Rightarrow> u64 \<Rightarrow> bool" where
  "fsync_inv op log M xl t h f \<longleftrightarrow>
     f \<le> last_lsn log \<and>
     (\<forall>i \<in> set (closed op t h). f \<le> commit_lsn (xl i) \<and>
        (unacked M i \<noteq> {#} \<longrightarrow> f < commit_lsn (xl i)))"

definition xact_inv :: "bool \<Rightarrow> txn_log \<Rightarrow> kafka_msg list \<Rightarrow> kafka_msg multiset \<Rightarrow>
    (nat \<Rightarrow> transaction_info) \<Rightarrow> nat \<Rightarrow> nat \<Rightarrow> u64 \<Rightarrow> bool" where
  "xact_inv op log cur M xl t h f \<longleftrightarrow>
     ring_inv t h \<and> count_inv M xl t h \<and> log_inv op log cur M xl t h \<and> fsync_inv op log M xl t h f"

text \<open>Nothing is left to checkpoint.\<close>

definition settled :: "(nat \<Rightarrow> transaction_info) \<Rightarrow> nat \<Rightarrow> nat \<Rightarrow> bool" where
  "settled xl t h \<longleftrightarrow> t = h \<or> \<not> completed (xl t)"

lemmas xact_inv_defs = xact_inv_def ring_inv_def count_inv_def log_inv_def fsync_inv_def

subsection \<open>Advancing the tail\<close>

lemma closed_Cons:
  assumes "ring_inv t h" "t \<noteq> h"
  shows "closed op t h = t # closed op (next_slot t) h"
  using assms by (simp add: closed_def ring_inv_def slots_Cons)

lemma closed_single: "ring_inv t t \<Longrightarrow> closed op t t = (if op then [] else [t])"
  by (simp add: closed_def ring_inv_def)

lemma unacked_empty: "unacked M i = {#} \<longleftrightarrow> (\<forall>m \<in># M. slot_of m \<noteq> i)"
  unfolding unacked_def set_mset_eq_empty_iff [symmetric] by auto

lemma pending_none:
  "count_inv M xl t h \<Longrightarrow> pending_events (xl i) = 0 \<longleftrightarrow> unacked M i = {#}"
  by (simp add: count_inv_def)

lemma sorted_last_lsn:
  "sorted_wrt (<) (map fst (log :: txn_log)) \<Longrightarrow> e \<in> set log \<Longrightarrow> fst e \<le> last_lsn log"
  by (induction log) (auto simp: last_lsn_def less_le_trans dest: less_imp_le)

lemma log_inv_recent:
  assumes "log_inv op log cur M xl t h" and "closed op t h = i # is"
  obtains e where "e \<in> set log" "commit_lsn (xl i) = fst e"
    "\<forall>j \<in> set is. commit_lsn (xl i) < commit_lsn (xl j)"
proof -
  from assms obtain old recent where l: "log = old @ recent"
      "list_all2 (slot_logged M xl) (i # is) recent" "sorted_wrt (<) (map fst log)"
    by (auto simp: log_inv_def slots_logged_def)
  then obtain e rest where r: "recent = e # rest" "slot_logged M xl i e" "list_all2 (slot_logged M xl) is rest"
    by (auto simp: list_all2_Cons1)
  have "commit_lsn (xl i) < commit_lsn (xl j)" if "j \<in> set is" for j
  proof -
    from that obtain k where k: "k < length is" "j = is ! k" by (auto simp: in_set_conv_nth)
    with r(3) have "k < length rest" "commit_lsn (xl j) = fst (rest ! k)"
      by (auto simp: list_all2_conv_all_nth slot_logged_def)
    moreover from this have "fst e < fst (rest ! k)"
      using l r by (simp add: sorted_wrt_append)
    ultimately show ?thesis using r(2) by (simp add: slot_logged_def)
  qed
  then have "\<forall>j \<in> set is. commit_lsn (xl i) < commit_lsn (xl j)" by blast
  with that [of e] l r show ?thesis by (simp add: slot_logged_def)
qed

lemma slots_logged_tl: "slots_logged M xl (i # is) log \<Longrightarrow> slots_logged M xl is log"
proof -
  assume "slots_logged M xl (i # is) log"
  then obtain old e rest where "log = (old @ [e]) @ rest" "list_all2 (slot_logged M xl) is rest"
    by (auto simp: slots_logged_def list_all2_Cons1)
  then show ?thesis unfolding slots_logged_def by blast
qed

text \<open>One round of the loop that is not the last.\<close>

lemma xact_inv_advance:
  assumes inv: "xact_inv op log cur M xl t h f" and ne: "t \<noteq> h" and c: "completed (xl t)"
  shows "xact_inv op log cur M xl (next_slot t) h (commit_lsn (xl t))"
    and "f \<le> commit_lsn (xl t)"
proof -
  let ?t = "next_slot t"
  from inv have r: "ring_inv t h" and n: "count_inv M xl t h" and l: "log_inv op log cur M xl t h"
    and fs: "fsync_inv op log M xl t h f"
    by (simp_all add: xact_inv_def)
  have cl: "closed op t h = t # closed op ?t h" using r ne by (rule closed_Cons)
  have none: "unacked M t = {#}" using c pending_none [OF n] by (simp add: completed_def)
  obtain e where e: "e \<in> set log" "commit_lsn (xl t) = fst e"
      "\<forall>j \<in> set (closed op ?t h). commit_lsn (xl t) < commit_lsn (xl j)"
    using log_inv_recent [OF l cl] .
  have "ring_inv ?t h" using r by (simp add: ring_inv_def)
  moreover have "count_inv M xl ?t h"
    using n none slots_Cons [of t h] r ne
    by (auto simp: count_inv_def ring_inv_def unacked_empty)
  moreover have "log_inv op log cur M xl ?t h"
    using l cl slots_logged_tl [of M xl t "closed op ?t h" log] by (simp add: log_inv_def)
  moreover have "fsync_inv op log M xl ?t h (commit_lsn (xl t))"
    using e l sorted_last_lsn [of log e] by (auto simp: fsync_inv_def log_inv_def)
  ultimately show "xact_inv op log cur M xl ?t h (commit_lsn (xl t))"
    by (simp add: xact_inv_def)
  show "f \<le> commit_lsn (xl t)" using fs cl by (simp add: fsync_inv_def)
qed

text \<open>The round at the head of the buffer.\<close>

lemma xact_inv_at_head:
  assumes inv: "xact_inv op log cur M xl t t f" and c: "completed (xl t)"
  shows "xact_inv op log cur M xl t t (commit_lsn (xl t))" and "f \<le> commit_lsn (xl t)"
proof -
  from inv have r: "ring_inv t t" and n: "count_inv M xl t t" and l: "log_inv op log cur M xl t t"
    and fs: "fsync_inv op log M xl t t f"
    by (simp_all add: xact_inv_def)
  have none: "unacked M t = {#}" using c pending_none [OF n] by (simp add: completed_def)
  have "fsync_inv op log M xl t t (commit_lsn (xl t)) \<and> f \<le> commit_lsn (xl t)"
  proof (cases op)
    case True
    with l c have "commit_lsn (xl t) = 0" "log = []" by (auto simp: log_inv_def completed_def)
    with fs True r show ?thesis by (simp add: fsync_inv_def closed_single last_lsn_def)
  next
    case False
    then have cl: "closed op t t = [t]" using r by (simp add: closed_single)
    obtain e where "e \<in> set log" "commit_lsn (xl t) = fst e" using log_inv_recent [OF l cl] .
    with l sorted_last_lsn [of log e] fs cl none show ?thesis
      by (simp add: fsync_inv_def log_inv_def)
  qed
  with r n l show "xact_inv op log cur M xl t t (commit_lsn (xl t))" "f \<le> commit_lsn (xl t)"
    by (simp_all add: xact_inv_def)
qed

subsection \<open>The checkpoint loop\<close>

abbreviation state_inv :: "bool \<Rightarrow> txn_log \<Rightarrow> kafka_msg list \<Rightarrow> kafka_msg multiset \<Rightarrow>
    ('w, 'z) producer_context_scheme \<Rightarrow> bool" where
  "state_inv op log cur M s \<equiv>
     xact_inv op log cur M (xact_list s) (xact_tail s) (xact_head s) (fsync_lsn s)"

abbreviation state_settled :: "('w, 'z) producer_context_scheme \<Rightarrow> bool" where
  "state_settled s \<equiv> settled (xact_list s) (xact_tail s) (xact_head s)"

text \<open>What a checkpoint may change.\<close>

definition checkpointed :: "('w, 'z) producer_context_scheme \<Rightarrow> ('w, 'z) producer_context_scheme \<Rightarrow> bool" where
  "checkpointed s t \<longleftrightarrow> (\<exists>f b i. fsync_lsn s \<le> f \<and>
     t = s\<lparr>fsync_lsn := f, taking_snapshot := b, xact_tail := i\<rparr>)"

lemma checkpointed_refl: "checkpointed s s"
  unfolding checkpointed_def
  by (intro exI [of _ "fsync_lsn s"] exI [of _ "taking_snapshot s"] exI [of _ "xact_tail s"]) simp

lemma checkpointedI:
  "fsync_lsn s \<le> f \<Longrightarrow> checkpointed (s\<lparr>fsync_lsn := f, taking_snapshot := b, xact_tail := i\<rparr>) t \<Longrightarrow>
    checkpointed s t"
  unfolding checkpointed_def by (elim exE conjE, intro exI conjI) (simp_all add: order_trans)

lemma checkpoint_step:
  assumes "completed (xact_list s (xact_tail s))"
  shows "checkpoint_loop (Suc n) s =
     (let x = xact_list s (xact_tail s);
          t = s\<lparr>fsync_lsn := commit_lsn x,
                taking_snapshot := taking_snapshot s \<and> \<not> (xid x = 0 \<and> commit_lsn x > 0)\<rparr>
      in if xact_tail s = xact_head s then Ret () t
         else checkpoint_loop n (t\<lparr>xact_tail := next_slot (xact_tail s)\<rparr>))"
proof (cases "xid (xact_list s (xact_tail s)) = 0 \<and> commit_lsn (xact_list s (xact_tail s)) > 0")
  case True
  with assms show ?thesis
    by (cases "xact_tail s = xact_head s") (simp_all add: completed_def Let_def next_slot_def)
next
  case False
  with assms consider "xid (xact_list s (xact_tail s)) \<noteq> 0" "commit_lsn (xact_list s (xact_tail s)) > 0"
    | "xid (xact_list s (xact_tail s)) = 0" "commit_lsn (xact_list s (xact_tail s)) = 0"
    by (auto simp: completed_def word_gt_0)
  then show ?thesis
  proof cases
    case 1
    with assms show ?thesis
      by (cases "xact_tail s = xact_head s") (simp_all add: completed_def Let_def next_slot_def)
  next
    case 2
    with assms show ?thesis
      by (cases "xact_tail s = xact_head s") (simp_all add: completed_def Let_def next_slot_def)
  qed
qed

lemma checkpoint_loop_inv:
  assumes "state_inv op log cur M s" and "length (slots (xact_tail s) (xact_head s)) \<le> n"
  shows "\<exists>t. checkpoint_loop n s = Ret () t \<and> state_inv op log cur M t \<and> state_settled t \<and> checkpointed s t"
  using assms
proof (induction n arbitrary: s)
  case (Suc n)
  let ?x = "xact_list s (xact_tail s)"
  show ?case
  proof (cases "completed ?x")
    case False
    then have "checkpoint_loop (Suc n) s = Ret () s" by (auto simp: completed_def Let_def)
    with False Suc.prems checkpointed_refl show ?thesis by (auto simp: settled_def)
  next
    case True
    define b where "b = (taking_snapshot s \<and> \<not> (xid ?x = 0 \<and> commit_lsn ?x > 0))"
    have b: "checkpoint_loop (Suc n) s =
       (let t = s\<lparr>fsync_lsn := commit_lsn ?x, taking_snapshot := b\<rparr> in
        if xact_tail s = xact_head s then Ret () t
        else checkpoint_loop n (t\<lparr>xact_tail := next_slot (xact_tail s)\<rparr>))"
      using checkpoint_step [OF True, of n] by (simp only: b_def Let_def)
    show ?thesis
    proof (cases "xact_tail s = xact_head s")
      case eq: True
      with True Suc.prems(1) have "xact_inv op log cur M (xact_list s) (xact_head s) (xact_head s) (commit_lsn ?x)"
        "fsync_lsn s \<le> commit_lsn ?x"
        using xact_inv_at_head [of op log cur M "xact_list s" "xact_head s" "fsync_lsn s"] by simp_all
      moreover have "checkpointed s (s\<lparr>fsync_lsn := commit_lsn ?x, taking_snapshot := b\<rparr>)"
        using checkpointedI [OF calculation(2) checkpointed_refl, of "xact_tail s" b] by simp
      ultimately show ?thesis using b eq by (simp add: settled_def Let_def del: checkpoint_loop.simps)
    next
      case False
      let ?s = "s\<lparr>fsync_lsn := commit_lsn ?x, taking_snapshot := b, xact_tail := next_slot (xact_tail s)\<rparr>"
      have inv: "state_inv op log cur M ?s" and le: "fsync_lsn s \<le> commit_lsn ?x"
        using xact_inv_advance [OF Suc.prems(1) False True] by simp_all
      have "length (slots (xact_tail ?s) (xact_head ?s)) \<le> n"
        using Suc.prems False by (simp add: slots_Cons xact_inv_def ring_inv_def)
      from Suc.IH [OF inv this] obtain t where t: "checkpoint_loop n ?s = Ret () t"
          "state_inv op log cur M t" "state_settled t" "checkpointed ?s t"
        by blast
      from b False t(1) have "checkpoint_loop (Suc n) s = Ret () t" by (simp add: Let_def)
      with t checkpointedI [OF le t(4)] show ?thesis by blast
    qed
  qed
qed simp

lemma maybe_checkpoint_inv:
  assumes "state_inv op log cur M s"
  obtains t where "maybe_checkpoint s = Ret () t" "state_inv op log cur M t" "state_settled t"
    "checkpointed s t"
  using checkpoint_loop_inv [OF assms length_slots] that unfolding maybe_checkpoint_def by blast


section \<open>Delivery reports\<close>

lemma unacked_add [simp]:
  "unacked (add_mset m M) i = (if slot_of m = i then add_mset m (unacked M i) else unacked M i)"
  by (simp add: unacked_def)

lemma unacked_mono: "M \<subseteq># N \<Longrightarrow> unacked M i \<subseteq># unacked N i"
  by (simp add: unacked_def multiset_filter_mono)

lemma slots_logged_mono:
  assumes "slots_logged M xl is log" and "\<And>i. i \<in> set is \<Longrightarrow> unacked N i \<subseteq># unacked M i"
    and "\<And>i. i \<in> set is \<Longrightarrow> commit_lsn (yl i) = commit_lsn (xl i)"
  shows "slots_logged N yl is log"
proof -
  from assms(1) obtain old recent where r: "log = old @ recent" "list_all2 (slot_logged M xl) is recent"
    by (auto simp: slots_logged_def)
  from r(2) have "list_all2 (slot_logged N yl) is recent"
    by (rule list.rel_mono_strong)
      (auto simp: slot_logged_def assms(3) intro: subset_mset.order_trans [OF assms(2)])
  with r(1) show ?thesis by (auto simp: slots_logged_def)
qed

text \<open>Acknowledging messages keeps the invariant.\<close>

lemma xact_inv_mono:
  assumes inv: "xact_inv op log cur M xl t h f" and sub: "N \<subseteq># M"
    and same: "\<And>i. commit_lsn (yl i) = commit_lsn (xl i) \<and> xid (yl i) = xid (xl i)"
    and cnt: "\<And>i. pending_events (yl i) = int (size (unacked N i))"
  shows "xact_inv op log cur N yl t h f"
proof -
  have un: "unacked N i \<subseteq># unacked M i" for i using sub by (rule unacked_mono)
  have "log_inv op log cur N yl t h"
    using inv same un slots_logged_mono [of M xl "closed op t h" log N yl]
    by (auto simp: xact_inv_def log_inv_def intro: subset_mset.order_trans)
  moreover have "count_inv N yl t h"
    using inv cnt sub by (auto simp: xact_inv_def count_inv_def dest: mset_subset_eqD)
  moreover have "fsync_inv op log N yl t h f"
  proof -
    have "unacked M i \<noteq> {#}" if "unacked N i \<noteq> {#}" for i
      using un [of i] that by auto
    with inv same show ?thesis by (auto simp: xact_inv_def fsync_inv_def)
  qed
  ultimately show ?thesis using inv by (simp add: xact_inv_def)
qed

lemma ack_inv:
  assumes "state_inv op log cur M s" and m: "m \<in># M"
  shows "state_inv op log cur (M - {#m#})
      (upd_xact (slot_of m) (\<lambda>x. x\<lparr>pending_events := pending_events x - 1\<rparr>) s)"
proof -
  obtain N where N: "M = add_mset m N" using m by (metis insert_DiffM)
  from assms(1) have p: "pending_events (xact_list s i) = int (size (unacked M i))" for i
    by (simp add: xact_inv_def count_inv_def)
  let ?yl = "(xact_list s)(slot_of m := (xact_list s (slot_of m))
      \<lparr>pending_events := pending_events (xact_list s (slot_of m)) - 1\<rparr>)"
  have "xact_inv op log cur N ?yl (xact_tail s) (xact_head s) (fsync_lsn s)"
    using assms(1) by (rule xact_inv_mono) (auto simp: N p)
  then show ?thesis by (simp add: N upd_xact_def)
qed

lemma pending_pos:
  "state_inv op log cur M s \<Longrightarrow> m \<in># M \<Longrightarrow> 0 < pending_events (xact_list s (slot_of m))"
  using unacked_empty [of M "slot_of m"] pending_none
  by (auto simp: xact_inv_def count_inv_def nonempty_has_size)

text \<open>What the producer's operations leave alone while they wait for Kafka.\<close>

definition calm :: "('w, 'z) producer_context_scheme \<Rightarrow> ('w, 'z) producer_context_scheme \<Rightarrow> bool" where
  "calm s t \<longleftrightarrow> fsync_lsn s \<le> fsync_lsn t \<and> reader_part t = reader_part s \<and>
     recvd_lsn t = recvd_lsn s \<and> output_format t = output_format s"

definition progress :: "('w, 'z) producer_context_scheme \<Rightarrow> ('w, 'z) producer_context_scheme \<Rightarrow> bool" where
  "progress s t \<longleftrightarrow> calm s t \<and> xact_head t = xact_head s \<and> mapper t = mapper s"

lemma progress_refl [simp]: "progress s s"
  by (simp add: progress_def calm_def)

lemma progress_trans: "progress s t \<Longrightarrow> progress t u \<Longrightarrow> progress s u"
  by (auto simp: progress_def calm_def)

lemma checkpointed_progress: "checkpointed s t \<Longrightarrow> progress s t \<and> kafka_outq t = kafka_outq s"
  by (auto simp: checkpointed_def progress_def calm_def reader_part_def)

lemma upd_xact_progress [simp]: "progress s (upd_xact i f s)" "kafka_outq (upd_xact i f s) = kafka_outq s"
  by (simp_all add: upd_xact_def progress_def calm_def reader_part_def)

lemma post_exit_nicely [simp]: "post Q (exit_nicely L n s)"
  unfolding exit_nicely_def
proof (rule post_andthenI [OF post_trivial])
  fix a t
  show "post Q (case mapper t of
      None \<Rightarrow> Undef
    | Some m \<Rightarrow> (case table_mapper_free m of
        Ret _ m \<Rightarrow> andthen (frame_reader_free (t\<lparr>mapper := Some m\<rparr>)) (\<lambda>_ context.
            Exit n (db_client_free L context))
      | _ \<Rightarrow> Undef))"
    by (simp add: prog_simps split: option.split outcome.split)
qed

lemma on_deliver_inv:
  assumes "state_inv op log cur M s" and m: "m \<in># M"
  shows "post (\<lambda>_ t. state_inv op log cur (M - {#m#}) t \<and> state_settled t \<and> progress s t \<and>
      kafka_outq t = kafka_outq s) (on_deliver_msg L m err s)"
proof (cases "err = 0")
  case True
  let ?s = "upd_xact (slot_of m) (\<lambda>x. x\<lparr>pending_events := pending_events x - 1\<rparr>) s"
  obtain t where t: "maybe_checkpoint ?s = Ret () t" "state_inv op log cur (M - {#m#}) t"
      "state_settled t" "checkpointed ?s t"
    using maybe_checkpoint_inv [OF ack_inv [OF assms]] .
  have "progress ?s t" "kafka_outq t = kafka_outq ?s" using checkpointed_progress [OF t(4)] by auto
  then have "progress s t" "kafka_outq t = kafka_outq s"
    by (auto intro: progress_trans [OF upd_xact_progress(1)])
  with True t pending_pos [OF assms] show ?thesis
    by (simp add: on_deliver_msg_def slot_of_def Let_def)
qed (simp add: on_deliver_msg_def)

lemma deliver_reports_inv:
  assumes "state_inv op log cur M s" and "mset (map fst reports) \<subseteq># M" and "op \<or> state_settled s"
  shows "post (\<lambda>_ t. state_inv op log cur (M - mset (map fst reports)) t \<and> (op \<or> state_settled t) \<and>
      progress s t \<and> kafka_outq t = kafka_outq s) (deliver_reports L reports s)"
  using assms
proof (induction reports arbitrary: s M)
  case (Cons r reports)
  obtain m e where r: "r = (m, e)" by (cases r)
  with Cons.prems have m: "m \<in># M" and sub: "mset (map fst reports) \<subseteq># M - {#m#}"
    by (auto simp: insert_subset_eq_iff)
  show ?case
    unfolding r deliver_reports.simps
  proof (rule post_andthenI [OF on_deliver_inv [OF Cons.prems(1) m]])
    fix a t
    assume t: "state_inv op log cur (M - {#m#}) t \<and> state_settled t \<and> progress s t \<and>
        kafka_outq t = kafka_outq s"
    from t have "post (\<lambda>_ u. state_inv op log cur (M - {#m#} - mset (map fst reports)) u \<and>
        (op \<or> state_settled u) \<and> progress t u \<and> kafka_outq u = kafka_outq t) (deliver_reports L reports t)"
      using sub by (intro Cons.IH) auto
    then show "post (\<lambda>_ u. state_inv op log cur (M - mset (map fst ((m, e) # reports))) u \<and>
        (op \<or> state_settled u) \<and> progress s u \<and> kafka_outq u = kafka_outq s) (deliver_reports L reports t)"
      by (rule post_mono) (use t progress_trans in auto)
  qed
qed simp

section \<open>Waiting for Kafka\<close>

text \<open>\<open>H\<close> are messages that are counted but not yet handed to the library.\<close>

definition producer_ok :: "bool \<Rightarrow> txn_log \<Rightarrow> kafka_msg list \<Rightarrow> kafka_msg multiset \<Rightarrow>
    ('w, 'z) producer_context_scheme \<Rightarrow> bool" where
  "producer_ok op log cur H s \<longleftrightarrow>
     state_inv op log cur (mset (kafka_outq s) + H) s \<and> (op \<or> state_settled s)"

lemma kafka_poll_ok:
  assumes ok: "producer_ok op log cur H s" and K: "reports_once K"
  shows "post (\<lambda>_ t. producer_ok op log cur H t \<and> progress s t) (kafka_poll K L timeout s)"
proof -
  obtain reports rest w where p: "rd_kafka_poll K (kafka_outq s) timeout (world s) = (reports, rest, w)"
    by (metis prod.collapse)
  with K have q: "mset (kafka_outq s) = mset (map fst reports) + mset rest"
    unfolding reports_once_def by blast
  let ?s = "s\<lparr>kafka_outq := rest, world := w\<rparr>"
  have "post (\<lambda>_ t. state_inv op log cur (mset (kafka_outq s) + H - mset (map fst reports)) t \<and>
      (op \<or> state_settled t) \<and> progress ?s t \<and> kafka_outq t = kafka_outq ?s) (deliver_reports L reports ?s)"
    using ok q by (intro deliver_reports_inv) (simp_all add: producer_ok_def)
  moreover have "progress s ?s" by (simp add: progress_def calm_def reader_part_def)
  ultimately show ?thesis
    using q by (auto simp: kafka_poll_def p producer_ok_def elim!: post_mono dest: progress_trans)
qed

lemma backpressure_ok:
  assumes "producer_ok op log cur H s" and "reports_once K"
  shows "post (\<lambda>_ t. producer_ok op log cur H t \<and> progress s t) (backpressure K L s)"
  unfolding backpressure_def
proof (rule post_andthenI [OF kafka_poll_ok [OF assms]])
  fix a t
  assume t: "producer_ok op log cur H t \<and> progress s t"
  have "post (\<lambda>_ u. producer_ok op log cur H u \<and> progress s u) (replication_stream_keepalive L t)"
    by (rule post_mono [OF keepalive_only])
      (use t in \<open>auto simp: producer_ok_def progress_def calm_def reader_part_def status_sent_def\<close>)
  then show "post (\<lambda>_ u. producer_ok op log cur H u \<and> progress s u)
      (if shutdown_signal K (world t) then exit_nicely L 0 t
       else andthen (replication_stream_keepalive L t) (\<lambda>err context.
         if err \<noteq> 0 then exit_nicely L 1 context else Ret () context))"
    by (cases "replication_stream_keepalive L t") auto
qed

lemma wait_not_full_ok:
  assumes "producer_ok op log cur H s" and "reports_once K"
  shows "post (\<lambda>_ t. producer_ok op log cur H t \<and> progress s t \<and> \<not> xact_list_full t)
      (wait_not_full K L n s)"
  using assms(1)
proof (induction n arbitrary: s)
  case (Suc n)
  show ?case
  proof (cases "xact_list_full s")
    case True
    have "post (\<lambda>_ t. producer_ok op log cur H t \<and> progress s t \<and> \<not> xact_list_full t)
        (andthen (backpressure K L s) (\<lambda>_. wait_not_full K L n))"
    proof (rule post_andthenI [OF backpressure_ok [OF Suc.prems assms(2)]])
      fix a t
      assume t: "producer_ok op log cur H t \<and> progress s t"
      then have "post (\<lambda>_ u. producer_ok op log cur H u \<and> progress t u \<and> \<not> xact_list_full u)
          (wait_not_full K L n t)"
        by (intro Suc.IH) simp
      then show "post (\<lambda>_ u. producer_ok op log cur H u \<and> progress s u \<and> \<not> xact_list_full u)
          (wait_not_full K L n t)"
        by (rule post_mono) (use t progress_trans in blast)
    qed
    with True show ?thesis by simp
  qed (use Suc.prems in simp)
qed simp


section \<open>The steps of a transaction\<close>

lemma window_split:
  assumes "ring_inv t h"
  shows "slots t h = closed True t h @ [h]" and "h \<notin> set (closed True t h)"
proof -
  have "slots t h = butlast (slots t h) @ [last (slots t h)]" by simp
  with assms show *: "slots t h = closed True t h @ [h]"
    by (simp add: closed_def ring_inv_def slots_last)
  have "distinct (slots t h)" using assms by (simp add: ring_inv_def distinct_slots)
  with * show "h \<notin> set (closed True t h)" by simp
qed

lemma slots_logged_other:
  "slots_logged M xl is log \<Longrightarrow> h \<notin> set is \<Longrightarrow> slots_logged M (xl(h := y)) is log"
  by (erule slots_logged_mono) auto

lemma begin_inv:
  assumes inv: "xact_inv False log cur M xl t h f" and room: "next_slot h \<noteq> t"
    and x: "xid y \<noteq> 0" "pending_events y = 0" "commit_lsn y = 0"
  shows "xact_inv True log [] M (xl(next_slot h := y)) t (next_slot h) f"
    and "unacked M (next_slot h) = {#}"
proof -
  let ?h = "next_slot h" and ?yl = "xl(next_slot h := y)"
  from inv have r: "t < MAX_IN_FLIGHT_TRANSACTIONS" "h < MAX_IN_FLIGHT_TRANSACTIONS"
    by (simp_all add: xact_inv_def ring_inv_def)
  note W = slots_snoc [OF r room] and fresh = next_slot_fresh [OF r room]
  have cl: "closed True t ?h = closed False t h" by (simp add: closed_def W)
  have notin: "?h \<notin> set (closed False t h)" using fresh by (simp add: closed_def)
  show none: "unacked M ?h = {#}"
    using inv fresh by (auto simp: xact_inv_def count_inv_def unacked_empty)
  have "count_inv M ?yl t ?h"
    using inv none x W by (auto simp: xact_inv_def count_inv_def)
  moreover have "slots_logged M ?yl (closed False t h) log"
    using inv notin by (simp add: xact_inv_def log_inv_def slots_logged_other)
  then have "log_inv True log [] M ?yl t ?h"
    using inv notin none x unfolding log_inv_def xact_inv_def cl by auto
  moreover have "fsync_inv True log M ?yl t ?h f"
    using inv notin unfolding fsync_inv_def xact_inv_def cl by auto
  ultimately show "xact_inv True log [] M ?yl t ?h f"
    using r by (simp add: xact_inv_def ring_inv_def)
qed

lemma commit_inv:
  assumes inv: "xact_inv True log cur M xl t h f" and wal: "last_lsn log < wal"
  shows "xact_inv False (log @ [(wal, cur)]) [] M (xl(h := (xl h)\<lparr>commit_lsn := wal\<rparr>)) t h f"
proof -
  let ?yl = "xl(h := (xl h)\<lparr>commit_lsn := wal\<rparr>)"
  from inv have r: "ring_inv t h" by (simp add: xact_inv_def)
  note W = window_split [OF r]
  have cl: "closed False t h = closed True t h @ [h]" using W by (simp add: closed_def)
  have pos: "0 < wal" using wal by (rule le_less_trans [OF word_zero_le])
  have "count_inv M ?yl t h" using inv by (auto simp: xact_inv_def count_inv_def)
  moreover have "log_inv False (log @ [(wal, cur)]) [] M ?yl t h"
  proof -
    have "slots_logged M ?yl (closed True t h) log"
      using inv W by (simp add: xact_inv_def log_inv_def slots_logged_other)
    then obtain old recent where o: "log = old @ recent" "list_all2 (slot_logged M ?yl) (closed True t h) recent"
      by (auto simp: slots_logged_def)
    have "slot_logged M ?yl h (wal, cur)" using inv by (simp add: slot_logged_def xact_inv_def log_inv_def)
    with o have "list_all2 (slot_logged M ?yl) (closed False t h) (recent @ [(wal, cur)])"
      by (simp add: cl list_all2_appendI)
    with o(1) have "slots_logged M ?yl (closed False t h) (log @ [(wal, cur)])"
      unfolding slots_logged_def by (metis append.assoc)
    moreover have "fst e < wal" if "e \<in> set log" for e
      using sorted_last_lsn [of log e] inv that wal by (simp add: xact_inv_def log_inv_def)
    ultimately show ?thesis
      using inv W pos by (auto simp: log_inv_def xact_inv_def cl sorted_wrt_append)
  qed
  moreover have "fsync_inv False (log @ [(wal, cur)]) M ?yl t h f"
  proof -
    have "f \<le> last_lsn log" using inv by (simp add: xact_inv_def fsync_inv_def)
    then have "f < wal" using wal by (rule le_less_trans)
    with inv W show ?thesis
      unfolding fsync_inv_def xact_inv_def cl by (auto simp: last_lsn_def)
  qed
  ultimately show ?thesis using r by (simp add: xact_inv_def)
qed

lemma send_inv:
  assumes inv: "xact_inv True log cur M xl t h f" and m: "slot_of m = h"
    and y: "commit_lsn y = commit_lsn (xl h)" "xid y = xid (xl h)" "pending_events y = pending_events (xl h) + 1"
  shows "xact_inv True log (cur @ [m]) (add_mset m M) (xl(h := y)) t h f"
proof -
  from inv have r: "ring_inv t h" by (simp add: xact_inv_def)
  note W = window_split [OF r]
  have same: "unacked (add_mset m M) i = unacked M i" if "i \<in> set (closed True t h)" for i
    using that W m by auto
  have "count_inv (add_mset m M) (xl(h := y)) t h"
    using inv m y W by (auto simp: xact_inv_def count_inv_def)
  moreover have "slots_logged (add_mset m M) (xl(h := y)) (closed True t h) log"
  proof (rule slots_logged_mono)
    show "slots_logged M xl (closed True t h) log" using inv by (simp add: xact_inv_def log_inv_def)
  qed (use same W in auto)
  then have "log_inv True log (cur @ [m]) (add_mset m M) (xl(h := y)) t h"
    using inv W m y unfolding log_inv_def xact_inv_def by auto
  moreover have "fsync_inv True log (add_mset m M) (xl(h := y)) t h f"
    using inv W same unfolding fsync_inv_def xact_inv_def by auto
  ultimately show ?thesis using r by (simp add: xact_inv_def)
qed

subsection \<open>Begin and commit\<close>

lemma on_begin_txn_ok:
  assumes ok: "producer_ok False log cur {#} s" and K: "reports_once K" and x: "x \<noteq> 0"
  shows "post (\<lambda>e t. e = 0 \<and> producer_ok True log [] {#} t \<and> calm s t \<and>
      (\<forall>m \<in> set (kafka_outq t). slot_of m \<noteq> xact_head t)) (on_begin_txn K L n wal x s)"
proof -
  have "post (\<lambda>e t. e = 0 \<and> producer_ok True log [] {#} t \<and> calm s t \<and>
      (\<forall>m \<in> set (kafka_outq t). slot_of m \<noteq> xact_head t))
     (andthen (wait_not_full K L n s) (\<lambda>_ context.
        let context = context\<lparr>xact_head := (xact_head context + 1) mod MAX_IN_FLIGHT_TRANSACTIONS\<rparr>
        in Ret 0 (upd_xact (xact_head context)
             (\<lambda>_. \<lparr> xid = x, recvd_events = 0, pending_events = 0, commit_lsn = 0 \<rparr>) context)))"
  proof (rule post_andthenI [OF wait_not_full_ok [OF ok K]])
    fix a t
    assume t: "producer_ok False log cur {#} t \<and> progress s t \<and> \<not> xact_list_full t"
    then have inv: "xact_inv False log cur (mset (kafka_outq t)) (xact_list t) (xact_tail t) (xact_head t) (fsync_lsn t)"
      and room: "next_slot (xact_head t) \<noteq> xact_tail t"
      by (simp_all add: producer_ok_def xact_list_full_def next_slot_def)
    note b = begin_inv [OF inv room, of "\<lparr> xid = x, recvd_events = 0, pending_events = 0, commit_lsn = 0 \<rparr>"]
    show "post (\<lambda>e t. e = 0 \<and> producer_ok True log [] {#} t \<and> calm s t \<and>
          (\<forall>m \<in> set (kafka_outq t). slot_of m \<noteq> xact_head t))
        (let context = t\<lparr>xact_head := (xact_head t + 1) mod MAX_IN_FLIGHT_TRANSACTIONS\<rparr>
         in Ret 0 (upd_xact (xact_head context)
             (\<lambda>_. \<lparr> xid = x, recvd_events = 0, pending_events = 0, commit_lsn = 0 \<rparr>) context))"
      using b x t
      by (simp add: Let_def producer_ok_def upd_xact_def progress_def calm_def reader_part_def
          unacked_empty next_slot_def)
  qed
  with x show ?thesis by (simp add: on_begin_txn_def)
qed

lemma on_commit_txn_ok:
  assumes ok: "producer_ok True log cur {#} s" and wal: "last_lsn log < wal"
  shows "post (\<lambda>e t. e = 0 \<and> producer_ok False (log @ [(wal, cur)]) [] {#} t \<and> calm s t)
      (on_commit_txn L wal x s)"
proof (cases "x = xid (xact_list s (xact_head s))")
  case True
  let ?s = "upd_xact (xact_head s) (\<lambda>xact. xact\<lparr>commit_lsn := wal\<rparr>) s"
  have "state_inv False (log @ [(wal, cur)]) [] (mset (kafka_outq s)) ?s"
    using ok commit_inv [OF _ wal] by (simp add: producer_ok_def upd_xact_def)
  then obtain t where t: "maybe_checkpoint ?s = Ret () t"
      "state_inv False (log @ [(wal, cur)]) [] (mset (kafka_outq s)) t" "state_settled t" "checkpointed ?s t"
    using maybe_checkpoint_inv by blast
  have "progress ?s t" "kafka_outq t = kafka_outq ?s" using checkpointed_progress [OF t(4)] by auto
  then have "progress s t" "kafka_outq t = kafka_outq s"
    by (auto intro: progress_trans [OF upd_xact_progress(1)])
  with True t show ?thesis by (simp add: on_commit_txn_def producer_ok_def progress_def)
qed (simp add: on_commit_txn_def)

subsection \<open>Rows\<close>

text \<open>
  Encoding does not change the state; the message a row becomes is a function of the state
  before it is sent.
\<close>

lemma encode_msg_state:
  "encode_msg A fmt table k v s = (case encode_msg A fmt table k v () of
     Ret r _ \<Rightarrow> Ret r s | Exit n _ \<Rightarrow> Exit n s | Stuck _ \<Rightarrow> Stuck s | Undef \<Rightarrow> Undef)"
proof -
  have j: "avro_bin_to_json A sch b s = (case avro_bin_to_json A sch b () of
     Ret r _ \<Rightarrow> Ret r s | Exit n _ \<Rightarrow> Exit n s | Stuck _ \<Rightarrow> Stuck s | Undef \<Rightarrow> Undef)" for sch b s
    by (auto simp: avro_bin_to_json_def split: option.split ptr.split prod.split)
  have e: "json_encode_msg A table k v s = (case json_encode_msg A table k v () of
     Ret r _ \<Rightarrow> Ret r s | Exit n _ \<Rightarrow> Exit n s | Stuck _ \<Rightarrow> Stuck s | Undef \<Rightarrow> Undef)" for s
    unfolding json_encode_msg_def j [of _ _ s]
    by (cases "avro_bin_to_json A (table_key_schema table) k ()")
      (auto simp: j [of _ _ s] split: prod.split outcome.split)
  show ?thesis
    unfolding encode_msg_def e [of s]
    by (cases "json_encode_msg A table k v ()") (auto split: prod.split)
qed

definition sent_msg :: "('y avro_io_scheme) \<Rightarrow> ('w, 'z) producer_context_scheme \<Rightarrow> u64 \<Rightarrow> Oid \<Rightarrow>
    bytes option \<Rightarrow> bytes option \<Rightarrow> kafka_msg option" where
  "sent_msg A s wal rid k v = (case mapper s of
     None \<Rightarrow> None
   | Some m \<Rightarrow> (case table_mapper_lookup m rid of
       None \<Rightarrow> None
     | Some i \<Rightarrow> (case (encode_msg A (output_format s) (tables m ! i) k v (), table_topic (tables m ! i)) of
         (Ret (Inr (key, val)) _, Valid t) \<Rightarrow>
           Some \<lparr> msg_topic = t, msg_key = key, msg_val = val,
             msg_env = \<lparr> env_wal_pos = wal, env_relid = rid, env_xact = xact_head s \<rparr> \<rparr>
       | _ \<Rightarrow> None)))"

lemma produce_loop_ok:
  assumes "producer_ok op log cur {#m#} s" and K: "reports_once K"
  shows "post (\<lambda>e t. e = 0 \<and> producer_ok op log cur {#} t \<and> progress s t) (produce_loop K L n m s)"
  using assms(1)
proof (induction n arbitrary: s)
  case (Suc n)
  obtain err full w where p: "rd_kafka_produce K m (kafka_outq s) (world s) = ((err, full), w)"
    by (metis prod.collapse)
  let ?s = "s\<lparr>world := w, kafka_outq := (if err = 0 then kafka_outq s @ [m] else kafka_outq s)\<rparr>"
  let ?H = "if err = 0 then {#} else {#m#}"
  have ok: "producer_ok op log cur ?H ?s" using Suc.prems by (auto simp: producer_ok_def)
  have pr: "progress s ?s" by (simp add: progress_def calm_def reader_part_def)
  have "post (\<lambda>e t. e = 0 \<and> producer_ok op log cur {#} t \<and> progress s t)
      (andthen (backpressure K L ?s) (\<lambda>_ context.
         if err = 0 then Ret 0 context else produce_loop K L n m context))"
  proof (rule post_andthenI [OF backpressure_ok [OF ok K]])
    fix a t
    assume t: "producer_ok op log cur ?H t \<and> progress ?s t"
    then have st: "progress s t" using pr progress_trans by blast
    show "post (\<lambda>e t. e = 0 \<and> producer_ok op log cur {#} t \<and> progress s t)
        (if err = 0 then Ret 0 t else produce_loop K L n m t)"
    proof (cases "err = 0")
      case False
      with t have "post (\<lambda>e u. e = 0 \<and> producer_ok op log cur {#} u \<and> progress t u) (produce_loop K L n m t)"
        by (intro Suc.IH) simp
      then have "post (\<lambda>e u. e = 0 \<and> producer_ok op log cur {#} u \<and> progress s u) (produce_loop K L n m t)"
        by (rule post_mono) (use st progress_trans in blast)
      with False show ?thesis by simp
    qed (use t st in simp)
  qed
  with ok pr show ?case by (cases "err = 0") (simp_all add: p Let_def)
qed simp

lemma send_kafka_msg_ok:
  assumes ok: "producer_ok True log cur {#} s" and K: "reports_once K"
  shows "post (\<lambda>e t. e = 0 \<and> progress s t \<and> (\<exists>m. sent_msg A s wal rid k v = Some m \<and>
      producer_ok True log (cur @ [m]) {#} t)) (send_kafka_msg A K L n wal rid k v s)"
proof -
  let ?h = "xact_head s"
  let ?s = "upd_xact ?h (\<lambda>x. x\<lparr>recvd_events := recvd_events x + 1, pending_events := pending_events x + 1\<rparr>) s"
  have [simp]: "mapper ?s = mapper s" "output_format ?s = output_format s"
    by (simp_all add: upd_xact_def)
  have sent: "post (\<lambda>e t. e = 0 \<and> progress s t \<and> producer_ok True log (cur @ [m]) {#} t) (produce_loop K L n m ?s)"
    if "slot_of m = ?h" for m
  proof -
    have "producer_ok True log (cur @ [m]) {#m#} ?s"
      using ok that send_inv [of log cur "mset (kafka_outq s)" "xact_list s" "xact_tail s" ?h "fsync_lsn s" m]
      by (simp add: producer_ok_def upd_xact_def)
    from produce_loop_ok [OF this K] show ?thesis
      by (rule post_mono) (use progress_trans [OF upd_xact_progress(1)] in blast)
  qed
  show ?thesis
  proof (cases "mapper s")
    case (Some mp)
    note mp = this
    show ?thesis
    proof (cases "table_mapper_lookup mp rid")
      case (Some i)
      show ?thesis
      proof (cases "encode_msg A (output_format s) (tables mp ! i) k v ()")
        case (Ret r u)
        then have enc: "encode_msg A (output_format s) (tables mp ! i) k v ?s = Ret r ?s"
          by (subst encode_msg_state) simp
        note eqs = mp Some Ret enc send_kafka_msg_def Let_def
        show ?thesis
        proof (cases r)
          case (Inr kv)
          obtain key val where kv: "kv = (key, val)" by (cases kv)
          show ?thesis
          proof (cases "table_topic (tables mp ! i)")
            case (Valid t)
            let ?m = "\<lparr> msg_topic = t, msg_key = key, msg_val = val,
              msg_env = \<lparr> env_wal_pos = wal, env_relid = rid, env_xact = ?h \<rparr> \<rparr>"
            have "sent_msg A s wal rid k v = Some ?m"
              using Valid Inr kv by (simp add: sent_msg_def eqs)
            moreover have "send_kafka_msg A K L n wal rid k v s = Undef \<or>
                send_kafka_msg A K L n wal rid k v s = produce_loop K L n ?m ?s"
              using Valid Inr kv by (simp add: eqs)
            ultimately show ?thesis
              using sent [of ?m] by (auto simp: slot_of_def elim!: post_mono)
          qed (use Inr kv in \<open>simp_all add: eqs\<close>)
        qed (simp add: eqs)
      qed (use mp Some in \<open>simp add: send_kafka_msg_def Let_def encode_msg_state [of _ _ _ _ _ ?s]\<close>)+
    qed (use mp in \<open>simp add: send_kafka_msg_def Let_def\<close>)
  qed (simp add: send_kafka_msg_def Let_def)
qed

end
