(* ===== verification/Producer_Run.thy ===== *)
theory Producer_Run
  imports Checkpoint
begin

text \<open>
  Runs of the producer: sequences of messages from PostgreSQL, delivery reports from Kafka and
  changes that the client makes to its own part of the state. Every state of a run satisfies the
  invariant of \<open>Checkpoint\<close>; waiting for Kafka ends if Kafka acknowledges; the buffer is a
  queue; the callbacks leave the frame reader alone.
\<close>


section \<open>What the invariant says about lost messages\<close>

lemma unacked_sum:
  "distinct is \<Longrightarrow> sum_list (map (unacked M) is) = filter_mset (\<lambda>m. slot_of m \<in> set is) M"
proof (induction "is")
  case (Cons i "is")
  have "unacked M i + filter_mset (\<lambda>m. slot_of m \<in> set is) M =
      filter_mset (\<lambda>m. slot_of m = i \<or> slot_of m \<in> set is) M"
    using Cons.prems by (auto simp: multiset_eq_iff unacked_def)
  with Cons show ?case by simp
qed simp

lemma logged_covers:
  assumes "list_all2 (slot_logged M xl) is recent"
    and "\<And>i. i \<in> set is \<Longrightarrow> unacked M i \<noteq> {#} \<Longrightarrow> f < commit_lsn (xl i)"
  shows "sum_list (map (unacked M) is) \<subseteq># mset (concat (map snd (filter (\<lambda>e. f < fst e) recent)))"
  using assms
proof (induction rule: list_all2_induct)
  case (Cons i "is" e recent)
  then have IH: "sum_list (map (unacked M) is) \<subseteq># mset (concat (map snd (filter (\<lambda>e. f < fst e) recent)))"
    by simp
  from Cons have e: "commit_lsn (xl i) = fst e" "unacked M i \<subseteq># mset (snd e)"
    by (simp_all add: slot_logged_def)
  show ?case
  proof (cases "f < fst e")
    case True
    with IH e show ?thesis by (simp add: subset_mset.add_mono)
  next
    case False
    with Cons.prems [of i] e have "unacked M i = {#}" by auto
    with False IH show ?thesis by simp
  qed
qed simp

definition beyond :: "u64 \<Rightarrow> txn_log \<Rightarrow> kafka_msg multiset" where
  "beyond f log = mset (concat (map snd (filter (\<lambda>e. f < fst e) log)))"

lemma unacked_beyond:
  assumes inv: "xact_inv op log cur M xl t h f"
  shows "M \<subseteq># beyond f log + (if op then mset cur else {#})"
proof -
  from inv have r: "ring_inv t h" by (simp add: xact_inv_def)
  then have d: "distinct (slots t h)" by (simp add: ring_inv_def distinct_slots)
  have "filter_mset (\<lambda>m. slot_of m \<in> set (slots t h)) M = M"
    using inv by (intro filter_mset_eq_conv [THEN iffD2]) (auto simp: xact_inv_def count_inv_def)
  then have "M = sum_list (map (unacked M) (slots t h))" by (simp add: unacked_sum [OF d])
  also have "\<dots> = sum_list (map (unacked M) (closed op t h)) + (if op then unacked M h else {#})"
  proof (cases op)
    case True
    then show ?thesis by (subst window_split(1) [OF r]) simp
  qed (simp add: closed_def)
  also have "\<dots> \<subseteq># beyond f log + (if op then mset cur else {#})"
  proof (rule subset_mset.add_mono)
    from inv obtain old recent where "log = old @ recent" "list_all2 (slot_logged M xl) (closed op t h) recent"
      by (auto simp: xact_inv_def log_inv_def slots_logged_def)
    with logged_covers [of M xl "closed op t h" recent f] inv
    show "sum_list (map (unacked M) (closed op t h)) \<subseteq># beyond f log"
      by (auto simp: beyond_def xact_inv_def fsync_inv_def intro: subset_mset.add_increasing)
    show "(if op then unacked M h else {#}) \<subseteq># (if op then mset cur else {#})"
      using inv by (simp add: xact_inv_def log_inv_def)
  qed
  finally show ?thesis .
qed

section \<open>Runs of the producer\<close>

text \<open>The parts of the state that the transaction logic uses.\<close>

definition core :: "('w, 'z) producer_context_scheme \<Rightarrow>
    (nat \<Rightarrow> transaction_info) \<times> nat \<times> nat \<times> u64 \<times> kafka_msg list \<times> table_mapper option \<times> int" where
  "core s = (xact_list s, xact_tail s, xact_head s, fsync_lsn s, kafka_outq s, mapper s, output_format s)"

lemma core_ok: "core t = core s \<Longrightarrow> producer_ok op log cur H t = producer_ok op log cur H s"
  by (simp add: core_def producer_ok_def)

lemma core_sent:
  assumes "core t = core s"
  shows "sent_msg A t wal rid k v = sent_msg A s wal rid k v"
proof -
  from assms have "mapper t = mapper s" "output_format t = output_format s" "xact_head t = xact_head s"
    by (simp_all add: core_def)
  then show ?thesis by (simp only: sent_msg_def)
qed

lemma read_entry_core: "post (\<lambda>_ t. core t = core s) (read_entry A f i b s)"
  by (auto simp: read_entry_def Let_def core_def split: ptr.splits prod.splits)

lemma mapper_ok: "producer_ok op log cur H (s\<lparr>mapper := m, world := w\<rparr>) = producer_ok op log cur H s"
  by (simp add: producer_ok_def)

lemma with_mapper_ok:
  assumes "producer_ok op log cur H s"
  shows "post (\<lambda>_ t. producer_ok op log cur H t \<and> calm s t) (with_mapper f s)"
  using assms
  by (auto simp: with_mapper_def mapper_ok calm_def reader_part_def split: option.split outcome.split prod.split)

lemma on_table_schema_ok:
  assumes "producer_ok op log cur H s"
  shows "post (\<lambda>_ t. producer_ok op log cur H t \<and> calm s t) (on_table_schema A R K L wal rid kj kl ks rj rl rs s)"
proof (cases "avro_schema_name rs")
  case (Some name)
  have "post (\<lambda>_ t. producer_ok op log cur H t \<and> calm s t)
      (andthen (with_mapper (table_mapper_update A R K rid name kj rj) s)
        (\<lambda>table context. if table = None then exit_nicely L 1 context else Ret 0 context))"
    by (rule post_andthenI [OF with_mapper_ok [OF assms]]) simp
  with Some show ?thesis by (simp add: on_table_schema_def)
qed (simp add: on_table_schema_def)

text \<open>The key and new row of a row message, as they are sent; \<open>None\<close> if nothing is sent.\<close>

fun row_change :: "wire_msg \<Rightarrow> (Oid \<times> bytes option \<times> bytes option) option" where
  "row_change (Insert r k n) = Some (r, k, Some n)"
| "row_change (Update r k l n) = Some (r, k, Some n)"
| "row_change (Delete r k l) = (if k = None then None else Some (r, k, None))"
| "row_change m = None"

fun is_row :: "wire_msg \<Rightarrow> bool" where
  "is_row (Insert r k n) = True"
| "is_row (Update r k l n) = True"
| "is_row (Delete r k l) = True"
| "is_row m = False"

definition sent_msgs :: "('y avro_io_scheme) \<Rightarrow> ('w, 'z) producer_context_scheme \<Rightarrow> u64 \<Rightarrow> wire_msg \<Rightarrow> kafka_msg list" where
  "sent_msgs A s wal m = (case row_change m of None \<Rightarrow> []
     | Some (r, k, v) \<Rightarrow> (case sent_msg A s wal r k v of None \<Rightarrow> [] | Some msg \<Rightarrow> [msg]))"

text \<open>
  \<open>producer_run op log cur s\<close>: state \<open>s\<close> is reached with the given history. The steps are the
  messages of the replication protocol as the client hands them to the producer, the snapshot's
  commit, delivery reports, and changes of the parts of the state that belong to the client. Commits
  arrive in the order of their log positions.
\<close>

definition fresh_producer :: "('w, 'z) producer_context_scheme \<Rightarrow> bool" where
  "fresh_producer s \<longleftrightarrow> (\<forall>i. xact_list s i =
       \<lparr> xid = 0, recvd_events = 0, pending_events = 0, commit_lsn = 0 \<rparr>) \<and>
     xact_head s = 0 \<and> xact_tail s = 0 \<and> fsync_lsn s = 0 \<and> kafka_outq s = []"

inductive producer_run :: "('y avro_io_scheme) \<Rightarrow> 'w http_ops \<Rightarrow> 'w kafka_ops \<Rightarrow> 'w pq_ops \<Rightarrow> nat \<Rightarrow>
    bool \<Rightarrow> txn_log \<Rightarrow> kafka_msg list \<Rightarrow> ('w, 'z) producer_context_scheme \<Rightarrow> bool"
  for A R K L n where
  run_stream: "fresh_producer s \<Longrightarrow> producer_run A R K L n False [(0, [])] [] s"
| run_snapshot: "fresh_producer s \<Longrightarrow> producer_run A R K L n True [] [] s"
| run_begin: "producer_run A R K L n False log cur s \<Longrightarrow> x \<noteq> 0 \<Longrightarrow>
    deliver_msg A (producer_callbacks A R K L n) wal (BeginTxn x) s = Ret 0 t \<Longrightarrow>
    producer_run A R K L n True log [] t"
| run_commit: "producer_run A R K L n True log cur s \<Longrightarrow> last_lsn log < wal \<Longrightarrow>
    on_commit_txn L wal x s = Ret 0 t \<Longrightarrow>
    producer_run A R K L n False (log @ [(wal, cur)]) [] t"
| run_schema: "producer_run A R K L n op log cur s \<Longrightarrow>
    deliver_msg A (producer_callbacks A R K L n) wal (TableSchema r kj rj) s = Ret 0 t \<Longrightarrow>
    producer_run A R K L n op log cur t"
| run_row: "producer_run A R K L n True log cur s \<Longrightarrow> is_row m \<Longrightarrow>
    deliver_msg A (producer_callbacks A R K L n) wal m s = Ret 0 t \<Longrightarrow>
    producer_run A R K L n True log (cur @ sent_msgs A s wal m) t"
| run_poll: "producer_run A R K L n op log cur s \<Longrightarrow> kafka_poll K L timeout s = Ret () t \<Longrightarrow>
    producer_run A R K L n op log cur t"
| run_client: "producer_run A R K L n op log cur s \<Longrightarrow> core t = core s \<Longrightarrow>
    producer_run A R K L n op log cur t"

text \<open>The messages that may come next: the order PostgreSQL sends them in.\<close>

fun in_order :: "bool \<Rightarrow> txn_log \<Rightarrow> u64 \<Rightarrow> wire_msg \<Rightarrow> bool" where
  "in_order op log wal (BeginTxn x) = (\<not> op \<and> x \<noteq> 0)"
| "in_order op log wal (CommitTxn x l) = (op \<and> last_lsn log < wal)"
| "in_order op log wal (TableSchema r k j) = True"
| "in_order op log wal m = op"

lemma fresh_ok:
  assumes "fresh_producer s"
  shows "producer_ok False [(0, [])] [] {#} s" and "producer_ok True [] [] {#} s"
  using assms
  by (auto simp: fresh_producer_def producer_ok_def xact_inv_defs closed_def settled_def last_lsn_def
      slots_logged_def slot_logged_def unacked_def intro: exI [of _ "[]"])

lemma deliver_row_ok:
  assumes ok: "producer_ok True log cur {#} s" and K: "reports_once K" and m: "is_row m"
  shows "post (\<lambda>e t. (e = 0 \<longrightarrow> producer_ok True log (cur @ sent_msgs A s wal m) {#} t) \<and>
      fsync_lsn s \<le> fsync_lsn t) (deliver_msg A (producer_callbacks A R K L n) wal m s)"
proof -
  let ?P = "\<lambda>t. core t = core s"
  have rd: "post (\<lambda>_. ?P) (read_entry A f i b t)" if "?P t" for f i b t
    using read_entry_core [where s = t] that by simp
  have send: "post (\<lambda>e u. (e = 0 \<longrightarrow> producer_ok True log (cur @ (case sent_msg A s wal r k v of None \<Rightarrow> [] | Some msg \<Rightarrow> [msg])) {#} u) \<and>
      fsync_lsn s \<le> fsync_lsn u) (check (send_kafka_msg A K L n wal r k v t) (Ret 0))" if "?P t" for r k v t
  proof -
    have "post (\<lambda>e u. e = 0 \<and> progress t u \<and> (\<exists>m. sent_msg A t wal r k v = Some m \<and>
        producer_ok True log (cur @ [m]) {#} u)) (send_kafka_msg A K L n wal r k v t)"
      using ok K by (intro send_kafka_msg_ok) (simp_all add: core_ok [OF that])
    moreover have "sent_msg A t wal r k v = sent_msg A s wal r k v" "fsync_lsn t = fsync_lsn s"
      using core_sent [OF that] that by (auto simp: core_def)
    ultimately show ?thesis
      by (cases "send_kafka_msg A K L n wal r k v t") (auto simp: progress_def calm_def)
  qed
  have skip: "producer_ok True log cur {#} t \<and> fsync_lsn s \<le> fsync_lsn t" if "?P t" for t
    using ok that core_ok [OF that] by (auto simp: core_def)
  note D = deliver_row_wp [where P = ?P and s = s and cb = "producer_callbacks A R K L n", OF refl rd]
  show ?thesis
  proof (cases m)
    case (Insert r k nv)
    show ?thesis unfolding Insert
      by (rule D) (auto simp: producer_callbacks_def call_back_Some on_insert_row_def sent_msgs_def core_def intro!: send)
  next
    case (Update r k l nv)
    show ?thesis unfolding Update
      by (rule D) (auto simp: producer_callbacks_def call_back_Some on_update_row_def sent_msgs_def core_def intro!: send)
  next
    case (Delete r k l)
    show ?thesis unfolding Delete
      by (rule D) (use skip in \<open>auto simp: producer_callbacks_def call_back_Some on_delete_row_def sent_msgs_def core_def intro!: send\<close>)
  qed (use m in simp_all)
qed

lemma schema_list_replace_core: "post (\<lambda>_ t. core t = core s) (schema_list_replace r s)"
  by (auto simp: schema_list_replace_def schema_list_entry_new_def Let_def core_def split: option.split)

lemma upd_entry_core [simp]: "core (upd_entry i f s) = core s"
  by (simp add: upd_entry_def core_def)

lemma install_schema_ok:
  assumes ok: "producer_ok op log cur {#} s"
  shows "post (\<lambda>_ t. producer_ok op log cur {#} t \<and> fsync_lsn s \<le> fsync_lsn t)
      (deliver_msg A (producer_callbacks A R K L n) wal (TableSchema r kj rj) s)"
proof -
  let ?Q = "\<lambda>_ t. producer_ok op log cur {#} t \<and> fsync_lsn s \<le> fsync_lsn t"
  have skip: "producer_ok op log cur {#} t \<and> fsync_lsn s \<le> fsync_lsn t" if "core t = core s" for t
    using ok core_ok [OF that] that by (auto simp: core_def)
  have cb: "post ?Q (call_back (cb_table_schema (producer_callbacks A R K L n)) (\<lambda>f. f wal r kj' kl ks rj rl rs) t)"
    if "core t = core s" for kj' kl ks rl rs t
  proof -
    have "post (\<lambda>_ u. producer_ok op log cur {#} u \<and> calm t u) (on_table_schema A R K L wal r kj' kl ks rj rl rs t)"
      using skip [OF that] by (intro on_table_schema_ok) simp
    then have "post ?Q (on_table_schema A R K L wal r kj' kl ks rj rl rs t)"
      by (rule post_mono) (use that in \<open>auto simp: calm_def core_def\<close>)
    then show ?thesis
      by (cases "on_table_schema A R K L wal r kj' kl ks rj rl rs t")
        (auto simp: producer_callbacks_def call_back_Some)
  qed
  show ?thesis
  proof (cases "fst (avro_schema_from_json_length A rj (length rj)) = 0")
    case True
    have "post ?Q (andthen (schema_list_replace (ucast r) s) (\<lambda>i s.
       let s = upd_entry i (entry_set_row A (ucast r) (snd (avro_schema_from_json_length A rj (length rj)))) s in
       case kj of
         Some j \<Rightarrow> check_get (avro_schema_from_json_length A j (length j)) (\<lambda>kschema s.
           call_back (cb_table_schema (producer_callbacks A R K L n))
             (\<lambda>f. f wal r (Some j) (length j) (Some kschema) rj (length rj) (snd (avro_schema_from_json_length A rj (length rj))))
             (upd_entry i (entry_set_key A kschema) s)) s
       | None \<Rightarrow> call_back (cb_table_schema (producer_callbacks A R K L n))
             (\<lambda>f. f wal r None 0 None rj (length rj) (snd (avro_schema_from_json_length A rj (length rj))))
             (upd_entry i (\<lambda>e. e\<lparr>key_schema := Null\<rparr>) s)))"
      by (rule post_andthenI [OF schema_list_replace_core])
        (auto simp: Let_def check_get_def skip split: option.split intro!: cb)
    with True show ?thesis by (simp add: install_schema_def check_get_def)
  qed (use ok in \<open>simp add: install_schema_def check_get_def\<close>)
qed

theorem run_ok:
  assumes "producer_run A R K L n op log cur s" and K: "reports_once K"
  shows "producer_ok op log cur {#} s"
  using assms(1)
proof induction
  case (run_begin log cur s x wal t)
  then have "post (\<lambda>e t. e = 0 \<and> producer_ok True log [] {#} t \<and> calm s t \<and>
      (\<forall>m \<in> set (kafka_outq t). slot_of m \<noteq> xact_head t)) (on_begin_txn K L n wal x s)"
    using K by (intro on_begin_txn_ok)
  with run_begin(3) show ?case
    by (cases "on_begin_txn K L n wal x s") (auto simp: producer_callbacks_def call_back_Some)
next
  case (run_commit log cur s wal x t)
  then show ?case using on_commit_txn_ok [of log cur s wal L x] by simp
next
  case (run_schema op log cur s wal r kj rj t)
  then show ?case using install_schema_ok [of op log cur s A R K L n wal r kj rj] by simp
next
  case (run_row log cur s m wal t)
  then show ?case using deliver_row_ok [OF _ K, of log cur s m A wal R L n] by simp
next
  case (run_poll op log cur s timeout t)
  then show ?case using kafka_poll_ok [OF _ K, of op log cur "{#}" s L timeout] by simp
next
  case (run_client op log cur s t)
  then show ?case using core_ok by blast
qed (simp_all add: fresh_ok)


section \<open>Waiting ends\<close>

text \<open>
  Kafka acknowledges: a poll with messages in the queue reports at least one, and no report is a
  failure; nobody asks for a shutdown, and the server takes status updates.
\<close>

definition kafka_acknowledges :: "'w kafka_ops \<Rightarrow> bool" where
  "kafka_acknowledges K \<longleftrightarrow> reports_once K \<and> (\<forall>w. \<not> shutdown_signal K w) \<and>
     (\<forall>q timeout w. (q \<noteq> [] \<longrightarrow> fst (rd_kafka_poll K q timeout w) \<noteq> []) \<and>
        (\<forall>r \<in> set (fst (rd_kafka_poll K q timeout w)). snd r = 0))"

definition server_listens :: "'w pq_ops \<Rightarrow> bool" where
  "server_listens L \<longleftrightarrow> (\<forall>c b w. 0 < fst (PQputCopyData L c b w)) \<and> (\<forall>c w. fst (PQflush L c w) = 0)"

lemma send_checkpoint_returns:
  assumes "server_listens L"
  shows "\<exists>t. send_checkpoint L now s = Ret 0 t"
proof -
  let ?buf = "checkpoint_message (recvd_lsn s) (fsync_lsn s) now"
  obtain put w where p: "PQputCopyData L (repl_conn s) ?buf (world s) = (put, w)" by fastforce
  obtain fl w' where f: "PQflush L (repl_conn s) w = (fl, w')" by fastforce
  have "0 < fst (PQputCopyData L (repl_conn s) ?buf (world s))" "fst (PQflush L (repl_conn s) w) = 0"
    using assms by (simp_all add: server_listens_def)
  with p f show ?thesis by (simp add: send_checkpoint_def Let_def)
qed

lemma keepalive_returns:
  assumes "server_listens L"
  shows "\<exists>t. replication_stream_keepalive L s = Ret 0 t"
  using send_checkpoint_returns [OF assms]
  by (cases "current_time L (world s)") (auto simp: replication_stream_keepalive_def Let_def)

lemma deliver_reports_returns:
  assumes "state_inv op log cur M s" and "mset (map fst reports) \<subseteq># M" and "\<forall>r \<in> set reports. snd r = 0"
  shows "\<exists>t. deliver_reports L reports s = Ret () t"
  using assms
proof (induction reports arbitrary: s M)
  case (Cons r reports)
  obtain m where r: "r = (m, 0)" using Cons.prems(3) by (cases r) auto
  with Cons.prems have m: "m \<in># M" and sub: "mset (map fst reports) \<subseteq># M - {#m#}"
    by (auto simp: insert_subset_eq_iff)
  have p: "\<not> pending_events (xact_list s (slot_of m)) \<le> - INT_MAX - 1"
    using pending_pos [OF Cons.prems(1) m] by simp
  let ?s = "upd_xact (slot_of m) (\<lambda>x. x\<lparr>pending_events := pending_events x - 1\<rparr>) s"
  obtain t where t: "maybe_checkpoint ?s = Ret () t" "state_inv op log cur (M - {#m#}) t"
      "state_settled t" "checkpointed ?s t"
    using maybe_checkpoint_inv [OF ack_inv [OF Cons.prems(1) m]] .
  from p t(1) have "on_deliver_msg L m 0 s = Ret () t"
    by (simp add: on_deliver_msg_def slot_of_def Let_def)
  with r Cons.IH [OF t(2) sub] Cons.prems(3) show ?case by simp
qed simp

lemma backpressure_returns:
  assumes ok: "producer_ok op log cur {#} s" and K: "kafka_acknowledges K" and L: "server_listens L"
    and q: "kafka_outq s \<noteq> []"
  obtains t where "backpressure K L s = Ret () t" "length (kafka_outq t) < length (kafka_outq s)"
proof -
  obtain reports rest w where p: "rd_kafka_poll K (kafka_outq s) 200 (world s) = (reports, rest, w)"
    by (metis prod_cases3)
  have once: "mset (kafka_outq s) = mset (map fst reports) + mset rest"
    using K p unfolding kafka_acknowledges_def reports_once_def by blast
  have ne: "reports \<noteq> []" and good: "\<forall>r \<in> set reports. snd r = 0"
  proof -
    have "(kafka_outq s \<noteq> [] \<longrightarrow> fst (rd_kafka_poll K (kafka_outq s) 200 (world s)) \<noteq> []) \<and>
        (\<forall>r \<in> set (fst (rd_kafka_poll K (kafka_outq s) 200 (world s))). snd r = 0)"
      using K unfolding kafka_acknowledges_def by blast
    with p q show "reports \<noteq> []" "\<forall>r \<in> set reports. snd r = 0" by simp_all
  qed
  have "size (mset (kafka_outq s)) = size (mset (map fst reports)) + size (mset rest)"
    unfolding once by simp
  with ne have len: "length rest < length (kafka_outq s)" by (cases reports) auto
  let ?s = "s\<lparr>kafka_outq := rest, world := w\<rparr>"
  have inv: "state_inv op log cur (mset (kafka_outq s)) ?s" using ok by (simp add: producer_ok_def)
  obtain u where u: "deliver_reports L reports ?s = Ret () u"
    using deliver_reports_returns [OF inv, of reports] once good by auto
  have "post (\<lambda>_ t. state_inv op log cur (mset (kafka_outq s) - mset (map fst reports)) t \<and> (op \<or> state_settled t) \<and>
      progress ?s t \<and> kafka_outq t = kafka_outq ?s) (deliver_reports L reports ?s)"
    using inv once ok by (intro deliver_reports_inv) (simp_all add: producer_ok_def)
  with u have "kafka_outq u = rest" by simp
  obtain t where t: "replication_stream_keepalive L u = Ret 0 t" using keepalive_returns [OF L] by blast
  have "post (\<lambda>_ t. status_sent u t) (replication_stream_keepalive L u)" by (rule keepalive_only)
  with t \<open>kafka_outq u = rest\<close> have "kafka_outq t = rest" by (auto simp: status_sent_def)
  moreover have "backpressure K L s = Ret () t"
    using u t K by (simp add: backpressure_def kafka_poll_def p kafka_acknowledges_def)
  ultimately show ?thesis using that len by simp
qed

text \<open>A full buffer means that Kafka owes an acknowledgement for its oldest transaction.\<close>

lemma full_waits_for_kafka:
  assumes ok: "producer_ok False log cur {#} s" and full: "xact_list_full s"
  shows "\<exists>m \<in> set (kafka_outq s). slot_of m = xact_tail s"
proof -
  from ok have inv: "state_inv False log cur (mset (kafka_outq s)) s" and st: "state_settled s"
    by (simp_all add: producer_ok_def)
  then have r: "xact_tail s < MAX_IN_FLIGHT_TRANSACTIONS" "xact_head s < MAX_IN_FLIGHT_TRANSACTIONS"
    by (simp_all add: xact_inv_def ring_inv_def)
  have "next_slot (xact_head s) = xact_tail s" using full by (simp add: xact_list_full_def next_slot_def)
  then have ne: "xact_tail s \<noteq> xact_head s"
    using r(2) by (auto simp: next_slot_eq MAX_IN_FLIGHT_TRANSACTIONS_def split: if_splits)
  then have "xact_tail s \<in> set (closed False (xact_tail s) (xact_head s))"
    using slots_Cons [OF r] by (simp add: closed_def)
  with inv st ne have "pending_events (xact_list s (xact_tail s)) \<noteq> 0"
    by (auto simp: settled_def completed_def xact_inv_def log_inv_def)
  with inv have "unacked (mset (kafka_outq s)) (xact_tail s) \<noteq> {#}"
    using pending_none by (auto simp: xact_inv_def)
  then show ?thesis by (auto simp: unacked_empty)
qed

lemma wait_not_full_returns:
  assumes "producer_ok False log cur {#} s" and "kafka_acknowledges K" and "server_listens L"
    and "length (kafka_outq s) \<le> n"
  shows "\<exists>t. wait_not_full K L n s = Ret () t"
  using assms(1,4)
proof (induction n arbitrary: s)
  case 0
  then show ?case using full_waits_for_kafka [of log cur s] by auto
next
  case (Suc n)
  show ?case
  proof (cases "xact_list_full s")
    case True
    with full_waits_for_kafka [OF Suc.prems(1)] have "kafka_outq s \<noteq> []" by auto
    then obtain t where t: "backpressure K L s = Ret () t" "length (kafka_outq t) < length (kafka_outq s)"
      using backpressure_returns [OF Suc.prems(1) assms(2,3)] by blast
    have "reports_once K" using assms(2) by (simp add: kafka_acknowledges_def)
    from backpressure_ok [OF Suc.prems(1) this, of L] t(1) have "producer_ok False log cur {#} t" by simp
    from Suc.IH [OF this] t Suc.prems(2) True show ?thesis by simp
  qed simp
qed


section \<open>The buffer as a queue\<close>

text \<open>
  The abstract view: a queue of transactions, from which a checkpoint removes the completed
  ones at the front, except for the last element, and takes the position of the last one it
  found completed.
\<close>

definition in_flight :: "('w, 'z) producer_context_scheme \<Rightarrow> transaction_info list" where
  "in_flight s = map (xact_list s) (slots (xact_tail s) (xact_head s))"

fun drop_completed :: "transaction_info list \<Rightarrow> u64 \<Rightarrow> bool \<Rightarrow> transaction_info list \<times> u64 \<times> bool" where
  "drop_completed [] f snap = ([], f, snap)"
| "drop_completed (x # xs) f snap =
     (if completed x then
        let snap = (snap \<and> \<not> (xid x = 0 \<and> commit_lsn x > 0)) in
        if xs = [] then ([x], commit_lsn x, snap) else drop_completed xs (commit_lsn x) snap
      else (x # xs, f, snap))"

lemma checkpoint_loop_refines:
  assumes "ring_inv (xact_tail s) (xact_head s)" and "length (slots (xact_tail s) (xact_head s)) \<le> n"
  shows "\<exists>t. checkpoint_loop n s = Ret () t \<and> ring_inv (xact_tail t) (xact_head t) \<and>
      drop_completed (in_flight s) (fsync_lsn s) (taking_snapshot s) =
        (in_flight t, fsync_lsn t, taking_snapshot t)"
  using assms
proof (induction n arbitrary: s)
  case (Suc n)
  let ?x = "xact_list s (xact_tail s)"
  let ?b = "taking_snapshot s \<and> \<not> (xid ?x = 0 \<and> commit_lsn ?x > 0)"
  have r: "xact_tail s < MAX_IN_FLIGHT_TRANSACTIONS" "xact_head s < MAX_IN_FLIGHT_TRANSACTIONS"
    using Suc.prems by (simp_all add: ring_inv_def)
  show ?case
  proof (cases "completed ?x")
    case False
    have "in_flight s = ?x # tl (in_flight s)"
      by (cases "xact_tail s = xact_head s") (simp_all add: in_flight_def r slots_Cons)
    with False have "drop_completed (in_flight s) (fsync_lsn s) (taking_snapshot s) =
        (in_flight s, fsync_lsn s, taking_snapshot s)"
      by (metis drop_completed.simps(2))
    moreover from False have "checkpoint_loop (Suc n) s = Ret () s" by (auto simp: completed_def Let_def)
    ultimately show ?thesis using Suc.prems by blast
  next
    case True
    let ?t = "s\<lparr>fsync_lsn := commit_lsn ?x, taking_snapshot := ?b\<rparr>"
    have step: "checkpoint_loop (Suc n) s = (if xact_tail s = xact_head s then Ret () ?t
        else checkpoint_loop n (?t\<lparr>xact_tail := next_slot (xact_tail s)\<rparr>))"
      using checkpoint_step [OF True, of n] by (simp only: Let_def)
    show ?thesis
    proof (cases "xact_tail s = xact_head s")
      case eq: True
      then have "in_flight s = [?x]" using r by (simp add: in_flight_def)
      moreover have "in_flight ?t = [?x]" using r eq by (simp add: in_flight_def)
      ultimately show ?thesis using True eq step Suc.prems by (simp add: Let_def)
    next
      case False
      let ?u = "?t\<lparr>xact_tail := next_slot (xact_tail s)\<rparr>"
      have fl: "in_flight s = ?x # in_flight ?u" "in_flight ?u \<noteq> []"
        using r False by (simp_all add: in_flight_def slots_Cons)
      have ri: "ring_inv (xact_tail ?u) (xact_head ?u)" using r by (simp add: ring_inv_def)
      have len: "length (slots (xact_tail ?u) (xact_head ?u)) \<le> n"
        using Suc.prems r False by (simp add: slots_Cons)
      obtain v where v: "checkpoint_loop n ?u = Ret () v" "ring_inv (xact_tail v) (xact_head v)"
          "drop_completed (in_flight ?u) (fsync_lsn ?u) (taking_snapshot ?u) = (in_flight v, fsync_lsn v, taking_snapshot v)"
        using Suc.IH [OF ri len] by blast
      from step False v(1) have "checkpoint_loop (Suc n) s = Ret () v" by simp
      moreover have "drop_completed (in_flight s) (fsync_lsn s) (taking_snapshot s) =
          (in_flight v, fsync_lsn v, taking_snapshot v)"
        using fl True v(3) by (simp add: Let_def)
      ultimately show ?thesis using v(2) by blast
    qed
  qed
qed simp

section \<open>The callbacks leave the frame reader alone\<close>

lemma keeps_readerI: "(\<And>s. post (\<lambda>_ t. reader_part t = reader_part s) (f s)) \<Longrightarrow> keeps_reader f"
  by (simp add: keeps_reader_def)

lemma keeps_readerD:
  "keeps_reader f \<Longrightarrow> reader_part s = p \<Longrightarrow> post (\<lambda>_ t. reader_part t = p) (f s)"
  by (auto simp: keeps_reader_def)

lemma keeps_andthen:
  assumes "keeps_reader f" and "\<And>a. keeps_reader (g a)"
  shows "keeps_reader (\<lambda>s. andthen (f s) g)"
  by (rule keeps_readerI, rule post_andthenI [OF keeps_readerD [OF assms(1) refl]])
    (rule keeps_readerD [OF assms(2)])

lemma keeps_if: "keeps_reader f \<Longrightarrow> keeps_reader g \<Longrightarrow> keeps_reader (\<lambda>s. if c s then f s else g s)"
  by (simp add: keeps_reader_def)

lemma keeps_Ret: "keeps_reader (Ret a)"
  by (simp add: keeps_reader_def)

lemma reader_part_upds [simp]:
  "reader_part (s\<lparr>fsync_lsn := f\<rparr>) = reader_part s"
  "reader_part (s\<lparr>world := w\<rparr>) = reader_part s"
  "reader_part (c\<lparr>taking_snapshot := b\<rparr>) = reader_part c"
  "reader_part (p\<lparr>xact_tail := i\<rparr>) = reader_part p"
  "reader_part (p\<lparr>xact_head := i\<rparr>) = reader_part p"
  "reader_part (p\<lparr>kafka_outq := q\<rparr>) = reader_part p"
  "reader_part (p\<lparr>mapper := m\<rparr>) = reader_part p"
  "reader_part (upd_xact i g p) = reader_part p"
  by (simp_all add: reader_part_def upd_xact_def)

lemma keeps_exit: "keeps_reader (exit_nicely L n)"
  by (simp add: keeps_reader_def)

lemma keeps_loop: "keeps_reader (checkpoint_loop n)"
proof (induction n)
  case (Suc n)
  show ?case
  proof (rule keeps_readerI)
    fix s :: "('a, 'b) producer_context_scheme"
    show "post (\<lambda>_ t. reader_part t = reader_part s) (checkpoint_loop (Suc n) s)"
    proof (cases "completed (xact_list s (xact_tail s))")
      case True
      show ?thesis
        unfolding checkpoint_step [OF True] Let_def by (simp add: keeps_readerD [OF Suc])
    qed (auto simp: completed_def Let_def)
  qed
qed (simp add: keeps_reader_def)

lemma keeps_maybe_checkpoint: "keeps_reader maybe_checkpoint"
  by (simp add: maybe_checkpoint_def keeps_loop)

lemma keeps_deliver: "keeps_reader (deliver_reports L reports)"
proof (induction reports)
  case (Cons r reports)
  obtain m e where r: "r = (m, e)" by (cases r)
  have "keeps_reader (on_deliver_msg L m e)"
    by (rule keeps_readerI)
      (simp add: on_deliver_msg_def Let_def keeps_readerD [OF keeps_maybe_checkpoint])
  from keeps_andthen [OF this Cons] show ?case by (simp add: r keeps_reader_def)
qed (simp add: keeps_reader_def)

lemma keeps_poll: "keeps_reader (kafka_poll K L timeout)"
  by (rule keeps_readerI) (simp add: kafka_poll_def keeps_readerD [OF keeps_deliver] split: prod.split)

lemma keeps_keepalive: "keeps_reader (replication_stream_keepalive L)"
  by (rule keeps_readerI, rule post_mono [OF keepalive_only]) (auto simp: status_sent_def reader_part_def)

lemma keeps_backpressure: "keeps_reader (backpressure K L)"
  unfolding backpressure_def
  by (intro keeps_andthen keeps_poll keeps_if keeps_exit keeps_keepalive keeps_Ret)

lemma keeps_wait: "keeps_reader (wait_not_full K L n)"
proof (induction n)
  case (Suc n)
  from keeps_andthen [OF keeps_backpressure Suc] show ?case by (simp add: keeps_reader_def)
qed (simp add: keeps_reader_def)

lemma keeps_produce: "keeps_reader (produce_loop K L n m)"
proof (induction n)
  case (Suc n)
  show ?case
  proof (rule keeps_readerI)
    fix s :: "('a, 'b) producer_context_scheme"
    obtain err full w where p: "rd_kafka_produce K m (kafka_outq s) (world s) = ((err, full), w)"
      by (metis prod.collapse)
    let ?s = "s\<lparr>world := w, kafka_outq := (if err = 0 then kafka_outq s @ [m] else kafka_outq s)\<rparr>"
    have "post (\<lambda>_ t. reader_part t = reader_part s) (andthen (backpressure K L ?s) (\<lambda>_ context.
        if err = 0 then Ret 0 context else produce_loop K L n m context))"
      by (rule post_andthenI [OF keeps_readerD [OF keeps_backpressure refl]])
        (simp add: keeps_readerD [OF Suc])
    then show "post (\<lambda>_ t. reader_part t = reader_part s) (produce_loop K L (Suc n) m s)"
      by (simp add: p Let_def)
  qed
qed (simp add: keeps_reader_def)

lemma keeps_send: "keeps_reader (send_kafka_msg A K L n wal rid k v)"
proof (rule keeps_readerI)
  fix s :: "('a, 'b) producer_context_scheme"
  have enc: "encode_msg A f t k v s' = Ret r u \<Longrightarrow> u = s'" for f t s' r u
    by (subst (asm) encode_msg_state) (auto split: outcome.splits)
  show "post (\<lambda>_ t. reader_part t = reader_part s) (send_kafka_msg A K L n wal rid k v s)"
    by (auto simp: send_kafka_msg_def Let_def prog_simps post_conv [of _ "encode_msg _ _ _ _ _ _"]
        intro!: keeps_readerD [OF keeps_produce] dest!: enc
        split: option.split sum.split ptr.split prod.split)
qed

lemma producer_keeps_reader:
  "callbacks_keep_reader (producer_callbacks A R K L n :: ('w, 'z) producer_context_scheme callbacks)"
proof -
  have "keeps_reader (on_begin_txn K L n w x :: (('w, 'z) producer_context_scheme, int) prog)" for w x
  proof (cases "x = 0")
    case False
    have "keeps_reader (\<lambda>s :: ('w, 'z) producer_context_scheme. andthen (wait_not_full K L n s) (\<lambda>_ context.
        let context = context\<lparr>xact_head := (xact_head context + 1) mod MAX_IN_FLIGHT_TRANSACTIONS\<rparr>
        in Ret 0 (upd_xact (xact_head context)
             (\<lambda>_. \<lparr> xid = x, recvd_events = 0, pending_events = 0, commit_lsn = 0 \<rparr>) context)))"
      by (rule keeps_andthen [OF keeps_wait]) (simp add: keeps_reader_def Let_def)
    with False show ?thesis unfolding on_begin_txn_def by simp
  qed (simp add: on_begin_txn_def keeps_reader_def)
  moreover have "keeps_reader (on_commit_txn L w x)" for w x
    by (rule keeps_readerI) (auto simp: on_commit_txn_def intro!: post_andthenI [OF keeps_readerD [OF keeps_maybe_checkpoint]])
  moreover have "keeps_reader (on_table_schema A R K L w r kj kl ks rj rl rs :: (('w, 'z) producer_context_scheme, int) prog)" for w r kj kl ks rj rl rs
  proof -
    have wm: "keeps_reader (with_mapper f :: (('w, 'z) producer_context_scheme, nat option) prog)" for f
      by (rule keeps_readerI) (simp add: with_mapper_def split: option.split outcome.split prod.split)
    show ?thesis
    proof (cases "avro_schema_name rs")
      case (Some name)
      then show ?thesis
        unfolding on_table_schema_def by (simp add: keeps_andthen [OF wm] keeps_if [OF keeps_exit keeps_Ret])
    qed (simp add: on_table_schema_def keeps_reader_def)
  qed
  ultimately show ?thesis
    by (auto simp: callbacks_keep_reader_def producer_callbacks_def on_insert_row_def on_update_row_def
        on_delete_row_def keeps_send keeps_readerI)
qed

section \<open>The position reported to PostgreSQL\<close>

lemma deliver_msg_fsync:
  assumes ok: "producer_ok op log cur {#} s" and K: "reports_once K" and m: "in_order op log wal m"
  shows "post (\<lambda>_ t. fsync_lsn s \<le> fsync_lsn t) (deliver_msg A (producer_callbacks A R K L n) wal m s)"
proof -
  have row: "post (\<lambda>_ t. fsync_lsn s \<le> fsync_lsn t) (deliver_msg A (producer_callbacks A R K L n) wal m s)"
    if "is_row m" op
    using deliver_row_ok [of log cur s K m A wal R L n] ok K that by (auto elim!: post_mono)
  show ?thesis
  proof (cases m)
    case (BeginTxn x)
    have "post (\<lambda>_ t. fsync_lsn s \<le> fsync_lsn t) (on_begin_txn K L n wal x s)"
      using on_begin_txn_ok [of log cur s K x L n wal] ok K m BeginTxn by (auto simp: calm_def elim!: post_mono)
    then show ?thesis
      by (cases "on_begin_txn K L n wal x s") (auto simp: BeginTxn producer_callbacks_def call_back_Some)
  next
    case (CommitTxn x l)
    have "post (\<lambda>_ t. fsync_lsn s \<le> fsync_lsn t) (on_commit_txn L wal x s)"
      using on_commit_txn_ok [of log cur s wal L x] ok m CommitTxn by (auto simp: calm_def elim!: post_mono)
    then show ?thesis
      by (cases "on_commit_txn L wal x s") (auto simp: CommitTxn producer_callbacks_def call_back_Some)
  next
    case (TableSchema r k j)
    show ?thesis using install_schema_ok [OF ok, of A R K L n wal r k j] unfolding TableSchema by (auto elim!: post_mono)
  qed (use row m in auto)
qed

section \<open>Nothing stays behind\<close>

text \<open>
  If no transaction is open, the slot at the tail is completed only if it is the last one, and then its
  position has been reported.
\<close>

definition reported :: "('w, 'z) producer_context_scheme \<Rightarrow> bool" where
  "reported s \<longleftrightarrow> (completed (xact_list s (xact_tail s)) \<longrightarrow>
     xact_tail s = xact_head s \<and> fsync_lsn s = commit_lsn (xact_list s (xact_head s)))"

definition xacts :: "('w, 'z) producer_context_scheme \<Rightarrow> _" where
  "xacts s = (xact_list s, xact_tail s, xact_head s, fsync_lsn s)"

lemma reported_xacts: "xacts t = xacts s \<Longrightarrow> reported t = reported s"
  by (simp add: reported_def xacts_def)

lemma checkpoint_reported: "post (\<lambda>_ t. reported t) (checkpoint_loop n s)"
proof (induction n arbitrary: s)
  case (Suc n)
  show ?case
  proof (cases "completed (xact_list s (xact_tail s))")
    case True
    show ?thesis
    proof (cases "xact_tail s = xact_head s")
      case eq: True
      then show ?thesis unfolding checkpoint_step [OF True] Let_def by (simp add: reported_def)
    next
      case False
      then show ?thesis unfolding checkpoint_step [OF True] Let_def by (simp add: Suc)
    qed
  qed (auto simp: completed_def Let_def reported_def)
qed simp

lemma deliver_reports_reported:
  "reported s \<or> reports \<noteq> [] \<Longrightarrow> post (\<lambda>_ t. reported t) (deliver_reports L reports s)"
proof (induction reports arbitrary: s)
  case (Cons r reports)
  obtain m e where r: "r = (m, e)" by (cases r)
  have "post (\<lambda>_ t. reported t) (on_deliver_msg L m e s)"
    by (auto simp: on_deliver_msg_def Let_def maybe_checkpoint_def checkpoint_reported)
  then show ?case unfolding r deliver_reports.simps
    by (rule post_andthenI) (use Cons.IH in simp)
qed simp

lemma kafka_poll_reported: "reported s \<Longrightarrow> post (\<lambda>_ t. reported t) (kafka_poll K L timeout s)"
  by (auto simp: kafka_poll_def reported_xacts [of "s\<lparr>kafka_outq := _, world := _\<rparr>" s] xacts_def
      intro!: deliver_reports_reported split: prod.split)

lemma read_entry_xacts: "post (\<lambda>_ t. xacts t = xacts s) (read_entry A f i b s)"
  using read_entry_core [of s A f i b] by (rule post_mono) (simp add: core_def xacts_def)

lemma schema_xacts:
  fixes s :: "('w, 'z) producer_context_scheme"
  shows "post (\<lambda>_ t. xacts t = xacts s) (deliver_msg A (producer_callbacks A R K L n) wal (TableSchema r kj rj) s)"
proof -
  let ?Q = "\<lambda>_ t. xacts t = xacts s"
  have m: "post ?Q (with_mapper f t)" if "xacts t = xacts s" for f t
    using that by (auto simp: with_mapper_def xacts_def split: option.split outcome.split prod.split)
  have cb: "post ?Q (call_back (cb_table_schema (producer_callbacks A R K L n)) (\<lambda>f. f wal r kj' kl ks rj rl rs) t)"
    if "xacts t = xacts s" for kj' kl ks rl rs t
  proof -
    have "post ?Q (on_table_schema A R K L wal r kj' kl ks rj rl rs t)"
      unfolding on_table_schema_def
      by (auto intro!: post_andthenI [OF m [OF that]] split: option.split)
    then show ?thesis
      by (cases "on_table_schema A R K L wal r kj' kl ks rj rl rs t") (auto simp: producer_callbacks_def call_back_Some)
  qed
  have rep: "post ?Q (schema_list_replace (ucast r) s)"
    using schema_list_replace_core [of s] by (rule post_mono) (simp add: core_def xacts_def)
  have u: "xacts (upd_entry i f t) = xacts t" for i f and t :: "('w, 'z) producer_context_scheme"
    by (simp add: upd_entry_def xacts_def)
  show ?thesis
    by (auto simp: install_schema_def check_get_def Let_def u intro!: post_andthenI [OF rep] cb split: option.split)
qed

lemma commit_reported: "post (\<lambda>_ t. reported t) (on_commit_txn L wal x s)"
  by (auto simp: on_commit_txn_def maybe_checkpoint_def intro!: post_andthenI [OF checkpoint_reported])

lemma run_reported:
  assumes "producer_run A R K L n op log cur s"
  shows "\<not> op \<longrightarrow> reported s"
  using assms
proof induction
  case (run_commit log cur s wal x t)
  then show ?case using commit_reported [of L wal x s] by simp
next
  case (run_schema op log cur s wal r kj rj t)
  then show ?case using schema_xacts [of s A R K L n wal r kj rj] reported_xacts [of t s] by simp
next
  case (run_poll op log cur s timeout t)
  then show ?case using kafka_poll_reported [of s K L timeout] by simp
next
  case (run_client op log cur s t)
  then show ?case using reported_xacts [of t s] by (simp add: core_def xacts_def)
qed (simp_all add: reported_def fresh_producer_def)

lemma run_caught_up:
  assumes run: "producer_run A R K L n False log cur s" and K: "reports_once K" and q: "kafka_outq s = []"
  shows "fsync_lsn s = last_lsn log" and "xact_tail s = xact_head s"
proof -
  from run_ok [OF run K] have inv: "state_inv False log cur (mset (kafka_outq s)) s" and st: "state_settled s"
    by (simp_all add: producer_ok_def)
  have un: "unacked (mset (kafka_outq s)) i = {#}" for i using q by (simp add: unacked_def)
  then have p: "pending_events (xact_list s i) = 0" for i using inv q by (simp add: xact_inv_def count_inv_def)
  have r: "ring_inv (xact_tail s) (xact_head s)" using inv by (simp add: xact_inv_def)
  have tail: "xact_tail s \<in> set (closed False (xact_tail s) (xact_head s))"
    using r by (cases "xact_tail s = xact_head s") (simp_all add: closed_def ring_inv_def slots_Cons)
  with inv p have c: "completed (xact_list s (xact_tail s))"
    by (auto simp: completed_def xact_inv_def log_inv_def)
  with run_reported [OF run] show eq: "xact_tail s = xact_head s" by (simp add: reported_def)
  have f: "fsync_lsn s = commit_lsn (xact_list s (xact_head s))"
    using c run_reported [OF run] by (simp add: reported_def)
  have "closed False (xact_tail s) (xact_head s) = [xact_head s]" using r eq by (simp add: closed_single)
  with inv obtain old recent where "log = old @ recent"
      "list_all2 (slot_logged (mset (kafka_outq s)) (xact_list s)) [xact_head s] recent"
    unfolding xact_inv_def log_inv_def slots_logged_def by auto
  with f show "fsync_lsn s = last_lsn log"
    by (auto simp: list_all2_Cons1 slot_logged_def last_lsn_def)
qed

end
