(* ===== verification/Avro_Codec.thy ===== *)
theory Avro_Codec
  imports Avro_IO
begin

text \<open>
  An executable instance of the encoding interface \<open>avro_codec\<close>: the binary encoding of the
  Avro specification (zig-zag variable-length integers, length-prefixed byte strings, one block
  per array) and a tagged encoding of schemas in place of their JSON text. It shows that the
  laws of the interface hold together, and it evaluates the examples of the development.
\<close>


section \<open>Integers\<close>

function put_nat :: "nat \<Rightarrow> bytes" where
  "put_nat n = (if n < 128 then [word_of_nat n] else word_of_nat (n mod 128 + 128) # put_nat (n div 128))"
  by pat_completeness auto
termination by (relation "measure id") auto

declare put_nat.simps [simp del]

fun get_nat :: "bytes \<Rightarrow> (nat \<times> bytes) option" where
  "get_nat [] = None"
| "get_nat (b # bs) = (if unat b < 128 then Some (unat b, bs)
     else case get_nat bs of None \<Rightarrow> None | Some (n, rest) \<Rightarrow> Some (unat b - 128 + 128 * n, rest))"

lemma unat_byte: "n < 256 \<Longrightarrow> unat (word_of_nat n :: byte) = n"
  by (simp add: unat_of_nat)

lemma get_put_nat [simp]: "get_nat (put_nat n @ rest) = Some (n, rest)"
proof (induction n rule: put_nat.induct)
  case (1 n)
  show ?case
  proof (cases "n < 128")
    case True
    then show ?thesis by (simp add: put_nat.simps [of n] unat_byte)
  next
    case False
    have "unat (word_of_nat (n mod 128 + 128) :: byte) = n mod 128 + 128"
      by (rule unat_byte) simp
    with False 1 show ?thesis by (simp add: put_nat.simps [of n] del: of_nat_add)
  qed
qed

lemma put_nat_not_Nil: "0 < length (put_nat n)"
  by (simp add: put_nat.simps [of n])

definition zigzag :: "int \<Rightarrow> nat" where
  "zigzag i = (if 0 \<le> i then nat (2 * i) else nat (- 2 * i - 1))"

definition unzigzag :: "nat \<Rightarrow> int" where
  "unzigzag n = (if even n then int (n div 2) else - int ((n + 1) div 2))"

lemma unzigzag_zigzag [simp]: "unzigzag (zigzag i) = i"
  by (auto simp: zigzag_def unzigzag_def even_nat_iff nat_mult_distrib)

fun put_le :: "nat \<Rightarrow> nat \<Rightarrow> bytes" where
  "put_le 0 n = []"
| "put_le (Suc k) n = word_of_nat (n mod 256) # put_le k (n div 256)"

fun get_le :: "nat \<Rightarrow> bytes \<Rightarrow> (nat \<times> bytes) option" where
  "get_le 0 bs = Some (0, bs)"
| "get_le (Suc k) bs = (case bs of [] \<Rightarrow> None | b # bs \<Rightarrow> (case get_le k bs of
     None \<Rightarrow> None | Some (n, rest) \<Rightarrow> Some (unat b + 256 * n, rest)))"

lemma get_put_le: "n < 256 ^ k \<Longrightarrow> get_le k (put_le k n @ rest) = Some (n, rest)"
proof (induction k arbitrary: n)
  case (Suc k)
  then have "n div 256 < 256 ^ k" by (simp add: less_mult_imp_div_less mult.commute)
  with Suc.IH show ?case by (simp add: unat_byte)
qed simp

lemma get_put_float: "get_le 4 (put_le 4 (unat (w :: u32)) @ rest) = Some (unat w, rest)"
proof -
  have "unat w < 2 ^ LENGTH(32)" by (rule unsigned_less)
  then show ?thesis by (intro get_put_le) simp
qed

lemma get_put_double: "get_le 8 (put_le 8 (unat (w :: u64)) @ rest) = Some (unat w, rest)"
proof -
  have "unat w < 2 ^ LENGTH(64)" by (rule unsigned_less)
  then show ?thesis by (intro get_put_le) simp
qed

section \<open>Values\<close>

fun join :: "bytes option list \<Rightarrow> bytes option" where
  "join [] = Some []"
| "join (b # bs) = (case (b, join bs) of (Some x, Some y) \<Rightarrow> Some (x @ y) | _ \<Rightarrow> None)"

fun enc_val :: "avro_val \<Rightarrow> bytes option" where
  "enc_val VNull = Some []"
| "enc_val (VBoolean b) = Some [if b then 1 else 0]"
| "enc_val (VInt i) = Some (put_nat (zigzag (sint i)))"
| "enc_val (VLong i) = Some (put_nat (zigzag (sint i)))"
| "enc_val (VFloat w) = Some (put_le 4 (unat w))"
| "enc_val (VDouble w) = Some (put_le 8 (unat w))"
| "enc_val (VBytes b) = Some (put_nat (zigzag (int (length b))) @ b)"
| "enc_val (VString b) = Some (put_nat (zigzag (int (length b))) @ b)"
| "enc_val (VEnum i) = Some (put_nat (zigzag (int i)))"
| "enc_val (VRecord vs) = join (map enc_val vs)"
| "enc_val (VArray s vs) = (if vs = [] then Some [0] else case join (map enc_val vs) of
     None \<Rightarrow> None | Some b \<Rightarrow> Some (put_nat (zigzag (int (length vs))) @ b @ [0]))"
| "enc_val (VUnion bs None) = None"
| "enc_val (VUnion bs (Some (d, v))) = (case enc_val v of
     None \<Rightarrow> None | Some b \<Rightarrow> Some (put_nat (zigzag (int d)) @ b))"

definition get_int :: "bytes \<Rightarrow> (int \<times> bytes) option" where
  "get_int b = map_option (\<lambda>(n, rest). (unzigzag n, rest)) (get_nat b)"

definition get_count :: "bytes \<Rightarrow> (nat \<times> bytes) option" where
  "get_count b = (case get_int b of
     Some (n, rest) \<Rightarrow> if 0 \<le> n then Some (nat n, rest) else None | None \<Rightarrow> None)"

definition get_blob :: "bytes \<Rightarrow> (bytes \<times> bytes) option" where
  "get_blob b = (case get_count b of
     Some (n, rest) \<Rightarrow> if n \<le> length rest then Some (take n rest, drop n rest) else None
   | None \<Rightarrow> None)"

lemma get_put_int [simp]: "get_int (put_nat (zigzag i) @ rest) = Some (i, rest)"
  by (simp add: get_int_def)

lemma get_put_count [simp]: "get_count (put_nat (zigzag (int n)) @ rest) = Some (n, rest)"
  by (simp add: get_count_def)

lemma get_put_blob [simp]: "get_blob (put_nat (zigzag (int (length b))) @ b @ rest) = Some (b, rest)"
  by (simp add: get_blob_def)

fun dec_seq :: "(bytes \<Rightarrow> ('a \<times> bytes) option) list \<Rightarrow> bytes \<Rightarrow> ('a list \<times> bytes) option" where
  "dec_seq [] b = Some ([], b)"
| "dec_seq (d # ds) b = (case d b of
     None \<Rightarrow> None
   | Some (v, rest) \<Rightarrow> (case dec_seq ds rest of
       None \<Rightarrow> None | Some (vs, rest) \<Rightarrow> Some (v # vs, rest)))"

lemma dec_seq_cong [fundef_cong]:
  "ds = es \<Longrightarrow> b = c \<Longrightarrow> dec_seq ds b = dec_seq es c"
  by simp

lemma size_branch [termination_simp]:
  "i < length bs \<Longrightarrow> size (bs ! i :: avro_schema) < Suc (size_list size bs)"
  using size_list_estimation' [OF nth_mem order_refl] by (simp add: less_Suc_eq_le)

fun dec_val :: "avro_schema \<Rightarrow> bytes \<Rightarrow> (avro_val \<times> bytes) option" where
  "dec_val SNull b = Some (VNull, b)"
| "dec_val SBoolean b = (case b of
     [] \<Rightarrow> None | x # rest \<Rightarrow> if x = 0 then Some (VBoolean False, rest)
       else if x = 1 then Some (VBoolean True, rest) else None)"
| "dec_val SInt b = map_option (\<lambda>(i, rest). (VInt (word_of_int i), rest)) (get_int b)"
| "dec_val SLong b = map_option (\<lambda>(i, rest). (VLong (word_of_int i), rest)) (get_int b)"
| "dec_val SFloat b = map_option (\<lambda>(n, rest). (VFloat (word_of_nat n), rest)) (get_le 4 b)"
| "dec_val SDouble b = map_option (\<lambda>(n, rest). (VDouble (word_of_nat n), rest)) (get_le 8 b)"
| "dec_val SBytes b = map_option (\<lambda>(x, rest). (VBytes x, rest)) (get_blob b)"
| "dec_val SString b = map_option (\<lambda>(x, rest). (VString x, rest)) (get_blob b)"
| "dec_val (SEnum n syms) b = map_option (\<lambda>(i, rest). (VEnum i, rest)) (get_count b)"
| "dec_val (SRecord n ns fs) b =
     map_option (\<lambda>(vs, rest). (VRecord vs, rest)) (dec_seq (map (\<lambda>f. dec_val (snd f)) fs) b)"
| "dec_val (SArray s) b = (case get_count b of
     None \<Rightarrow> None
   | Some (n, rest) \<Rightarrow> if n = 0 then Some (VArray s [], rest)
       else case dec_seq (replicate n (dec_val s)) rest of
         None \<Rightarrow> None
       | Some (vs, rest) \<Rightarrow> (case rest of x # rest \<Rightarrow> if x = 0 then Some (VArray s vs, rest) else None
           | [] \<Rightarrow> None))"
| "dec_val (SUnion bs) b = (case get_count b of
     None \<Rightarrow> None
   | Some (d, rest) \<Rightarrow> if d < length bs
       then map_option (\<lambda>(v, rest). (VUnion bs (Some (d, v)), rest)) (dec_val (bs ! d) rest)
       else None)"
| "dec_val (SLink s) b = dec_val s b"

lemma get_count_zero [simp]: "get_count (0 # rest) = Some (0, rest)"
  by (simp add: get_count_def get_int_def unzigzag_def)

lemma join_dec:
  assumes "join (map enc_val vs) = Some b" and "length ds = length vs"
    and "\<And>i b rest. i < length vs \<Longrightarrow> enc_val (vs ! i) = Some b \<Longrightarrow>
      (ds ! i) (b @ rest) = Some (vs ! i, rest)"
  shows "dec_seq ds (b @ rest) = Some (vs, rest)"
  using assms
proof (induction vs arbitrary: b ds)
  case (Cons v vs)
  then obtain d es where ds: "ds = d # es" by (cases ds) auto
  from Cons.prems(1) obtain x y where b: "enc_val v = Some x" "join (map enc_val vs) = Some y" "b = x @ y"
    by (auto split: option.splits)
  have "d (x @ y @ rest) = Some (v, y @ rest)"
    using Cons.prems(3) [of 0 x "y @ rest"] b ds by simp
  moreover have "dec_seq es (y @ rest) = Some (vs, rest)"
  proof (rule Cons.IH [OF b(2)])
    show "length es = length vs" using Cons.prems(2) ds by simp
    show "(es ! i) (c @ r) = Some (vs ! i, r)" if "i < length vs" "enc_val (vs ! i) = Some c" for i c r
      using Cons.prems(3) [of "Suc i" c r] that ds by simp
  qed
  ultimately show ?case using ds b by simp
qed simp

lemma dec_enc_val:
  "enc_val v = Some b \<Longrightarrow> has_schema v s \<Longrightarrow> dec_val s (b @ rest) = Some (v, rest)"
proof (induction v s arbitrary: b rest rule: has_schema.induct)
  case (11 v n ns fs)
  then obtain vs where vs: "v = VRecord vs" "list_all2 (\<lambda>v fs. has_schema v (snd fs)) vs fs"
    by (auto split: avro_val.splits)
  have "dec_seq (map (\<lambda>f. dec_val (snd f)) fs) (b @ rest) = Some (vs, rest)"
  proof (rule join_dec)
    show "join (map enc_val vs) = Some b" using 11 vs by simp
  next
    show "length (map (\<lambda>f. dec_val (snd f)) fs) = length vs" using vs by (simp add: list_all2_lengthD)
  next
    fix i c rest'
    assume i: "i < length vs" "enc_val (vs ! i) = Some c"
    with vs have "i < length fs" "has_schema (vs ! i) (snd (fs ! i))"
      by (auto simp: list_all2_conv_all_nth)
    with 11 i vs show "(map (\<lambda>f. dec_val (snd f)) fs ! i) (c @ rest') = Some (vs ! i, rest')"
      by simp
  qed
  with vs show ?case by simp
next
  case (12 v s)
  then obtain vs where vs: "v = VArray s vs" "\<forall>v \<in> set vs. has_schema v s"
    by (auto split: avro_val.splits)
  show ?case
  proof (cases "vs = []")
    case True
    with 12 vs show ?thesis by auto
  next
    case False
    with 12 vs obtain c where c: "join (map enc_val vs) = Some c"
      "b = put_nat (zigzag (int (length vs))) @ c @ [0]"
      by (auto split: option.splits)
    have "dec_seq (replicate (length vs) (dec_val s)) (c @ 0 # rest) = Some (vs, 0 # rest)"
      using c(1) by (rule join_dec) (use 12 vs in auto)
    with False vs c show ?thesis by simp
  qed
next
  case (13 v bs)
  then show ?case by (auto split: avro_val.splits option.splits)
qed (auto simp: get_put_float get_put_double)

text \<open>Reading is directed by the destination: the schema it was created with, up to names.\<close>

fun val_shape :: "avro_val \<Rightarrow> avro_schema" where
  "val_shape VNull = SNull"
| "val_shape (VBoolean b) = SBoolean"
| "val_shape (VInt i) = SInt"
| "val_shape (VLong i) = SLong"
| "val_shape (VFloat i) = SFloat"
| "val_shape (VDouble i) = SDouble"
| "val_shape (VBytes b) = SBytes"
| "val_shape (VString b) = SString"
| "val_shape (VEnum i) = SEnum [] []"
| "val_shape (VRecord vs) = SRecord [] [] (map (\<lambda>v. ([], val_shape v)) vs)"
| "val_shape (VArray s vs) = SArray s"
| "val_shape (VUnion bs c) = SUnion bs"

lemma dec_shape: "has_schema u s \<Longrightarrow> dec_val (val_shape u) = dec_val s"
proof (induction u s rule: has_schema.induct)
  case (11 v n ns fs)
  then obtain vs where vs: "v = VRecord vs" "list_all2 (\<lambda>v fs. has_schema v (snd fs)) vs fs"
    by (auto split: avro_val.splits)
  have "map (\<lambda>v. dec_val (val_shape v)) vs = map (\<lambda>f. dec_val (snd f)) fs"
    using vs 11 by (auto simp: list_all2_conv_all_nth intro!: nth_equalityI) (metis nth_mem prod.collapse)
  with vs show ?case by (auto simp: comp_def)
qed (auto split: avro_val.splits)

lemma dec_seq_all2:
  assumes "dec_seq ds b = Some (vs, rest)"
    and "\<And>i b v rest. i < length ds \<Longrightarrow> (ds ! i) b = Some (v, rest) \<Longrightarrow> P i v"
  shows "length vs = length ds \<and> (\<forall>i < length ds. P i (vs ! i))"
  using assms
proof (induction ds arbitrary: b vs P)
  case (Cons d ds)
  then obtain v c ws where v: "d b = Some (v, c)" "dec_seq ds c = Some (ws, rest)" "vs = v # ws"
    by (auto split: option.splits)
  have "length ws = length ds \<and> (\<forall>i < length ds. P (Suc i) (ws ! i))"
    using v(2) by (rule Cons.IH) (use Cons.prems(2) [of "Suc i" for i] in auto)
  moreover have "P 0 v" using Cons.prems(2) [of 0] v by simp
  ultimately show ?case using v(3) by (auto simp: nth_Cons' less_Suc_eq_0_disj)
qed simp

lemma dec_val_schema: "dec_val s b = Some (v, rest) \<Longrightarrow> has_schema v s"
proof (induction s b arbitrary: v rest rule: dec_val.induct)
  case (10 n ns fs b)
  then obtain vs where vs: "v = VRecord vs" "dec_seq (map (\<lambda>f. dec_val (snd f)) fs) b = Some (vs, rest)"
    by auto
  have "length vs = length fs \<and> (\<forall>i < length fs. has_schema (vs ! i) (snd (fs ! i)))"
    using dec_seq_all2 [OF vs(2), of "\<lambda>i v. has_schema v (snd (fs ! i))"] 10(1)
    by simp
  with vs(1) show ?case by (simp add: list_all2_conv_all_nth)
next
  case (11 s b)
  then obtain n c where n: "get_count b = Some (n, c)" by (auto split: option.splits)
  show ?case
  proof (cases "n = 0")
    case True
    with 11 n show ?thesis by auto
  next
    case False
    with 11 n have IH: "dec_val s x = Some (w, r) \<Longrightarrow> has_schema w s" for x w r by blast
    from 11(2) n False obtain vs d where vs: "v = VArray s vs"
        "dec_seq (replicate n (dec_val s)) c = Some (vs, d)"
      by (auto split: option.splits list.splits if_splits)
    have "length vs = n \<and> (\<forall>i < n. has_schema (vs ! i) s)"
      using dec_seq_all2 [OF vs(2), of "\<lambda>i v. has_schema v s"] IH by simp
    with vs(1) show ?thesis by (auto simp: in_set_conv_nth)
  qed
next
  case (12 bs b)
  then show ?case by (auto split: option.splits if_splits)
qed (auto split: list.splits if_splits)

section \<open>Schemas\<close>

definition put_string :: "string \<Rightarrow> bytes" where
  "put_string cs = put_nat (length cs) @ map (\<lambda>c. word_of_nat (of_char c)) cs"

definition get_string_at :: "bytes \<Rightarrow> (string \<times> bytes) option" where
  "get_string_at b = (case get_nat b of
     None \<Rightarrow> None
   | Some (n, rest) \<Rightarrow> if n \<le> length rest then Some (map (\<lambda>w. char_of (unat w)) (take n rest), drop n rest)
       else None)"

lemma char_byte [simp]: "char_of (unat (word_of_nat (of_char c) :: byte)) = c"
proof -
  have "of_char c < (256 :: nat)" by simp
  then have "unat (word_of_nat (of_char c) :: byte) = of_char c" by (rule unat_byte)
  then show ?thesis by (simp only: char_of_char)
qed

lemma get_put_string [simp]: "get_string_at (put_string cs @ rest) = Some (cs, rest)"
  by (simp add: get_string_at_def put_string_def comp_def)

fun enc_schema :: "avro_schema \<Rightarrow> bytes" where
  "enc_schema SNull = [1]"
| "enc_schema SBoolean = [2]"
| "enc_schema SInt = [3]"
| "enc_schema SLong = [4]"
| "enc_schema SFloat = [5]"
| "enc_schema SDouble = [6]"
| "enc_schema SBytes = [7]"
| "enc_schema SString = [8]"
| "enc_schema (SRecord n ns fs) = 9 # put_string n @ put_string ns @ put_nat (length fs) @
     concat (map (\<lambda>f. put_string (fst f) @ enc_schema (snd f)) fs)"
| "enc_schema (SEnum n syms) = 10 # put_string n @ put_nat (length syms) @ concat (map put_string syms)"
| "enc_schema (SArray s) = 11 # enc_schema s"
| "enc_schema (SUnion bs) = 12 # put_nat (length bs) @ concat (map enc_schema bs)"
| "enc_schema (SLink s) = 13 # enc_schema s"

fun dec_pair :: "(bytes \<Rightarrow> ('a \<times> bytes) option) \<Rightarrow> bytes \<Rightarrow> ((string \<times> 'a) \<times> bytes) option" where
  "dec_pair d b = (case get_string_at b of
     None \<Rightarrow> None | Some (n, rest) \<Rightarrow> map_option (\<lambda>(s, rest). ((n, s), rest)) (d rest))"

definition dec_list :: "(bytes \<Rightarrow> ('a \<times> bytes) option) \<Rightarrow> bytes \<Rightarrow> ('a list \<times> bytes) option" where
  "dec_list d b = (case get_nat b of
     None \<Rightarrow> None | Some (n, rest) \<Rightarrow> dec_seq (replicate n d) rest)"

definition leaf_tags :: "(byte \<times> avro_schema) list" where
  "leaf_tags = [(1, SNull), (2, SBoolean), (3, SInt), (4, SLong), (5, SFloat), (6, SDouble),
     (7, SBytes), (8, SString)]"

fun dec_schema :: "nat \<Rightarrow> bytes \<Rightarrow> (avro_schema \<times> bytes) option" where
  "dec_schema 0 b = None"
| "dec_schema (Suc k) bs = (case bs of [] \<Rightarrow> None | t # b \<Rightarrow>
      if t = 9 then (case get_string_at b of
          None \<Rightarrow> None | Some (n, b) \<Rightarrow> (case get_string_at b of
          None \<Rightarrow> None | Some (ns, b) \<Rightarrow>
            map_option (\<lambda>(fs, b). (SRecord n ns fs, b)) (dec_list (dec_pair (dec_schema k)) b)))
      else if t = 10 then (case get_string_at b of
          None \<Rightarrow> None | Some (n, b) \<Rightarrow> map_option (\<lambda>(l, b). (SEnum n l, b)) (dec_list get_string_at b))
      else if t = 11 then map_option (\<lambda>(s, b). (SArray s, b)) (dec_schema k b)
      else if t = 12 then map_option (\<lambda>(l, b). (SUnion l, b)) (dec_list (dec_schema k) b)
      else if t = 13 then map_option (\<lambda>(s, b). (SLink s, b)) (dec_schema k b)
      else map_option (\<lambda>s. (s, b)) (map_of leaf_tags t))"

lemma dec_concat:
  assumes "\<And>x rest. x \<in> set xs \<Longrightarrow> d (e x @ rest) = Some (x, rest)"
  shows "dec_seq (replicate (length xs) d) (concat (map e xs) @ rest) = Some (xs, rest)"
  using assms by (induction xs) auto

lemma dec_list_concat:
  assumes "\<And>x rest. x \<in> set xs \<Longrightarrow> d (e x @ rest) = Some (x, rest)"
  shows "dec_list d (put_nat (length xs) @ concat (map e xs) @ rest) = Some (xs, rest)"
  using dec_concat [OF assms] by (simp add: dec_list_def)

lemma length_part: "x \<in> set xs \<Longrightarrow> length (e x) \<le> length (concat (map e xs))"
  by (induction xs) auto

lemma dec_enc_schema:
  "length (enc_schema s) \<le> k \<Longrightarrow> dec_schema k (enc_schema s @ rest) = Some (s, rest)"
proof (induction s arbitrary: k rest rule: enc_schema.induct)
  case (9 n ns fs)
  then obtain j where j: "k = Suc j" by (cases k) auto
  let ?e = "\<lambda>f. put_string (fst f) @ enc_schema (snd f)"
  have "dec_pair (dec_schema j) (?e f @ r) = Some (f, r)" if f: "f \<in> set fs" for f r
  proof -
    have "length (enc_schema (snd f)) \<le> j"
      using 9(2) j length_part [OF f, of ?e] by simp
    with 9(1) f show ?thesis by simp
  qed
  from dec_list_concat [of fs "dec_pair (dec_schema j)" ?e, OF this] j show ?case
    by (simp del: dec_pair.simps)
next
  case (10 n syms)
  then show ?case
    using dec_list_concat [of syms get_string_at put_string rest] by (cases k) simp_all
next
  case (12 bs)
  then obtain j where j: "k = Suc j" by (cases k) auto
  have "dec_schema j (enc_schema s @ r) = Some (s, r)" if s: "s \<in> set bs" for s r
    using 12(1) [OF s] 12(2) j length_part [OF s, of enc_schema] by simp
  from dec_list_concat [OF this] j show ?case by simp
next
  case (11 s)
  then show ?case by (cases k) simp_all
next
  case (13 s)
  then show ?case by (cases k) simp_all
qed (case_tac k; simp add: leaf_tags_def)+

section \<open>The instance\<close>

definition room :: "bytes option \<Rightarrow> nat \<Rightarrow> int \<times> bytes" where
  "room e n = (case e of
     None \<Rightarrow> (EINVAL, []) | Some b \<Rightarrow> if length b \<le> n then (0, b) else (ENOSPC, take n b))"

definition avro_codec_ref :: avro_io where
  "avro_codec_ref = avro_ops.extend avro_ref (avro_io.fields
     (\<lambda>v n. room (enc_val v) n)
     (\<lambda>src u. case dec_val (val_shape u) src of
        None \<Rightarrow> (EINVAL, src, u) | Some (v, rest) \<Rightarrow> (0, rest, v))
     (\<lambda>src n. if length src < n then (ENOSPC, src) else (0, drop n src))
     (\<lambda>s n. room (Some (enc_schema s)) n)
     (\<lambda>b n. case dec_schema n (take n b) of Some (s, []) \<Rightarrow> (0, s) | _ \<Rightarrow> (EINVAL, SNull))
     (\<lambda>s. (0, default_val s))
     (\<lambda>v. case enc_val v of None \<Rightarrow> (EINVAL, []) | Some b \<Rightarrow> (0, b))
     (\<lambda>w n b. if length w + length b \<le> n then (0, w @ b) else (ENOSPC, w)))"

lemmas avro_codec_ref_defs = avro_codec_ref_def avro_ops.extend_def avro_io.fields_def

lemma dec_enc_schema_all: "dec_schema (length (enc_schema s)) (enc_schema s) = Some (s, [])"
  using dec_enc_schema [of s _ "[]"] by simp

lemma room_ok [simp]: "room e n = (0, b) \<longleftrightarrow> e = Some b \<and> length b \<le> n"
  by (auto simp: room_def split: option.splits)

lemma room_again:
  "room e n = (0, b) \<Longrightarrow> if length b \<le> m then room e m = (0, b) else fst (room e m) = ENOSPC"
  by (auto simp: room_def split: option.splits if_splits)

lemma avro_codec_ref_simps:
  "avro_value_write avro_codec_ref v n = room (enc_val v) n"
  "avro_schema_to_json avro_codec_ref s n = room (Some (enc_schema s)) n"
  by (simp_all add: avro_codec_ref_defs)

interpretation cref: avro_codec avro_codec_ref
proof
  fix v s n b m
  show "avro_value_write avro_codec_ref v n = (0, b) \<Longrightarrow> if length b \<le> m
      then avro_value_write avro_codec_ref v m = (0, b) else fst (avro_value_write avro_codec_ref v m) = ENOSPC"
    unfolding avro_codec_ref_simps by (rule room_again)
  show "avro_schema_to_json avro_codec_ref s n = (0, b) \<Longrightarrow> if length b \<le> m
      then avro_schema_to_json avro_codec_ref s m = (0, b) else fst (avro_schema_to_json avro_codec_ref s m) = ENOSPC"
    unfolding avro_codec_ref_simps by (rule room_again)
qed (auto simp: avro_codec_ref_defs avro_ref_def reset_val_default dec_enc_val
    dec_shape dec_enc_schema_all dest: dec_val_schema split: option.splits if_splits)

end
