(* ===== verification/Sample.thy ===== *)
theory Sample
  imports Producer_Run Avro_Codec
begin

text \<open>
  Concrete surroundings and a concrete producer, on which the properties of the development are
  evaluated: a server that accepts every command, a registry that answers every request, a
  broker that follows a script, and one table \<open>users\<close> without a key whose rows are integers.
\<close>

definition sample_pq :: "'w pq_ops" where
  "sample_pq = \<lparr>
     PQexec = (\<lambda>c q w. (\<lparr> PQresultStatus = PGRES_COMMAND_OK, PQresultErrorMessage = [], PQnfields = 0,
                 PQfformats = [], res_rows = [] \<rparr>, w)),
     PQexecParams = (\<lambda>c q ps w. (\<lparr> PQresultStatus = PGRES_TUPLES_OK, PQresultErrorMessage = [], PQnfields = 1,
                 PQfformats = [0], res_rows = [[Some (bytes_of ''0/16B3748'')]] \<rparr>, w)),
     PQsendQueryParams = (\<lambda>c q ps f w. (True, w)),
     PQsetSingleRowMode = (\<lambda>c w. (True, w)),
     PQerrorMessage = (\<lambda>c w. []),
     PQgetResult = (\<lambda>c w. (None, w)),
     PQgetCopyData = (\<lambda>c w. (0, [], w)),
     PQputCopyData = (\<lambda>c b w. (1, w)),
     PQflush = (\<lambda>c w. (0, w)),
     PQconnectdb = (\<lambda>s w. (Some 1, w)),
     PQconnectdbParams = (\<lambda>ps w. (Some 2, w)),
     PQstatus_ok = (\<lambda>c w. True),
     PQconninfoParse = (\<lambda>s. Inr []),
     PQfinish = (\<lambda>c w. w),
     PQisBusy = (\<lambda>c w. False),
     PQconsumeInput = (\<lambda>c w. (True, w)),
     select_readable = (\<lambda>cs w. (1, 0, w)),
     gettimeofday = (\<lambda>w. ((0, 0), w)) \<rparr>"

definition sample_http :: "'w http_ops" where
  "sample_http = \<lparr>
     curl_easy_perform = (\<lambda>url body w. ((0, [], [], 200), w)),
     json_pack_dumps = (\<lambda>j. Some []),
     json_loadb = (\<lambda>b. Inr (JObject [(''id'', JInteger 42)])) \<rparr>"

definition sample_table :: table_metadata where
  "sample_table = \<lparr> table_relid = 16384, table_name = Valid ''users'', table_topic = Valid ''users'',
     key_schema_id = -1, table_key_schema = Null, row_schema_id = 42, table_row_schema = Valid SLong \<rparr>"

definition sample_entry :: schema_list_entry where
  "sample_entry = \<lparr> relid = 16384, key_schema = Null, row_schema = Valid SLong, key_iface = Null,
     row_iface = Valid SLong, key_value = Null, row_value = Valid (VLong 0), old_value = Valid (VLong 0),
     avro_reader = Valid () \<rparr>"

definition sample_context :: "'w \<Rightarrow> 'w producer_context" where
  "sample_context w = \<lparr>
     num_schemas = 1, capacity = 16, schemas = [sample_entry], frame_value = default_val frame_schema,
     reader_refs = Valid (),
     slot_name = Some ''bottledwater'', output_plugin = Some ''bottledwater'', snapshot_name = None,
     repl_conn = Some 2, start_lsn = 0, recvd_lsn = 0, fsync_lsn = 0, last_checkpoint = 0,
     repl_status = 0, repl_errbuf = ([], []), world = w,
     conninfo = Some ''postgres:'', app_name = Some ''bottledwater'', sql_conn = None,
     allow_unkeyed = True, taking_snapshot = False, client_status = 0, client_errbuf = ([], []),
     registry = None, brokers = ''localhost:9092'',
     xact_list = (\<lambda>_. \<lparr> xid = 0, recvd_events = 0, pending_events = 0, commit_lsn = 0 \<rparr>),
     xact_head = 0, xact_tail = 0,
     mapper = Some \<lparr> mapper_errbuf = ([], []), mapper_registry = None, mapper_topic_prefix = None,
       num_tables = 1, mapper_capacity = 16, tables = [sample_table] \<rparr>,
     output_format = OUTPUT_FORMAT_AVRO, topic_prefix = None, kafka_outq = [] \<rparr>"

abbreviation sample_callbacks :: "(nat list producer_context) callbacks" where
  "sample_callbacks \<equiv> producer_callbacks avro_codec_ref sample_http script_kafka sample_pq 3"

text \<open>The message that the row 5 of the sample table becomes in a transaction in slot 1.\<close>

definition sample_msg :: "kafka_msg" where
  "sample_msg = \<lparr> msg_topic = ''users'', msg_key = None, msg_val = Some [0, 0, 0, 0, 42, 10],
     msg_env = \<lparr> env_wal_pos = 110, env_relid = 16384, env_xact = 1 \<rparr> \<rparr>"

lemma sample_fresh: "fresh_producer (sample_context w)"
  by (simp add: fresh_producer_def sample_context_def)

abbreviation sample_run :: "bool \<Rightarrow> txn_log \<Rightarrow> kafka_msg list \<Rightarrow> nat list producer_context \<Rightarrow> bool" where
  "sample_run \<equiv> producer_run avro_codec_ref sample_http script_kafka sample_pq 3"

text \<open>
  A transaction with one row: open, then committed while Kafka has not acknowledged the row,
  then acknowledged.
\<close>

lemma sample_run_steps:
  "\<exists>s t u. sample_run True [(0, [])] [sample_msg] s \<and> kafka_outq s = [sample_msg] \<and> fsync_lsn s = 0 \<and>
     sample_run False [(0, []), (120, [sample_msg])] [] t \<and> kafka_outq t = [sample_msg] \<and> fsync_lsn t = 0 \<and>
     \<not> xact_list_full t \<and>
     sample_run False [(0, []), (120, [sample_msg])] [] u \<and> kafka_outq u = [] \<and> fsync_lsn u = 120"
proof -
  let ?d = "deliver_msg avro_codec_ref sample_callbacks"
  have "holds (\<lambda>e r. e = 0 \<and>
          sent_msgs avro_codec_ref r 110 (Insert 16384 None [10]) = [sample_msg] \<and>
          holds (\<lambda>e s. e = 0 \<and> kafka_outq s = [sample_msg] \<and> fsync_lsn s = 0 \<and>
            holds (\<lambda>e t. e = 0 \<and> kafka_outq t = [sample_msg] \<and> fsync_lsn t = 0 \<and> \<not> xact_list_full t \<and>
              holds (\<lambda>_ u. kafka_outq u = [] \<and> fsync_lsn u = 120) (kafka_poll script_kafka sample_pq 0 t))
            (on_commit_txn sample_pq 120 7 s))
          (?d 110 (Insert 16384 None [10]) r))
        (?d 105 (BeginTxn 7) (sample_context [1]))"
    by code_simp
  then obtain r s t u where
      r: "?d 105 (BeginTxn 7) (sample_context [1]) = Ret 0 r"
        "sent_msgs avro_codec_ref r 110 (Insert 16384 None [10]) = [sample_msg]"
    and s: "?d 110 (Insert 16384 None [10]) r = Ret 0 s" "kafka_outq s = [sample_msg]" "fsync_lsn s = 0"
    and t: "on_commit_txn sample_pq 120 7 s = Ret 0 t" "kafka_outq t = [sample_msg]" "fsync_lsn t = 0"
        "\<not> xact_list_full t"
    and u: "kafka_poll script_kafka sample_pq 0 t = Ret () u" "kafka_outq u = []" "fsync_lsn u = 120"
    unfolding holds_conv by auto
  have "sample_run True [(0, [])] [] r"
    by (rule run_begin [OF run_stream [OF sample_fresh] _ r(1)]) simp
  from run_row [OF this _ s(1)] r(2) have rs: "sample_run True [(0, [])] [sample_msg] s" by simp
  from run_commit [OF rs _ t(1)] have rt: "sample_run False [(0, []), (120, [sample_msg])] [] t"
    by (simp add: last_lsn_def)
  from run_poll [OF rt u(1)] rs rt s t u show ?thesis by blast
qed

end
