(* ===== verification/Mapper_Safety.thy ===== *)
theory Mapper_Safety
  imports Table_Mapper
begin

text \<open>
  Memory safety of the table mapper (\<open>kafka/table_mapper.c\<close>). \<open>mapper_inv\<close>: no pointer of a table
  dangles, and a table with an open topic has its name. \<open>table_mapper_update\<close> keeps the invariant as
  long as a prefixed topic name fits into its buffer, and \<open>table_mapper_free\<close> needs it.
\<close>

section \<open>The invariant\<close>

definition table_inv :: "table_metadata \<Rightarrow> bool" where
  "table_inv t \<longleftrightarrow> table_name t \<noteq> Dangling \<and> table_topic t \<noteq> Dangling \<and> table_row_schema t \<noteq> Dangling \<and>
     table_key_schema t \<noteq> Dangling \<and> (table_topic t \<noteq> Null \<longrightarrow> is_valid (table_name t))"

definition mapper_inv :: "table_mapper \<Rightarrow> bool" where
  "mapper_inv m \<longleftrightarrow> table_invar (num_tables m) (mapper_capacity m) (map table_relid (tables m)) \<and>
     (\<forall>t \<in> set (tables m). table_inv t)"

text \<open>The name that the topic gets fits into the buffer \<open>prefixed_name\<close>.\<close>

definition name_fits :: "table_mapper \<Rightarrow> string \<Rightarrow> bool" where
  "name_fits m name \<longleftrightarrow> (case mapper_topic_prefix m of
     None \<Rightarrow> True | Some prefix \<Rightarrow> length (prefixed_name prefix name) < TABLE_MAPPER_MAX_TOPIC_LEN)"

lemma tm_invar: "mapper_inv m \<Longrightarrow> tm.invar m"
  by (simp add: mapper_inv_def tm.invar_def)

lemma mapper_new_inv: "mapper_inv (table_mapper_new reg prefix)"
  by (simp add: mapper_inv_def table_mapper_new_def table_invar_def)

lemma mapper_inv_upd:
  assumes "mapper_inv m" and "i < length (tables m)" and "table_inv (f (tables m ! i))"
    and "table_relid (f (tables m ! i)) = table_relid (tables m ! i)"
  shows "mapper_inv (upd_table i f m)"
proof -
  have "(map table_relid (tables m))[i := table_relid (tables m ! i)] = map table_relid (tables m)"
    using assms(2) by (metis list_update_id nth_map)
  with assms show ?thesis unfolding mapper_inv_def upd_table_def
    by (auto simp: map_update dest!: set_update_subset_insert [THEN subsetD])
qed

lemma mapper_inv_fields [simp]:
  "mapper_inv (m\<lparr>mapper_errbuf := e\<rparr>) = mapper_inv m" "mapper_inv (m\<lparr>mapper_registry := r\<rparr>) = mapper_inv m"
  by (simp_all add: mapper_inv_def)

lemma upd_table_tables [simp]: "tables (upd_table i f m) = (tables m)[i := f (tables m ! i)]"
  by (simp add: upd_table_def)

lemma upd_table_fields [simp]:
  "mapper_topic_prefix (upd_table i f m) = mapper_topic_prefix m" "mapper_registry (upd_table i f m) = mapper_registry m"
  by (simp_all add: upd_table_def)

section \<open>Updates\<close>

text \<open>Table \<open>i\<close> is there, and has an open topic if the call succeeded.\<close>

definition topic_set :: "Oid \<Rightarrow> nat \<Rightarrow> int \<Rightarrow> table_mapper \<times> 'w \<Rightarrow> bool" where
  "topic_set rid i err s \<longleftrightarrow> mapper_inv (fst s) \<and> i < length (tables (fst s)) \<and>
     table_relid (tables (fst s) ! i) = rid \<and> (err = 0 \<longrightarrow> is_valid (table_topic (tables (fst s) ! i)))"

lemma open_topic_inv:
  assumes "i < length (tables m)" and "\<And>t. table_name t = Valid name \<Longrightarrow> table_relid t = table_relid (tables m ! i) \<Longrightarrow>
      table_row_schema t = table_row_schema (tables m ! i) \<Longrightarrow> table_key_schema t = table_key_schema (tables m ! i) \<Longrightarrow>
      table_topic t \<noteq> Dangling \<Longrightarrow> mapper_inv (upd_table i (\<lambda>_. t) m)"
    and "name_fits m name"
  shows "meets (topic_set (table_relid (tables m ! i)) i) (table_open_topic K i name (m, w))"
proof -
  let ?m = "upd_table i (\<lambda>t. t\<lparr>table_name := Valid name\<rparr>) m"
  have set: "upd_table i (\<lambda>t. t\<lparr>table_topic := p\<rparr>) ?m =
      upd_table i (\<lambda>_. (tables m ! i)\<lparr>table_name := Valid name, table_topic := p\<rparr>) m" for p
    using assms(1) by (simp add: upd_table_def)
  have inv: "mapper_inv (upd_table i (\<lambda>t. t\<lparr>table_topic := p\<rparr>) ?m)" if "p \<noteq> Dangling" for p
    unfolding set using that by (intro assms(2)) simp_all
  have opened: "meets (topic_set (table_relid (tables m ! i)) i)
      (case rd_kafka_topic_new K topic w of (t, w) \<Rightarrow> case t of
          None \<Rightarrow> Ret (-1) (mapper_error ''Cannot open Kafka topic %s: %s'' (args w) (upd_table i (\<lambda>t. t\<lparr>table_topic := Null\<rparr>) ?m), w)
        | Some t \<Rightarrow> Ret 0 (upd_table i (\<lambda>m. m\<lparr>table_topic := Valid t\<rparr>) ?m, w))" for topic args
  proof -
    have "topic_set (table_relid (tables m ! i)) i (-1)
        (mapper_error ''Cannot open Kafka topic %s: %s'' (args u) (upd_table i (\<lambda>t. t\<lparr>table_topic := Null\<rparr>) ?m), u)"
      "topic_set (table_relid (tables m ! i)) i 0 (upd_table i (\<lambda>m. m\<lparr>table_topic := Valid q\<rparr>) ?m, u)" for u q
      using assms(1) inv [of Null] inv [of "Valid q"] by (simp_all add: topic_set_def mapper_error_def)
    then show ?thesis by (simp split: prod.split option.split)
  qed
  show ?thesis
  proof (cases "mapper_topic_prefix m")
    case None
    then show ?thesis
      using opened [where topic = name and args = "\<lambda>w. [FStr name, FStr (rd_kafka_errstr K w)]"] by (simp add: table_open_topic_def Let_def)
  next
    case (Some prefix)
    with assms(3) show ?thesis
      using opened [where topic = "prefixed_name prefix name" and args = "\<lambda>w. [FStr (prefixed_name prefix name), FStr (rd_kafka_errstr K w)]"]
      by (simp add: table_open_topic_def Let_def name_fits_def)
  qed
qed

lemma update_topic_inv:
  assumes inv: "mapper_inv m" and i: "i < length (tables m)" and fits: "name_fits m name"
  shows "meets (topic_set (table_relid (tables m ! i)) i) (table_metadata_update_topic K i name (m, w))"
proof -
  let ?t = "tables m ! i"
  have t: "table_inv ?t" using inv i by (simp add: mapper_inv_def)
  have keep: "mapper_inv (upd_table i (\<lambda>_. u) m)"
    if "table_name u = Valid name" "table_relid u = table_relid ?t" "table_row_schema u = table_row_schema ?t"
      "table_key_schema u = table_key_schema ?t" "table_topic u \<noteq> Dangling" for u
    using t that by (intro mapper_inv_upd [OF inv i]) (auto simp: table_inv_def)
  have opened: "meets (topic_set (table_relid ?t) i) (table_open_topic K i name (m, w))"
    by (rule open_topic_inv [OF i]) (rule keep, assumption+, rule fits)
  show ?thesis
  proof (cases "table_topic ?t")
    case Null
    with opened show ?thesis by (simp add: table_metadata_update_topic_def)
  next
    case (Valid topic)
    with t obtain prev where prev: "table_name ?t = Valid prev" by (auto simp: table_inv_def is_valid_conv)
    let ?m = "upd_table i (\<lambda>m. m\<lparr>table_name := Dangling, table_topic := Dangling\<rparr>) m"
    have same: "upd_table i (\<lambda>_. u) ?m = upd_table i (\<lambda>_. u) m" for u by (simp add: upd_table_def)
    have m: "i < length (tables ?m)" "name_fits ?m name" "tables ?m ! i = ?t\<lparr>table_name := Dangling, table_topic := Dangling\<rparr>"
      using i fits by (simp_all add: name_fits_def)
    have keep': "mapper_inv (upd_table i (\<lambda>_. u) ?m)"
      if "table_name u = Valid name" "table_relid u = table_relid (tables ?m ! i)" "table_row_schema u = table_row_schema (tables ?m ! i)"
        "table_key_schema u = table_key_schema (tables ?m ! i)" "table_topic u \<noteq> Dangling" for u
      using that unfolding same m(3) by (intro keep) simp_all
    have "meets (topic_set (table_relid (tables ?m ! i)) i) (table_open_topic K i name (?m, w))"
      by (rule open_topic_inv [OF m(1)]) (rule keep', assumption+, rule m(2))
    then have "meets (topic_set (table_relid ?t) i) (table_open_topic K i name (?m, w))" unfolding m(3) by simp
    moreover have "table_metadata_update_topic K i name (m, w) =
        (if name \<noteq> prev then table_open_topic K i name (?m, w) else Ret 0 (m, w))"
      using Valid prev by (simp add: table_metadata_update_topic_def)
    moreover have "topic_set (table_relid ?t) i 0 (m, w)" using Valid inv i by (simp add: topic_set_def)
    ultimately show ?thesis by simp
  next
    case Dangling
    with t show ?thesis by (simp add: table_inv_def)
  qed
qed

lemma replace_schema_ok: "old \<noteq> Dangling \<Longrightarrow> \<exists>p. replace_schema old new = Some p \<and> p \<noteq> Dangling"
  by (cases old) (auto simp: replace_schema_def split: option.split)

lemma set_schema_ok:
  assumes "table_inv t"
  shows "\<exists>u. table_metadata_set_schema is_key new t = Some u \<and> table_inv u \<and> table_relid u = table_relid t \<and> table_topic u = table_topic t"
  using assms replace_schema_ok [of "table_key_schema t" new] replace_schema_ok [of "table_row_schema t" new]
  by (auto simp: table_metadata_set_schema_def table_inv_def)

lemma set_schema_id_ok [simp]:
  "table_inv (table_metadata_set_schema_id is_key sid t) = table_inv t"
  "table_relid (table_metadata_set_schema_id is_key sid t) = table_relid t"
  "table_topic (table_metadata_set_schema_id is_key sid t) = table_topic t"
  by (simp_all add: table_metadata_set_schema_id_def table_inv_def)

text \<open>The topic is open before and after.\<close>

abbreviation (input) topic_open :: "Oid \<Rightarrow> nat \<Rightarrow> table_mapper \<times> 'w \<Rightarrow> bool" where
  "topic_open rid i s \<equiv> topic_set rid i 0 s"

lemma store_schema_ok:
  assumes "topic_open rid i (m, w)"
  shows "meets (\<lambda>_. topic_open rid i) (table_store_schema A i is_key json prev sid (m, w))"
proof -
  have i: "i < length (tables m)" and inv: "mapper_inv m" using assms by (simp_all add: topic_set_def)
  then have t: "table_inv (tables m ! i)" by (simp add: mapper_inv_def)
  have "meets (\<lambda>_ :: int. topic_open rid i) (case table_metadata_set_schema is_key schema (tables m ! i) of
      None \<Rightarrow> Undef | Some table \<Rightarrow> Ret 0 (upd_table i (\<lambda>_. table) m, w))" for schema
    using set_schema_ok [OF t, of is_key schema] assms i mapper_inv_upd [OF inv i]
    by (auto simp: topic_set_def)
  note store = this
  have "topic_open rid i (mapper_error fmt args m, w)" for fmt args
    using assms by (simp add: topic_set_def mapper_error_def)
  then show ?thesis
    using assms store [of None] store [of "Some schema" for schema]
    by (cases json) (simp_all add: table_store_schema_def split: prod.split)
qed

lemma update_schema_ok:
  assumes "topic_open rid i (m, w)"
  shows "meets (\<lambda>_. topic_open rid i) (table_metadata_update_schema A R i is_key json (m, w))"
proof (cases "mapper_registry m")
  case None
  then show ?thesis by (simp add: table_metadata_update_schema_def Let_def store_schema_ok [OF assms])
next
  case (Some reg)
  obtain topic where topic: "table_topic (tables m ! i) = Valid topic" using assms by (auto simp: topic_set_def is_valid_conv)
  have i: "i < length (tables m)" and inv: "mapper_inv m" using assms by (simp_all add: topic_set_def)
  obtain err sid reg' w' where q: "schema_registry_request R topic is_key json TABLE_MAPPER_SCHEMA_ID_MISSING (reg, w) = ((err, sid), (reg', w'))"
    by (metis surj_pair)
  let ?m = "m\<lparr>mapper_registry := Some reg'\<rparr>"
  have "mapper_inv (upd_table i (table_metadata_set_schema_id is_key sid) ?m)"
    using inv i by (intro mapper_inv_upd) (auto simp: mapper_inv_def)
  then have "topic_open rid i (upd_table i (table_metadata_set_schema_id is_key sid) ?m, w')"
    using assms i by (simp add: topic_set_def)
  note store = store_schema_ok [OF this]
  have "topic_open rid i (mapper_error fmt args ?m, w')" for fmt args
    using assms by (simp add: topic_set_def mapper_error_def)
  with Some topic q show ?thesis
    by (simp add: table_metadata_update_schema_def Let_def store)
qed

text \<open>The whole update: on success it gives the table's entry, with its topic open.\<close>

definition mapped :: "Oid \<Rightarrow> nat option \<Rightarrow> table_mapper \<times> 'w \<Rightarrow> bool" where
  "mapped rid r s \<longleftrightarrow> mapper_inv (fst s) \<and>
     (case r of None \<Rightarrow> True | Some i \<Rightarrow> table_mapper_lookup (fst s) rid = Some i \<and> is_valid (table_topic (tables (fst s) ! i)))"

lemma topic_open_mapped: "topic_open rid i s \<Longrightarrow> mapped rid (Some i) s"
  by (auto simp: topic_set_def mapped_def tm.lookup_iff [OF tm_invar])

lemma table_mapper_update_ok:
  fixes w :: 'w
  assumes inv: "mapper_inv m" and fits: "name_fits m name"
  shows "meets (mapped rid) (table_mapper_update A R K rid name key_json row_json (m, w))"
proof -
  obtain i n where n: "(case table_mapper_lookup m rid of Some i \<Rightarrow> (i, m) | None \<Rightarrow> table_metadata_new rid m) = (i, n)"
    by (metis surj_pair)
  have n': "mapper_inv n" "i < length (tables n)" "table_relid (tables n ! i) = rid" "name_fits n name"
  proof -
    have "tm.upsert rid m = (i, n)" using n by (simp add: tm.upsert_def)
    note up = tm.upsert_result [OF tm_invar [OF inv] this]
    show "i < length (tables n)" "table_relid (tables n ! i) = rid" using tm.lookup_iff [OF up(1)] up(2) by simp_all
    show "mapper_inv n"
    proof (cases "table_mapper_lookup m rid")
      case None
      with n up(1) inv show ?thesis
        by (auto simp: mapper_inv_def tm.invar_def table_metadata_new_def Let_def table_inv_def split: if_splits)
    qed (use n inv in simp)
    show "name_fits n name"
      using n fits by (auto simp: name_fits_def table_metadata_new_def Let_def split: option.splits if_splits)
  qed
  have *: "meets (mapped rid) (andthen (table_metadata_update_schema A R i b json s) (\<lambda>err s. if err \<noteq> 0 then Ret None s else k s))"
    if "topic_open rid i s" "\<And>s. topic_open rid i s \<Longrightarrow> meets (mapped rid) (k s)" for b json s k
  proof -
    have "meets (\<lambda>_. topic_open rid i) (table_metadata_update_schema A R i b json (fst s, snd s))"
      using that(1) by (intro update_schema_ok) simp
    then show ?thesis unfolding meets_andthen prod.collapse
      by (rule meets_mono) (use that(2) in \<open>auto simp: mapped_def topic_set_def\<close>)
  qed
  have "meets (mapped rid) (andthen (table_metadata_update_topic K i name (n, w)) (\<lambda>err s. if err \<noteq> 0 then Ret None s else
      andthen (table_metadata_update_schema A R i True key_json s) (\<lambda>err s. if err \<noteq> 0 then Ret None s else
      andthen (table_metadata_update_schema A R i False (Some row_json) s) (\<lambda>err s. if err \<noteq> 0 then Ret None s else Ret (Some i) s))))"
    unfolding meets_andthen [of _ "table_metadata_update_topic K i name (n, w)"]
  proof (rule meets_mono)
    show "meets (topic_set rid i) (table_metadata_update_topic K i name (n, w))"
      using update_topic_inv [OF n'(1,2,4)] n'(3) by simp
    fix err and s :: "table_mapper \<times> 'w" assume s: "topic_set rid i err s"
    show "meets (mapped rid) (if err \<noteq> 0 then Ret None s else
      andthen (table_metadata_update_schema A R i True key_json s) (\<lambda>err s. if err \<noteq> 0 then Ret None s else
      andthen (table_metadata_update_schema A R i False (Some row_json) s) (\<lambda>err s. if err \<noteq> 0 then Ret None s else Ret (Some i) s)))"
    proof (cases "err = 0")
      case True
      with s have "topic_open rid i s" by simp
      then have "meets (mapped rid) (andthen (table_metadata_update_schema A R i True key_json s) (\<lambda>err s. if err \<noteq> 0 then Ret None s else
          andthen (table_metadata_update_schema A R i False (Some row_json) s) (\<lambda>err s. if err \<noteq> 0 then Ret None s else Ret (Some i) s)))"
        by (intro *) (simp_all add: topic_open_mapped)
      with True show ?thesis by simp
    next
      case False
      with s show ?thesis by (simp add: mapped_def topic_set_def)
    qed
  qed
  with n show ?thesis by (simp add: table_mapper_update_def)
qed

lemma free_tables_ok: "\<forall>t \<in> set ts. table_inv t \<Longrightarrow> \<exists>us. free_tables ts = Some us"
proof (induction ts)
  case (Cons t ts)
  have free: "p \<noteq> Dangling \<Longrightarrow> \<exists>q. release_if p = Some q" for p :: "'a ptr" by (cases p) (simp_all add: release_if_def)
  have "\<exists>u. table_metadata_free t = Some u"
    using Cons.prems free [of "table_name t"] free [of "table_topic t"] free [of "table_row_schema t"] free [of "table_key_schema t"]
    by (auto simp: table_metadata_free_def table_inv_def)
  with Cons show ?case by auto
qed simp

lemma table_mapper_free_ok: "mapper_inv m \<Longrightarrow> \<exists>n. table_mapper_free m = Ret () n"
  using free_tables_ok [of "tables m"] by (auto simp: table_mapper_free_def mapper_inv_def table_invar_def)

section \<open>Open topics\<close>

text \<open>An update touches no other table: if all topics were open before, they are open after it succeeded.\<close>

definition topics_open :: "table_mapper \<Rightarrow> bool" where
  "topics_open m \<longleftrightarrow> (\<forall>t \<in> set (tables m). is_valid (table_topic t))"

definition open_but :: "nat \<Rightarrow> table_mapper \<Rightarrow> bool" where
  "open_but i m \<longleftrightarrow> (\<forall>j < length (tables m). j \<noteq> i \<longrightarrow> is_valid (table_topic (tables m ! j)))"

lemma open_but_upds [simp]:
  "open_but i m \<Longrightarrow> open_but i (upd_table i f m)"
  "open_but i (mapper_error fmt args m) = open_but i m"
  "open_but i (m\<lparr>mapper_registry := r\<rparr>) = open_but i m"
  by (simp_all add: open_but_def mapper_error_def)

lemma open_topic_others: "open_but i m \<Longrightarrow> post (\<lambda>_ s. open_but i (fst s)) (table_open_topic K i name (m, w))"
  by (auto simp: table_open_topic_def Let_def split: option.split prod.split)

lemma update_topic_others: "open_but i m \<Longrightarrow> post (\<lambda>_ s. open_but i (fst s)) (table_metadata_update_topic K i name (m, w))"
  by (auto simp: table_metadata_update_topic_def Let_def intro!: open_topic_others split: option.split ptr.split)

lemma store_schema_others: "open_but i m \<Longrightarrow> post (\<lambda>_ s. open_but i (fst s)) (table_store_schema A i k json prev sid (m, w))"
  by (auto simp: table_store_schema_def split: option.split prod.split)

lemma update_schema_others: "open_but i m \<Longrightarrow> post (\<lambda>_ s. open_but i (fst s)) (table_metadata_update_schema A R i k json (m, w))"
  by (auto simp: table_metadata_update_schema_def Let_def intro!: store_schema_others split: option.split ptr.split prod.split)

lemma table_mapper_update_topics:
  assumes inv: "mapper_inv m" and fits: "name_fits m name" and op: "topics_open m"
  shows "meets (\<lambda>r s. mapper_inv (fst s) \<and> (r \<noteq> None \<longrightarrow> topics_open (fst s)))
    (table_mapper_update A R K rid name kj rj (m, w))"
proof -
  obtain i n where n: "(case table_mapper_lookup m rid of Some i \<Rightarrow> (i, m) | None \<Rightarrow> table_metadata_new rid m) = (i, n)"
    by (metis surj_pair)
  have len: "num_tables m = length (tables m)" using inv by (simp add: mapper_inv_def table_invar_def)
  have "open_but i n"
    using n op by (auto simp: open_but_def topics_open_def table_metadata_new_def len nth_append Let_def split: option.splits if_splits)
  have step: "post (\<lambda>r s. \<forall>j. r = Some j \<longrightarrow> j = i \<and> open_but i (fst s)) (andthen (table_metadata_update_schema A R i k json (u, v))
      (\<lambda>err s. if err \<noteq> 0 then Ret None s else h s))"
    if "open_but i u" "\<And>u v. open_but i u \<Longrightarrow> post (\<lambda>r s. \<forall>j. r = Some j \<longrightarrow> j = i \<and> open_but i (fst s)) (h (u, v))" for k json u v h
    by (rule post_andthenI [OF update_schema_others [OF that(1)]]) (use that(2) in auto)
  have "post (\<lambda>r s. \<forall>j. r = Some j \<longrightarrow> j = i \<and> open_but i (fst s)) (table_mapper_update A R K rid name kj rj (m, w))"
    unfolding table_mapper_update_def Let_def prod.case n
    by (rule post_andthenI [OF update_topic_others [OF \<open>open_but i n\<close>]]) (auto intro!: step)
  moreover have "meets (mapped rid) (table_mapper_update A R K rid name kj rj (m, w))"
    by (rule table_mapper_update_ok [OF inv fits])
  ultimately show ?thesis
    by (cases "table_mapper_update A R K rid name kj rj (m, w)")
      (auto simp: mapped_def topics_open_def open_but_def in_set_conv_nth split: option.splits)
qed

end
