(* ===== verification/Pg_Server.thy ===== *)
theory Pg_Server
  imports Avro_IO
begin

text \<open>
  The part of the PostgreSQL server that the extension (\<open>ext/\<close>) works with. Relations, tuple
  descriptors and index descriptions are records with the fields the sources read. The server's
  functions are the fields of record \<open>pg_ops\<close>, a parameter of the definitions that call them: the
  catalog lookups, the access to the columns of a tuple, the conversions of a datum, and the
  calendar functions. \<open>'t\<close> is the type of heap tuples and \<open>'d\<close> that of datums.

  \<open>ereport(ERROR)\<close> leaves the running command; it is the outcome \<open>Exit ERROR\<close>. Locks and memory
  contexts are not modelled, so \<open>relation_close\<close> and \<open>MemoryContextSwitchTo\<close> have no counterpart.
\<close>

abbreviation (input) ERROR :: int where "ERROR \<equiv> 20"

section \<open>Relations\<close>

record pg_attribute =
  attname :: string
  atttypid :: Oid
  attisdropped :: bool

type_synonym tupdesc = "pg_attribute list"

text \<open>\<open>indkey\<close> holds the column numbers of an index, counted from 1; a number below 1 is a system
  column (such as \<open>oid\<close>, number -2) or, 0, an expression.\<close>

record pg_index =
  indisvalid :: bool
  indisready :: bool
  indisprimary :: bool
  indkey :: "int list"

record relation =
  rd_id :: Oid
  relnamespace :: Oid
  relname :: string
  relreplident :: char
  rd_att :: tupdesc
  rd_index :: pg_index

abbreviation (input) REPLICA_IDENTITY_NOTHING :: char where "REPLICA_IDENTITY_NOTHING \<equiv> CHR ''n''"
abbreviation (input) REPLICA_IDENTITY_INDEX :: char where "REPLICA_IDENTITY_INDEX \<equiv> CHR ''i''"

section \<open>Functions of the server\<close>

record pg_tm =
  tm_year :: u32
  tm_mon :: u32
  tm_mday :: u32
  tm_hour :: u32
  tm_min :: u32
  tm_sec :: u32

text \<open>
  \<open>relation_open\<close> gives \<open>None\<close> where the server raises an error. \<open>heap_getattr\<close> counts columns from
  1 and gives \<open>None\<close> for null. \<open>timestamp2tm\<close> gives the broken down time, the microseconds and the
  time zone offset, and \<open>None\<close> for a timestamp out of range; its first argument says whether an
  offset is asked for. \<open>interval2tm\<close> includes \<open>DatumGetIntervalP\<close>, \<open>DatumGetTimeTzADTP\<close> gives the
  fields \<open>time\<close> and \<open>zone\<close>. C strings are their bytes before the terminating null byte.
\<close>

record ('t, 'd) pg_ops =
  RelationGetReplicaIndex :: "relation \<Rightarrow> Oid"
  RelationGetIndexList :: "relation \<Rightarrow> Oid list"
  relation_open :: "Oid \<Rightarrow> relation option"
  get_namespace_name :: "Oid \<Rightarrow> string option"
  equalTupleDescs :: "tupdesc \<Rightarrow> tupdesc \<Rightarrow> bool"
  heap_getattr :: "'t \<Rightarrow> nat \<Rightarrow> tupdesc \<Rightarrow> 'd option"
  DatumGetBool :: "'d \<Rightarrow> bool"
  DatumGetFloat4 :: "'d \<Rightarrow> u32"
  DatumGetFloat8 :: "'d \<Rightarrow> u64"
  DatumGetInt16 :: "'d \<Rightarrow> 16 word"
  DatumGetInt32 :: "'d \<Rightarrow> u32"
  DatumGetInt64 :: "'d \<Rightarrow> u64"
  DatumGetCash :: "'d \<Rightarrow> u64"
  DatumGetObjectId :: "'d \<Rightarrow> u32"
  DatumGetTransactionId :: "'d \<Rightarrow> u32"
  DatumGetCommandId :: "'d \<Rightarrow> u32"
  DatumGetDateADT :: "'d \<Rightarrow> u32"
  DatumGetTimeADT :: "'d \<Rightarrow> u64"
  DatumGetTimeTzADTP :: "'d \<Rightarrow> u64 \<times> u32"
  DatumGetTimestamp :: "'d \<Rightarrow> u64"
  DatumGetByteaP :: "'d \<Rightarrow> bytes"
  DatumGetChar :: "'d \<Rightarrow> byte"
  DatumGetName :: "'d \<Rightarrow> bytes"
  TextDatumGetCString :: "'d \<Rightarrow> bytes"
  j2date :: "u32 \<Rightarrow> u32 \<times> u32 \<times> u32"
  timestamp2tm :: "bool \<Rightarrow> u64 \<Rightarrow> (pg_tm \<times> u32 \<times> u32) option"
  interval2tm :: "'d \<Rightarrow> pg_tm \<times> u32"
  getTypeOutputInfo :: "Oid \<Rightarrow> Oid \<times> bool"
  PG_DETOAST_DATUM :: "'d \<Rightarrow> 'd"
  OidOutputFunctionCall :: "Oid \<Rightarrow> 'd \<Rightarrow> bytes"

text \<open>
  Two descriptors that \<open>equalTupleDescs\<close> finds equal agree on names, types and dropped columns:
  the function compares every attribute that the system catalog keeps.
\<close>

definition tupdescs_compared :: "('t, 'd) pg_ops \<Rightarrow> bool" where
  "tupdescs_compared P \<longleftrightarrow> (\<forall>a b. equalTupleDescs P a b \<longrightarrow> a = b)"

end
