(* ===== verification/Oid2avro.thy ===== *)
theory Oid2avro
  imports Pg_Server
begin

text \<open>
  The conversion of tables and rows from PostgreSQL to Avro, \<open>ext/oid2avro.c\<close>: the schema of a
  table or of its key index, and the translation of tuples into values of those schemas.

  Functions that fill an Avro value have the root value as their state and get the position of
  the part to fill. Reference counts of the schemas, which the functions balance, are not
  modelled; a repeated named type is an \<open>SLink\<close> to its definition, as in the code.
\<close>

section \<open>Types\<close>

abbreviation (input) BOOLOID :: Oid where "BOOLOID \<equiv> 16"
abbreviation (input) BYTEAOID :: Oid where "BYTEAOID \<equiv> 17"
abbreviation (input) CHAROID :: Oid where "CHAROID \<equiv> 18"
abbreviation (input) NAMEOID :: Oid where "NAMEOID \<equiv> 19"
abbreviation (input) INT8OID :: Oid where "INT8OID \<equiv> 20"
abbreviation (input) INT2OID :: Oid where "INT2OID \<equiv> 21"
abbreviation (input) INT4OID :: Oid where "INT4OID \<equiv> 23"
abbreviation (input) REGPROCOID :: Oid where "REGPROCOID \<equiv> 24"
abbreviation (input) TEXTOID :: Oid where "TEXTOID \<equiv> 25"
abbreviation (input) OIDOID :: Oid where "OIDOID \<equiv> 26"
abbreviation (input) XIDOID :: Oid where "XIDOID \<equiv> 28"
abbreviation (input) CIDOID :: Oid where "CIDOID \<equiv> 29"
abbreviation (input) FLOAT4OID :: Oid where "FLOAT4OID \<equiv> 700"
abbreviation (input) FLOAT8OID :: Oid where "FLOAT8OID \<equiv> 701"
abbreviation (input) CASHOID :: Oid where "CASHOID \<equiv> 790"
abbreviation (input) BPCHAROID :: Oid where "BPCHAROID \<equiv> 1042"
abbreviation (input) VARCHAROID :: Oid where "VARCHAROID \<equiv> 1043"
abbreviation (input) DATEOID :: Oid where "DATEOID \<equiv> 1082"
abbreviation (input) TIMEOID :: Oid where "TIMEOID \<equiv> 1083"
abbreviation (input) TIMESTAMPOID :: Oid where "TIMESTAMPOID \<equiv> 1114"
abbreviation (input) TIMESTAMPTZOID :: Oid where "TIMESTAMPTZOID \<equiv> 1184"
abbreviation (input) INTERVALOID :: Oid where "INTERVALOID \<equiv> 1186"
abbreviation (input) TIMETZOID :: Oid where "TIMETZOID \<equiv> 1266"
abbreviation (input) NUMERICOID :: Oid where "NUMERICOID \<equiv> 1700"

abbreviation GENERATED_SCHEMA_NAMESPACE :: string where
  "GENERATED_SCHEMA_NAMESPACE \<equiv> ''com.martinkl.bottledwater.dbschema''"
abbreviation PREDEFINED_SCHEMA_NAMESPACE :: string where
  "PREDEFINED_SCHEMA_NAMESPACE \<equiv> ''com.martinkl.bottledwater.datatypes''"

section \<open>Schemas\<close>

text \<open>The named types already used in the schema under construction; \<open>None\<close> is a null pointer.\<close>

record predef_schema =
  date_schema :: "avro_schema option"
  time_tz_schema :: "avro_schema option"
  datetime_schema :: "avro_schema option"
  datetime_tz_schema :: "avro_schema option"
  interval_schema :: "avro_schema option"
  special_time_schema :: "avro_schema option"

definition no_predef :: predef_schema where
  "no_predef = \<lparr> date_schema = None, time_tz_schema = None, datetime_schema = None,
     datetime_tz_schema = None, interval_schema = None, special_time_schema = None \<rparr>"

definition schema_for_numeric :: "predef_schema \<Rightarrow> avro_schema" where
  "schema_for_numeric predef = SDouble"

definition schema_for_special_times :: "predef_schema \<Rightarrow> avro_schema \<Rightarrow> avro_schema \<times> predef_schema" where
  "schema_for_special_times predef record_schema =
     (let union_schema = SUnion [];
          union_schema = avro_schema_union_append union_schema SNull;
          union_schema = avro_schema_union_append union_schema record_schema;
          (enum_schema, predef) = (case special_time_schema predef of
             Some s \<Rightarrow> (SLink s, predef)
           | None \<Rightarrow> let s = SEnum ''SpecialTime'' [''POS_INFINITY'', ''NEG_INFINITY'']
                     in (s, predef\<lparr>special_time_schema := Some s\<rparr>))
      in (avro_schema_union_append union_schema enum_schema, predef))"

definition schema_for_date_fields :: "avro_schema \<Rightarrow> avro_schema" where
  "schema_for_date_fields record_schema =
     (let record_schema = avro_schema_record_field_append record_schema ''year'' SInt;
          record_schema = avro_schema_record_field_append record_schema ''month'' SInt
      in avro_schema_record_field_append record_schema ''day'' SInt)"

definition schema_for_time_fields :: "avro_schema \<Rightarrow> avro_schema" where
  "schema_for_time_fields record_schema =
     (let record_schema = avro_schema_record_field_append record_schema ''hour'' SInt;
          record_schema = avro_schema_record_field_append record_schema ''minute'' SInt;
          record_schema = avro_schema_record_field_append record_schema ''second'' SInt
      in avro_schema_record_field_append record_schema ''micro'' SInt)"

definition schema_for_date :: "predef_schema \<Rightarrow> avro_schema \<times> predef_schema" where
  "schema_for_date predef = (case date_schema predef of
     Some s \<Rightarrow> schema_for_special_times predef (SLink s)
   | None \<Rightarrow>
       let s = schema_for_date_fields (SRecord ''Date'' PREDEFINED_SCHEMA_NAMESPACE [])
       in schema_for_special_times (predef\<lparr>date_schema := Some s\<rparr>) s)"

definition schema_for_time_tz :: "predef_schema \<Rightarrow> avro_schema \<times> predef_schema" where
  "schema_for_time_tz predef = (case time_tz_schema predef of
     Some s \<Rightarrow> (SLink s, predef)
   | None \<Rightarrow>
       let record_schema = SRecord ''TimeTZ'' PREDEFINED_SCHEMA_NAMESPACE [];
           record_schema = avro_schema_record_field_append record_schema ''micro'' SLong;
           record_schema = avro_schema_record_field_append record_schema ''zoneOffset'' SInt
       in (record_schema, predef\<lparr>time_tz_schema := Some record_schema\<rparr>))"

definition schema_for_timestamp :: "predef_schema \<Rightarrow> bool \<Rightarrow> avro_schema \<times> predef_schema" where
  "schema_for_timestamp predef with_tz =
     (case if with_tz then datetime_tz_schema predef else datetime_schema predef of
        Some s \<Rightarrow> schema_for_special_times predef (SLink s)
      | None \<Rightarrow>
          let record_schema = SRecord (if with_tz then ''DateTimeTZ'' else ''DateTime'')
                PREDEFINED_SCHEMA_NAMESPACE [];
              record_schema = schema_for_date_fields record_schema;
              record_schema = schema_for_time_fields record_schema
          in if with_tz then
               let record_schema = avro_schema_record_field_append record_schema ''zoneOffset'' SInt
               in schema_for_special_times (predef\<lparr>datetime_tz_schema := Some record_schema\<rparr>) record_schema
             else schema_for_special_times (predef\<lparr>datetime_schema := Some record_schema\<rparr>) record_schema)"

definition schema_for_interval :: "predef_schema \<Rightarrow> avro_schema \<times> predef_schema" where
  "schema_for_interval predef = (case interval_schema predef of
     Some s \<Rightarrow> (SLink s, predef)
   | None \<Rightarrow>
       let s = SRecord ''Interval'' PREDEFINED_SCHEMA_NAMESPACE [];
           s = schema_for_date_fields s;
           s = schema_for_time_fields s
       in (s, predef\<lparr>interval_schema := Some s\<rparr>))"

text \<open>The union of null and a value schema, after the \<open>switch\<close> of \<open>schema_for_oid\<close>.\<close>

definition with_null :: "avro_schema \<times> predef_schema \<Rightarrow> avro_schema \<times> predef_schema" where
  "with_null vp = (case vp of (value_schema, predef) \<Rightarrow>
     (avro_schema_union_append (avro_schema_union_append (SUnion []) SNull) value_schema, predef))"

definition schema_for_oid :: "predef_schema \<Rightarrow> Oid \<Rightarrow> avro_schema \<times> predef_schema" where
  "schema_for_oid predef typid =
     (if typid = BOOLOID then with_null (SBoolean, predef)
      else if typid = FLOAT4OID then with_null (SFloat, predef)
      else if typid = FLOAT8OID then with_null (SDouble, predef)
      else if typid = INT2OID \<or> typid = INT4OID then with_null (SInt, predef)
      else if typid = INT8OID \<or> typid = CASHOID \<or> typid = OIDOID \<or> typid = REGPROCOID \<or>
              typid = XIDOID \<or> typid = CIDOID then with_null (SLong, predef)
      else if typid = NUMERICOID then with_null (schema_for_numeric predef, predef)
      else if typid = DATEOID then schema_for_date predef
      else if typid = TIMEOID then with_null (SLong, predef)
      else if typid = TIMETZOID then with_null (schema_for_time_tz predef)
      else if typid = TIMESTAMPOID then schema_for_timestamp predef False
      else if typid = TIMESTAMPTZOID then schema_for_timestamp predef True
      else if typid = INTERVALOID then with_null (schema_for_interval predef)
      else if typid = BYTEAOID then with_null (SBytes, predef)
      else with_null (SString, predef))"

section \<open>Tables\<close>

text \<open>
  \<open>table_key_index\<close> opens the replica identity index or, failing that, the first valid primary key
  index; \<open>Ret None\<close> is the null pointer of an unkeyed table.
\<close>

fun find_primary :: "('t, 'd) pg_ops \<Rightarrow> Oid list \<Rightarrow> ('s, relation option) prog" where
  "find_primary P [] s = Ret None s"
| "find_primary P (index_oid # indexes) s = (case relation_open P index_oid of
     None \<Rightarrow> Exit ERROR s
   | Some index_rel \<Rightarrow>
       let index = rd_index index_rel in
       if indisvalid index \<and> indisready index \<and> indisprimary index then Ret (Some index_rel) s
       else find_primary P indexes s)"

definition table_key_index :: "('t, 'd) pg_ops \<Rightarrow> relation \<Rightarrow> ('s, relation option) prog" where
  "table_key_index P rel s =
     (let replident = relreplident rel in
      if replident = REPLICA_IDENTITY_NOTHING then Ret None s
      else
        let repl_ident_oid = (if replident = REPLICA_IDENTITY_INDEX then RelationGetReplicaIndex P rel
                              else InvalidOid)
        in if repl_ident_oid \<noteq> InvalidOid then
             (case relation_open P repl_ident_oid of None \<Rightarrow> Exit ERROR s | Some r \<Rightarrow> Ret (Some r) s)
           else find_primary P (RelationGetIndexList P rel) s)"

fun row_schema_fields :: "predef_schema \<Rightarrow> tupdesc \<Rightarrow> avro_schema \<Rightarrow> avro_schema" where
  "row_schema_fields predef [] record_schema = record_schema"
| "row_schema_fields predef (attr # attrs) record_schema =
     (if attisdropped attr then row_schema_fields predef attrs record_schema
      else
        let (column_schema, predef) = schema_for_oid predef (atttypid attr)
        in row_schema_fields predef attrs
             (avro_schema_record_field_append record_schema (attname attr) column_schema))"

definition schema_for_table_row :: "('t, 'd) pg_ops \<Rightarrow> relation \<Rightarrow> avro_schema" where
  "schema_for_table_row P rel =
     (let namespace = (case get_namespace_name P (relnamespace rel) of
            None \<Rightarrow> GENERATED_SCHEMA_NAMESPACE
          | Some rel_namespace \<Rightarrow> GENERATED_SCHEMA_NAMESPACE @ ''.'' @ rel_namespace)
      in row_schema_fields no_predef (rd_att rel) (SRecord (relname rel) namespace []))"

definition schema_for_table_key :: "('t, 'd) pg_ops \<Rightarrow> relation \<Rightarrow> ('s, avro_schema option) prog" where
  "schema_for_table_key P rel s = andthen (table_key_index P rel s) (\<lambda>index_rel s.
     case index_rel of None \<Rightarrow> Ret None s | Some r \<Rightarrow> Ret (Some (schema_for_table_row P r)) s)"

section \<open>Datums\<close>

text \<open>Get several fields of a record, then set them: the shape of the functions for records.\<close>

fun get_fields :: "('z avro_ops_scheme) \<Rightarrow> vpos \<Rightarrow> nat list \<Rightarrow> (vpos list \<Rightarrow> (avro_val, int) prog) \<Rightarrow>
    (avro_val, int) prog" where
  "get_fields A record_val [] k v = k [] v"
| "get_fields A record_val (i # is) k v =
     check_read (\<lambda>v. avro_value_get_by_index A v record_val i)
       (\<lambda>f. get_fields A record_val is (\<lambda>fs. k (f # fs))) v"

fun set_leaves :: "('z avro_ops_scheme) \<Rightarrow> (vpos \<times> avro_val) list \<Rightarrow> (avro_val, int) prog \<Rightarrow> (avro_val, int) prog" where
  "set_leaves A [] k v = k v"
| "set_leaves A ((f, x) # fxs) k v = check_upd (avro_value_set_leaf A f x) (set_leaves A fxs k) v"

abbreviation (input) DATEVAL_NOBEGIN :: u32 where "DATEVAL_NOBEGIN \<equiv> 0x80000000"
abbreviation (input) DATEVAL_NOEND :: u32 where "DATEVAL_NOEND \<equiv> 0x7FFFFFFF"
abbreviation (input) DT_NOBEGIN :: u64 where "DT_NOBEGIN \<equiv> 0x8000000000000000"
abbreviation (input) DT_NOEND :: u64 where "DT_NOEND \<equiv> 0x7FFFFFFFFFFFFFFF"

definition update_avro_with_date :: "('z avro_ops_scheme) \<Rightarrow> ('t, 'd) pg_ops \<Rightarrow> vpos \<Rightarrow> u32 \<Rightarrow> (avro_val, int) prog" where
  "update_avro_with_date A P union_val date =
     (if date = DATEVAL_NOBEGIN \<or> date = DATEVAL_NOEND then
        check_new (avro_value_set_branch A union_val 2) (\<lambda>enum_val v.
          Ret 0 (snd (avro_value_set_enum A enum_val (if date = DATEVAL_NOBEGIN then 1 else 0) v)))
      else
        let (year, month, day) = j2date P (date + 2451545) in
        check_new (avro_value_set_branch A union_val 1) (\<lambda>record_val.
        get_fields A record_val [0, 1, 2] (\<lambda>fs.
        set_leaves A (zip fs [VInt year, VInt month, VInt day]) (Ret 0))))"

definition update_avro_with_time_tz :: "('z avro_ops_scheme) \<Rightarrow> vpos \<Rightarrow> u64 \<times> u32 \<Rightarrow> (avro_val, int) prog" where
  "update_avro_with_time_tz A record_val tz =
     get_fields A record_val [0, 1] (\<lambda>fs. set_leaves A (zip fs [VLong (fst tz), VInt (- snd tz)]) (Ret 0))"

definition tm_leaves :: "pg_tm \<Rightarrow> u32 \<Rightarrow> avro_val list" where
  "tm_leaves tm fsec = [VInt (tm_year tm), VInt (tm_mon tm), VInt (tm_mday tm), VInt (tm_hour tm),
     VInt (tm_min tm), VInt (tm_sec tm), VInt fsec]"

definition update_avro_with_timestamp :: "('z avro_ops_scheme) \<Rightarrow> ('t, 'd) pg_ops \<Rightarrow> vpos \<Rightarrow> bool \<Rightarrow> u64 \<Rightarrow>
    (avro_val, int) prog" where
  "update_avro_with_timestamp A P union_val with_tz timestamp v =
     (if timestamp = DT_NOBEGIN \<or> timestamp = DT_NOEND then
        check_new (avro_value_set_branch A union_val 2) (\<lambda>enum_val.
        check_upd (avro_value_set_enum A enum_val (if timestamp = DT_NOBEGIN then 1 else 0)) (Ret 0)) v
      else (case timestamp2tm P with_tz timestamp of
          None \<Rightarrow> Exit ERROR v
        | Some (decoded, fsec, tz_offset) \<Rightarrow>
            check_new (avro_value_set_branch A union_val 1) (\<lambda>record_val.
            get_fields A record_val [0, 1, 2, 3, 4, 5, 6] (\<lambda>fs.
            set_leaves A (zip fs (tm_leaves decoded fsec))
              (if with_tz then
                 check_read (\<lambda>v. avro_value_get_by_index A v record_val 7) (\<lambda>zone_val.
                 check_upd (avro_value_set_int A zone_val (- tz_offset)) (Ret 0))
               else Ret 0))) v))"

definition update_avro_with_interval :: "('z avro_ops_scheme) \<Rightarrow> ('t, 'd) pg_ops \<Rightarrow> vpos \<Rightarrow> 'd \<Rightarrow> (avro_val, int) prog" where
  "update_avro_with_interval A P record_val interval =
     (let (decoded, fsec) = interval2tm P interval in
      get_fields A record_val [0, 1, 2, 3, 4, 5, 6] (\<lambda>fs.
      set_leaves A (zip fs (tm_leaves decoded fsec)) (Ret 0)))"

definition update_avro_with_bytes :: "('z avro_ops_scheme) \<Rightarrow> vpos \<Rightarrow> bytes \<Rightarrow> (avro_val, int) prog" where
  "update_avro_with_bytes A output_val b = check_upd (avro_value_set_bytes A output_val b) (Ret 0)"

text \<open>\<open>avro_value_set_string\<close> takes the bytes of a C string.\<close>

abbreviation avro_value_set_string :: "('z avro_ops_scheme) \<Rightarrow> vpos \<Rightarrow> bytes \<Rightarrow> avro_val \<Rightarrow> int \<times> avro_val" where
  "avro_value_set_string A p b \<equiv> avro_value_set_leaf A p (VString b)"

definition update_avro_with_char :: "('z avro_ops_scheme) \<Rightarrow> vpos \<Rightarrow> byte \<Rightarrow> (avro_val, int) prog" where
  "update_avro_with_char A output_val c =
     check_upd (avro_value_set_string A output_val (takeWhile (\<lambda>b. b \<noteq> 0) [c, 0])) (Ret 0)"

definition type_string :: "('t, 'd) pg_ops \<Rightarrow> Oid \<Rightarrow> 'd \<Rightarrow> bytes" where
  "type_string P typid pg_datum =
     (let (output_func, is_varlena) = getTypeOutputInfo P typid;
          pg_datum = (if is_varlena then PG_DETOAST_DATUM P pg_datum else pg_datum)
      in OidOutputFunctionCall P output_func pg_datum)"

definition update_avro_with_string :: "('z avro_ops_scheme) \<Rightarrow> ('t, 'd) pg_ops \<Rightarrow> vpos \<Rightarrow> Oid \<Rightarrow> 'd \<Rightarrow>
    (avro_val, int) prog" where
  "update_avro_with_string A P output_val typid pg_datum =
     check_upd (avro_value_set_string A output_val (type_string P typid pg_datum)) (Ret 0)"

text \<open>The \<open>switch\<close> of \<open>update_avro_with_datum\<close> for the types that handle nullability themselves, and
  for the others, which fill branch 1 of the union.\<close>

definition update_branch :: "('z avro_ops_scheme) \<Rightarrow> ('t, 'd) pg_ops \<Rightarrow> vpos \<Rightarrow> Oid \<Rightarrow> 'd \<Rightarrow> (avro_val, int) prog" where
  "update_branch A P branch_val typid pg_datum =
     (if typid = BOOLOID then check_upd (avro_value_set_boolean A branch_val (DatumGetBool P pg_datum)) (Ret 0)
      else if typid = FLOAT4OID then check_upd (avro_value_set_leaf A branch_val (VFloat (DatumGetFloat4 P pg_datum))) (Ret 0)
      else if typid = FLOAT8OID then check_upd (avro_value_set_leaf A branch_val (VDouble (DatumGetFloat8 P pg_datum))) (Ret 0)
      else if typid = INT2OID then check_upd (avro_value_set_int A branch_val (scast (DatumGetInt16 P pg_datum))) (Ret 0)
      else if typid = INT4OID then check_upd (avro_value_set_int A branch_val (DatumGetInt32 P pg_datum)) (Ret 0)
      else if typid = INT8OID then check_upd (avro_value_set_long A branch_val (DatumGetInt64 P pg_datum)) (Ret 0)
      else if typid = CASHOID then check_upd (avro_value_set_long A branch_val (DatumGetCash P pg_datum)) (Ret 0)
      else if typid = OIDOID \<or> typid = REGPROCOID then
        check_upd (avro_value_set_long A branch_val (ucast (DatumGetObjectId P pg_datum))) (Ret 0)
      else if typid = XIDOID then check_upd (avro_value_set_long A branch_val (ucast (DatumGetTransactionId P pg_datum))) (Ret 0)
      else if typid = CIDOID then check_upd (avro_value_set_long A branch_val (ucast (DatumGetCommandId P pg_datum))) (Ret 0)
      else if typid = NUMERICOID then Ret 0
      else if typid = TIMEOID then check_upd (avro_value_set_long A branch_val (DatumGetTimeADT P pg_datum)) (Ret 0)
      else if typid = TIMETZOID then update_avro_with_time_tz A branch_val (DatumGetTimeTzADTP P pg_datum)
      else if typid = INTERVALOID then update_avro_with_interval A P branch_val pg_datum
      else if typid = BYTEAOID then update_avro_with_bytes A branch_val (DatumGetByteaP P pg_datum)
      else if typid = CHAROID then update_avro_with_char A branch_val (DatumGetChar P pg_datum)
      else if typid = NAMEOID then check_upd (avro_value_set_string A branch_val (DatumGetName P pg_datum)) (Ret 0)
      else if typid = TEXTOID \<or> typid = BPCHAROID \<or> typid = VARCHAROID then
        check_upd (avro_value_set_string A branch_val (TextDatumGetCString P pg_datum)) (Ret 0)
      else update_avro_with_string A P branch_val typid pg_datum)"

definition update_avro_with_datum :: "('z avro_ops_scheme) \<Rightarrow> ('t, 'd) pg_ops \<Rightarrow> vpos \<Rightarrow> Oid \<Rightarrow> 'd \<Rightarrow>
    (avro_val, int) prog" where
  "update_avro_with_datum A P output_val typid pg_datum =
     (if typid = DATEOID then update_avro_with_date A P output_val (DatumGetDateADT P pg_datum)
      else if typid = TIMESTAMPOID then
        update_avro_with_timestamp A P output_val False (DatumGetTimestamp P pg_datum)
      else if typid = TIMESTAMPTZOID then
        update_avro_with_timestamp A P output_val True (DatumGetTimestamp P pg_datum)
      else check_new (avro_value_set_branch A output_val 1) (\<lambda>branch_val.
        update_branch A P branch_val typid pg_datum))"

section \<open>Tuples\<close>

definition update_column :: "('z avro_ops_scheme) \<Rightarrow> ('t, 'd) pg_ops \<Rightarrow> vpos \<Rightarrow> Oid \<Rightarrow> 'd option \<Rightarrow>
    (avro_val, int) prog" where
  "update_column A P field_val typid datum v = (case datum of
     None \<Rightarrow> check_new (avro_value_set_branch A field_val 0) (\<lambda>_. Ret 0) v
   | Some d \<Rightarrow> update_avro_with_datum A P field_val typid d v)"

fun tuple_columns :: "('z avro_ops_scheme) \<Rightarrow> ('t, 'd) pg_ops \<Rightarrow> tupdesc \<Rightarrow> 't \<Rightarrow> nat list \<Rightarrow> nat \<Rightarrow>
    (avro_val, int) prog" where
  "tuple_columns A P tupdesc tuple [] field v = Ret 0 v"
| "tuple_columns A P tupdesc tuple (i # is) field v =
     (let attr = tupdesc ! i in
      if attisdropped attr then tuple_columns A P tupdesc tuple is field v
      else
        check_read (\<lambda>v. avro_value_get_by_index A v [] field) (\<lambda>field_val v.
        check (update_column A P field_val (atttypid attr) (heap_getattr P tuple (i + 1) tupdesc) v)
          (tuple_columns A P tupdesc tuple is (field + 1))) v)"

definition tuple_to_avro_row :: "('z avro_ops_scheme) \<Rightarrow> ('t, 'd) pg_ops \<Rightarrow> tupdesc \<Rightarrow> 't \<Rightarrow> (avro_val, int) prog" where
  "tuple_to_avro_row A P tupdesc tuple =
     check_upd (avro_value_reset A) (tuple_columns A P tupdesc tuple [0..<length tupdesc] 0)"

text \<open>
  The column of the tuple that corresponds to column \<open>attnum\<close> of the table: the loop over \<open>rel_i\<close>.
  \<open>None\<close> is a read beyond the end of a descriptor.
\<close>

fun tuple_column :: "tupdesc \<Rightarrow> tupdesc \<Rightarrow> nat list \<Rightarrow> nat \<Rightarrow> nat option" where
  "tuple_column rel_tupdesc tupdesc [] tup_i = Some tup_i"
| "tuple_column rel_tupdesc tupdesc (rel_i # is) tup_i =
     (if length rel_tupdesc \<le> rel_i then None
      else if \<not> attisdropped (rel_tupdesc ! rel_i) then tuple_column rel_tupdesc tupdesc is (tup_i + 1)
      else if length tupdesc \<le> tup_i then None
      else if attisdropped (tupdesc ! tup_i) then tuple_column rel_tupdesc tupdesc is (tup_i + 1)
      else tuple_column rel_tupdesc tupdesc is tup_i)"

fun key_columns :: "('z avro_ops_scheme) \<Rightarrow> ('t, 'd) pg_ops \<Rightarrow> tupdesc \<Rightarrow> 't \<Rightarrow> tupdesc \<Rightarrow> int list \<Rightarrow> nat \<Rightarrow>
    (avro_val, int) prog" where
  "key_columns A P tupdesc tuple rel_tupdesc [] field v = Ret 0 v"
| "key_columns A P tupdesc tuple rel_tupdesc (key # keys) field v =
     (let attnum = key - 1 in
      case tuple_column rel_tupdesc tupdesc [0..<nat attnum] 0 of
        None \<Rightarrow> Undef
      | Some tup_i \<Rightarrow>
          if length tupdesc \<le> tup_i \<or> attisdropped (tupdesc ! tup_i) then Exit ERROR v
          else
            let attr = tupdesc ! tup_i in
            check_read (\<lambda>v. avro_value_get_by_index A v [] field) (\<lambda>field_val v.
            check (update_column A P field_val (atttypid attr) (heap_getattr P tuple (tup_i + 1) tupdesc) v)
              (key_columns A P tupdesc tuple rel_tupdesc keys (field + 1))) v)"

definition tuple_to_avro_key :: "('z avro_ops_scheme) \<Rightarrow> ('t, 'd) pg_ops \<Rightarrow> tupdesc \<Rightarrow> 't \<Rightarrow> relation \<Rightarrow>
    pg_index \<Rightarrow> (avro_val, int) prog" where
  "tuple_to_avro_key A P tupdesc tuple rel key_index =
     check_upd (avro_value_reset A) (key_columns A P tupdesc tuple (rd_att rel) (indkey key_index) 0)"

end
