(* ===== verification/Schema_Cache.thy ===== *)
theory Schema_Cache
  imports Oid2avro "HOL-Library.AList"
begin

text \<open>
  The schemas the server has sent to the client, \<open>ext/schema_cache.c\<close>. The hash table is an
  association list by relid; a pointer to one of its entries is the relid. The pointers of an
  entry own what they point to (\<open>ptr\<close>). Reading or comparing a null namespace name, which
  \<open>strcpy\<close> and \<open>strcmp\<close> do not allow, is undefined behaviour.
\<close>

section \<open>State\<close>

record schema_cache_entry =
  sc_relid :: Oid
  sc_relname :: string
  sc_ns_id :: Oid
  sc_ns_name :: string
  sc_key_id :: Oid
  sc_key_name :: string
  sc_keyns_id :: Oid
  sc_keyns_name :: string
  sc_key_tupdesc :: "tupdesc ptr"
  sc_row_tupdesc :: "tupdesc ptr"
  sc_key_schema :: "avro_schema ptr"
  sc_row_schema :: "avro_schema ptr"
  sc_key_iface :: "avro_schema ptr"
  sc_row_iface :: "avro_schema ptr"
  sc_key_value :: "avro_val ptr"
  sc_row_value :: "avro_val ptr"

type_synonym schema_cache = "(Oid \<times> schema_cache_entry) list"

text \<open>The entry after \<open>memset(entry, 0, ...)\<close>.\<close>

definition zero_entry :: schema_cache_entry where
  "zero_entry = \<lparr> sc_relid = 0, sc_relname = [], sc_ns_id = 0, sc_ns_name = [], sc_key_id = 0,
     sc_key_name = [], sc_keyns_id = 0, sc_keyns_name = [], sc_key_tupdesc = Null, sc_row_tupdesc = Null,
     sc_key_schema = Null, sc_row_schema = Null, sc_key_iface = Null, sc_row_iface = Null,
     sc_key_value = Null, sc_row_value = Null \<rparr>"

text \<open>An entry that \<open>hash_search\<close> has just entered: only its key is set, its pointers are garbage.\<close>

definition entered :: "Oid \<Rightarrow> schema_cache_entry" where
  "entered rid = \<lparr> sc_relid = rid, sc_relname = [], sc_ns_id = 0, sc_ns_name = [], sc_key_id = 0,
     sc_key_name = [], sc_keyns_id = 0, sc_keyns_name = [], sc_key_tupdesc = Dangling, sc_row_tupdesc = Dangling,
     sc_key_schema = Dangling, sc_row_schema = Dangling, sc_key_iface = Dangling, sc_row_iface = Dangling,
     sc_key_value = Dangling, sc_row_value = Dangling \<rparr>"

definition schema_cache_new :: schema_cache where
  "schema_cache_new = []"

section \<open>Operations\<close>

definition set_key_index :: "('t, 'd) pg_ops \<Rightarrow> relation option \<Rightarrow> schema_cache_entry \<Rightarrow> schema_cache_entry option" where
  "set_key_index P index_rel entry = (case index_rel of
     Some idx \<Rightarrow> (case get_namespace_name P (relnamespace idx) of
         None \<Rightarrow> None
       | Some keyns \<Rightarrow> Some (entry\<lparr>sc_key_id := rd_id idx, sc_keyns_id := relnamespace idx,
           sc_key_name := relname idx, sc_keyns_name := keyns, sc_key_tupdesc := Valid (rd_att idx)\<rparr>))
   | None \<Rightarrow> Some (entry\<lparr>sc_key_id := InvalidOid, sc_keyns_id := InvalidOid, sc_key_tupdesc := Null\<rparr>))"

definition set_schemas :: "('z avro_io_scheme) \<Rightarrow> avro_schema option \<Rightarrow> avro_schema \<Rightarrow> schema_cache_entry \<Rightarrow> schema_cache_entry" where
  "set_schemas A kschema rschema entry =
     (let entry = entry\<lparr>sc_key_schema := (case kschema of None \<Rightarrow> Null | Some k \<Rightarrow> Valid k),
            sc_row_schema := Valid rschema, sc_row_iface := Valid rschema,
            sc_row_value := Valid (snd (avro_generic_value_new A rschema))\<rparr>
      in case kschema of
           Some k \<Rightarrow> entry\<lparr>sc_key_iface := Valid k, sc_key_value := Valid (snd (avro_generic_value_new A k))\<rparr>
         | None \<Rightarrow> entry)"

definition schema_cache_entry_update :: "('z avro_io_scheme) \<Rightarrow> ('t, 'd) pg_ops \<Rightarrow> schema_cache_entry \<Rightarrow> relation \<Rightarrow>
    ('s, schema_cache_entry) prog" where
  "schema_cache_entry_update A P entry rel s = (case get_namespace_name P (relnamespace rel) of
     None \<Rightarrow> Undef
   | Some ns \<Rightarrow>
       let entry = entry\<lparr>sc_relid := rd_id rel, sc_ns_id := relnamespace rel,
             sc_relname := relname rel, sc_ns_name := ns\<rparr>
       in andthen (table_key_index P rel s) (\<lambda>index_rel s.
          case set_key_index P index_rel entry of
            None \<Rightarrow> Undef
          | Some entry \<Rightarrow>
              let entry = entry\<lparr>sc_row_tupdesc := Valid (rd_att rel)\<rparr> in
              andthen (schema_for_table_key P rel s) (\<lambda>kschema s.
                Ret (set_schemas A kschema (schema_for_table_row P rel) entry) s)))"

text \<open>\<open>strcmp(name, get_namespace_name(id)) != 0\<close>\<close>

definition namespace_differs :: "('t, 'd) pg_ops \<Rightarrow> string \<Rightarrow> Oid \<Rightarrow> (bool \<Rightarrow> ('s, 'a) prog) \<Rightarrow> ('s, 'a) prog" where
  "namespace_differs P name nsid k s = (case get_namespace_name P nsid of
     None \<Rightarrow> Undef | Some ns \<Rightarrow> k (name \<noteq> ns) s)"

text \<open>\<open>!equalTupleDescs(desc, other)\<close> for a descriptor of the entry.\<close>

definition tupdesc_differs :: "('t, 'd) pg_ops \<Rightarrow> tupdesc ptr \<Rightarrow> tupdesc \<Rightarrow> (bool \<Rightarrow> ('s, 'a) prog) \<Rightarrow> ('s, 'a) prog" where
  "tupdesc_differs P desc other k s = (case desc of
     Valid td \<Rightarrow> k (\<not> equalTupleDescs P td other) s | _ \<Rightarrow> Undef)"

definition schema_cache_entry_changed :: "('t, 'd) pg_ops \<Rightarrow> schema_cache_entry \<Rightarrow> relation \<Rightarrow> ('s, bool) prog" where
  "schema_cache_entry_changed P entry rel s =
     (if sc_relid entry \<noteq> rd_id rel then Ret True s
      else if sc_ns_id entry \<noteq> relnamespace rel then Ret True s
      else if sc_relname entry \<noteq> relname rel then Ret True s
      else namespace_differs P (sc_ns_name entry) (sc_ns_id entry) (\<lambda>differs s.
        if differs then Ret True s
        else
          andthen (table_key_index P rel s) (\<lambda>index_rel.
            let row = tupdesc_differs P (sc_row_tupdesc entry) (rd_att rel) Ret in
            case index_rel of
              Some idx \<Rightarrow>
                if sc_key_id entry \<noteq> InvalidOid then
                  namespace_differs P (sc_keyns_name entry) (sc_keyns_id entry) (\<lambda>nsdiffers.
                  tupdesc_differs P (sc_key_tupdesc entry) (rd_att idx) (\<lambda>tddiffers s.
                    if sc_key_id entry \<noteq> rd_id idx \<or> sc_keyns_id entry \<noteq> relnamespace idx \<or>
                       sc_key_name entry \<noteq> relname idx \<or> nsdiffers \<or> tddiffers
                    then Ret True s else row s))
                else Ret True
            | None \<Rightarrow> if sc_key_id entry \<noteq> InvalidOid then Ret True else row)) s)"

definition schema_cache_entry_decrefs :: "schema_cache_entry \<Rightarrow> schema_cache_entry option" where
  "schema_cache_entry_decrefs entry =
     Option.bind (release_if (sc_key_tupdesc entry)) (\<lambda>_.
     Option.bind (release_if (sc_row_tupdesc entry)) (\<lambda>_.
     Option.bind (release (sc_row_value entry)) (\<lambda>_.
     Option.bind (release (sc_row_iface entry)) (\<lambda>_.
     Option.bind (release (sc_row_schema entry)) (\<lambda>_.
       if sc_key_schema entry = Null then Some zero_entry
       else
         Option.bind (release (sc_key_value entry)) (\<lambda>_.
         Option.bind (release (sc_key_iface entry)) (\<lambda>_.
         Option.bind (release (sc_key_schema entry)) (\<lambda>_. Some zero_entry))))))))"

text \<open>0: unchanged, 1: changed, 2: not seen before. The entry is that of the relation's oid.\<close>

definition schema_cache_lookup :: "('z avro_io_scheme) \<Rightarrow> ('t, 'd) pg_ops \<Rightarrow> relation \<Rightarrow> (schema_cache, int) prog" where
  "schema_cache_lookup A P rel cache =
     (let rid = rd_id rel in
      case map_of cache rid of
        Some entry \<Rightarrow>
          andthen (schema_cache_entry_changed P entry rel cache) (\<lambda>changed cache.
            if \<not> changed then Ret 0 cache
            else (case schema_cache_entry_decrefs entry of
                None \<Rightarrow> Undef
              | Some entry \<Rightarrow>
                  andthen (schema_cache_entry_update A P entry rel (AList.update rid entry cache))
                    (\<lambda>entry cache. Ret 1 (AList.update rid entry cache))))
      | None \<Rightarrow>
          andthen (schema_cache_entry_update A P (entered rid) rel (AList.update rid (entered rid) cache))
            (\<lambda>entry cache. Ret 2 (AList.update rid entry cache)))"

fun free_entries :: "schema_cache \<Rightarrow> bool" where
  "free_entries [] = True"
| "free_entries ((rid, entry) # cache) =
     (case schema_cache_entry_decrefs entry of None \<Rightarrow> False | Some _ \<Rightarrow> free_entries cache)"

text \<open>\<open>hash_seq_search\<close> visits every entry once; the table is then destroyed.\<close>

definition schema_cache_free :: "(schema_cache, unit) prog" where
  "schema_cache_free cache = (if free_entries cache then Ret () [] else Undef)"

end
