(* ===== verification/Frame_Writer.thy ===== *)
theory Frame_Writer
  imports Protocol
begin

text \<open>
  The functions of \<open>ext/protocol_server.c\<close> that add one message to a frame value: the begin and
  commit messages and the three \<open>_raw\<close> row messages. The state is the frame value, the calls
  into the Avro library are those of the code in its order.

  The lemmas \<open>*_frame\<close> say that on the frame of a list of messages each function succeeds and
  appends exactly its message.
\<close>

text \<open>The \<open>if (bin) ... else ...\<close> block that fills a nullable bytes field.\<close>

definition update_nullable_bytes ::
  "('z avro_ops_scheme) \<Rightarrow> vpos \<Rightarrow> bytes option \<Rightarrow> (avro_val, int) prog" where
  "update_nullable_bytes A fld bin v = (case bin of
     Some b \<Rightarrow> check_new (avro_value_set_branch A fld 1) (\<lambda>branch_val.
              check_upd (avro_value_set_bytes A branch_val b) (Ret 0)) v
   | None \<Rightarrow> check_new (avro_value_set_branch A fld 0) (\<lambda>_. Ret 0) v)"

definition update_frame_with_begin_txn ::
  "('z avro_ops_scheme) \<Rightarrow> u32 \<Rightarrow> (avro_val, int) prog" where
  "update_frame_with_begin_txn A xid =
     check_read (\<lambda>v. avro_value_get_by_index A v [] 0) (\<lambda>msg_val.
     check_new (avro_value_append A msg_val) (\<lambda>union_val.
     check_new (avro_value_set_branch A union_val PROTOCOL_MSG_BEGIN_TXN) (\<lambda>record_val.
     check_read (\<lambda>v. avro_value_get_by_index A v record_val 0) (\<lambda>xid_val.
     check_upd (avro_value_set_long A xid_val (ucast xid)) (Ret 0)))))"

definition update_frame_with_commit_txn ::
  "('z avro_ops_scheme) \<Rightarrow> u32 \<Rightarrow> XLogRecPtr \<Rightarrow> (avro_val, int) prog" where
  "update_frame_with_commit_txn A xid commit_lsn =
     check_read (\<lambda>v. avro_value_get_by_index A v [] 0) (\<lambda>msg_val.
     check_new (avro_value_append A msg_val) (\<lambda>union_val.
     check_new (avro_value_set_branch A union_val PROTOCOL_MSG_COMMIT_TXN) (\<lambda>record_val.
     check_read (\<lambda>v. avro_value_get_by_index A v record_val 0) (\<lambda>xid_val.
     check_read (\<lambda>v. avro_value_get_by_index A v record_val 1) (\<lambda>lsn_val.
     check_upd (avro_value_set_long A xid_val (ucast xid)) (
     check_upd (avro_value_set_long A lsn_val commit_lsn) (Ret 0)))))))"

definition update_frame_with_insert_raw ::
  "('z avro_ops_scheme) \<Rightarrow> Oid \<Rightarrow> bytes option \<Rightarrow> bytes \<Rightarrow> (avro_val, int) prog" where
  "update_frame_with_insert_raw A relid key_bin new_bin =
     check_read (\<lambda>v. avro_value_get_by_index A v [] 0) (\<lambda>msg_val.
     check_new (avro_value_append A msg_val) (\<lambda>union_val.
     check_new (avro_value_set_branch A union_val PROTOCOL_MSG_INSERT) (\<lambda>record_val.
     check_read (\<lambda>v. avro_value_get_by_index A v record_val 0) (\<lambda>relid_val.
     check_read (\<lambda>v. avro_value_get_by_index A v record_val 1) (\<lambda>key_val.
     check_read (\<lambda>v. avro_value_get_by_index A v record_val 2) (\<lambda>newrow_val.
     check_upd (avro_value_set_long A relid_val (ucast relid)) (
     check_upd (avro_value_set_bytes A newrow_val new_bin) (\<lambda>v.
     check (update_nullable_bytes A key_val key_bin v) (Ret 0)))))))))"

definition update_frame_with_update_raw ::
  "('z avro_ops_scheme) \<Rightarrow> Oid \<Rightarrow> bytes option \<Rightarrow> bytes option \<Rightarrow> bytes \<Rightarrow> (avro_val, int) prog" where
  "update_frame_with_update_raw A relid key_bin old_bin new_bin =
     check_read (\<lambda>v. avro_value_get_by_index A v [] 0) (\<lambda>msg_val.
     check_new (avro_value_append A msg_val) (\<lambda>union_val.
     check_new (avro_value_set_branch A union_val PROTOCOL_MSG_UPDATE) (\<lambda>record_val.
     check_read (\<lambda>v. avro_value_get_by_index A v record_val 0) (\<lambda>relid_val.
     check_read (\<lambda>v. avro_value_get_by_index A v record_val 1) (\<lambda>key_val.
     check_read (\<lambda>v. avro_value_get_by_index A v record_val 2) (\<lambda>oldrow_val.
     check_read (\<lambda>v. avro_value_get_by_index A v record_val 3) (\<lambda>newrow_val.
     check_upd (avro_value_set_long A relid_val (ucast relid)) (
     check_upd (avro_value_set_bytes A newrow_val new_bin) (\<lambda>v.
     check (update_nullable_bytes A key_val key_bin v) (\<lambda>v.
     check (update_nullable_bytes A oldrow_val old_bin v) (Ret 0)))))))))))"

definition update_frame_with_delete_raw ::
  "('z avro_ops_scheme) \<Rightarrow> Oid \<Rightarrow> bytes option \<Rightarrow> bytes option \<Rightarrow> (avro_val, int) prog" where
  "update_frame_with_delete_raw A relid key_bin old_bin =
     check_read (\<lambda>v. avro_value_get_by_index A v [] 0) (\<lambda>msg_val.
     check_new (avro_value_append A msg_val) (\<lambda>union_val.
     check_new (avro_value_set_branch A union_val PROTOCOL_MSG_DELETE) (\<lambda>record_val.
     check_read (\<lambda>v. avro_value_get_by_index A v record_val 0) (\<lambda>relid_val.
     check_read (\<lambda>v. avro_value_get_by_index A v record_val 1) (\<lambda>key_val.
     check_read (\<lambda>v. avro_value_get_by_index A v record_val 2) (\<lambda>oldrow_val.
     check_upd (avro_value_set_long A relid_val (ucast relid)) (\<lambda>v.
     check (update_nullable_bytes A key_val key_bin v) (\<lambda>v.
     check (update_nullable_bytes A oldrow_val old_bin v) (Ret 0)))))))))"

section \<open>Each function appends its message\<close>

text \<open>A frame under construction: its last message is not yet complete.\<close>

definition open_frame :: "wire_msg list \<Rightarrow> avro_val \<Rightarrow> avro_val" where
  "open_frame ms u = VRecord [VArray (SUnion msg_branches) (map enc_msg ms @ [u])]"

lemma open_frame_enc: "open_frame ms (enc_msg m) = frame_of (ms @ [m])"
  by (simp add: open_frame_def frame_of_def)

lemma val_at_open [simp]:
  "val_at (open_frame ms u) (0 # length ms # p) = val_at u p"
  by (simp add: open_frame_def nth_append)

lemma val_upd_open [simp]:
  "val_upd (open_frame ms u) (0 # length ms # p) w = open_frame ms (val_upd u p w)"
  by (simp add: open_frame_def nth_append list_update_append)

context avro_values
begin

lemma open_append:
  "avro_value_append A [0] (frame_of ms) =
     (0, [0, length ms], open_frame ms (VUnion msg_branches None))"
  using append [of "frame_of ms" "[0]" "SUnion msg_branches" "map enc_msg ms"]
  by (simp add: frame_of_def open_frame_def)

lemma frame_index: "avro_value_get_by_index A (frame_of ms) [] 0 = (0, [0])"
  using index_record [of "frame_of ms" "[]"] by (simp add: frame_of_def)

lemma nullable_bytes:
  assumes "val_at v p = Some (VUnion [SNull, SBytes] None)"
  shows "update_nullable_bytes A p b v = Ret 0 (val_upd v p (enc_opt SBytes VBytes b))"
proof (cases b)
  case None
  then show ?thesis
    using set_branch [OF assms, of 0]
    by (simp add: update_nullable_bytes_def select_branch_def enc_opt_def)
next
  case (Some bs)
  let ?v = "val_upd v p (VUnion [SNull, SBytes] (Some (1, VBytes [])))"
  have at: "val_at ?v p = Some (VUnion [SNull, SBytes] (Some (1, VBytes [])))"
    using assms by (simp add: val_at_upd_same)
  have leaf: "avro_value_set_bytes A (p @ [0]) bs ?v = (0, val_upd ?v (p @ [0]) (VBytes bs))"
    using at by (intro set_leaf [where l = "VBytes []"]) (simp_all add: val_at_append same_leaf_def)
  have "val_upd ?v (p @ [0]) (VBytes bs) = val_upd v p (enc_opt SBytes VBytes b)"
    using val_upd_append [OF at] Some by (simp add: val_upd_upd enc_opt_def)
  with leaf Some show ?thesis
    using set_branch [OF assms, of 1]
    by (simp add: update_nullable_bytes_def select_branch_def)
qed

lemmas raw_simps =
  frame_index open_append set_branch index_record set_leaf nullable_bytes select_branch_def
  same_leaf_def msg_branches_def schema_defs enc_opt_def

lemma begin_txn_frame:
  "update_frame_with_begin_txn A xid (frame_of ms) = Ret 0 (frame_of (ms @ [BeginTxn xid]))"
  by (simp add: update_frame_with_begin_txn_def raw_simps open_frame_enc [symmetric] enc_msg_def)

lemma commit_txn_frame:
  "update_frame_with_commit_txn A xid lsn (frame_of ms) =
     Ret 0 (frame_of (ms @ [CommitTxn xid lsn]))"
  by (simp add: update_frame_with_commit_txn_def raw_simps open_frame_enc [symmetric] enc_msg_def)

lemma insert_raw_frame:
  "update_frame_with_insert_raw A relid k n (frame_of ms) =
     Ret 0 (frame_of (ms @ [Insert relid k n]))"
  by (simp add: update_frame_with_insert_raw_def raw_simps open_frame_enc [symmetric] enc_msg_def
      numeral_nat)

lemma update_raw_frame:
  "update_frame_with_update_raw A relid k l n (frame_of ms) =
     Ret 0 (frame_of (ms @ [Update relid k l n]))"
  by (simp add: update_frame_with_update_raw_def raw_simps open_frame_enc [symmetric] enc_msg_def
      numeral_nat)

lemma delete_raw_frame:
  "update_frame_with_delete_raw A relid k l (frame_of ms) =
     Ret 0 (frame_of (ms @ [Delete relid k l]))"
  by (simp add: update_frame_with_delete_raw_def raw_simps open_frame_enc [symmetric] enc_msg_def
      numeral_nat)

end

end
