(* ===== verification/Io_Util.thy ===== *)
theory Io_Util
  imports Avro_IO
begin

text \<open>
  Writing Avro data into a buffer that grows on demand, \<open>ext/io_util.c\<close>. A \<open>try_writing_cb\<close>
  with its context is a function from the room of the memory writer to the error code and the
  bytes written.
\<close>

abbreviation (input) INIT_BUFFER_LENGTH :: nat where "INIT_BUFFER_LENGTH \<equiv> 16384"
abbreviation (input) MAX_BUFFER_LENGTH :: nat where "MAX_BUFFER_LENGTH \<equiv> 1048576"
abbreviation (input) VARHDRSZ :: nat where "VARHDRSZ \<equiv> 4"

text \<open>
  The loop of \<open>try_writing\<close> with its variables \<open>size\<close>, \<open>err\<close> and the bytes of \<open>*output\<close>. A
  buffer of size 0 does not occur; the test for it makes the function total.
\<close>

function try_writing_loop :: "('z avro_io_scheme) \<Rightarrow> (nat \<Rightarrow> int \<times> bytes) \<Rightarrow> nat \<Rightarrow> int \<Rightarrow> bytes \<Rightarrow>
    int \<times> bytes" where
  "try_writing_loop A cb siz err output =
     (if err = ENOSPC \<and> siz \<le> MAX_BUFFER_LENGTH \<and> 0 < siz then
        let (err, output) = cb (siz - VARHDRSZ);
            err = (if err = 0 then fst (avro_write A output (siz - VARHDRSZ) [0]) else err);
            siz = (if err = ENOSPC then siz * 4 else siz)
        in try_writing_loop A cb siz err output
      else (err, output))"
  by auto
termination
  by (relation "measure (\<lambda>(A, cb, siz, err, output).
      if err = ENOSPC then Suc (MAX_BUFFER_LENGTH - siz) + (if siz \<le> MAX_BUFFER_LENGTH then 1 else 0) else 0)") auto

declare try_writing_loop.simps [simp del]

definition try_writing :: "('z avro_io_scheme) \<Rightarrow> (nat \<Rightarrow> int \<times> bytes) \<Rightarrow> int \<times> bytes" where
  "try_writing A cb = try_writing_loop A cb INIT_BUFFER_LENGTH ENOSPC []"

definition write_schema_json :: "('z avro_io_scheme) \<Rightarrow> avro_schema \<Rightarrow> nat \<Rightarrow> int \<times> bytes" where
  "write_schema_json A schema room = avro_schema_to_json A schema room"

definition write_avro_binary :: "('z avro_io_scheme) \<Rightarrow> avro_val \<Rightarrow> nat \<Rightarrow> int \<times> bytes" where
  "write_avro_binary A v room = avro_value_write A v room"

section \<open>What is written\<close>

text \<open>The longest encoding that fits: the last buffer, without header and terminating null byte.\<close>

definition MAX_WRITTEN :: nat where
  "MAX_WRITTEN = MAX_BUFFER_LENGTH - VARHDRSZ - 1"

text \<open>A callback that writes \<open>b\<close> when there is room for it and else reports \<open>ENOSPC\<close>.\<close>

definition writes :: "(nat \<Rightarrow> int \<times> bytes) \<Rightarrow> bytes \<Rightarrow> bool" where
  "writes cb b \<longleftrightarrow> (\<forall>n. if length b \<le> n then cb n = (0, b) else fst (cb n) = ENOSPC)"

context avro_codec
begin

lemma write_avro_binary_writes:
  assumes "avro_value_write A v n = (0, b)"
  shows "writes (write_avro_binary A v) b"
  unfolding writes_def write_avro_binary_def using write_room [OF assms] by blast

lemma write_schema_json_writes:
  assumes "avro_schema_to_json A s n = (0, b)"
  shows "writes (write_schema_json A s) b"
  unfolding writes_def write_schema_json_def using json_room [OF assms] by blast

lemma try_writing_step:
  assumes "writes cb b" and "VARHDRSZ < siz" and "siz \<le> MAX_BUFFER_LENGTH"
    and "siz' = siz * 4"
  shows "\<exists>out'. try_writing_loop A cb siz ENOSPC out =
    (if length b + VARHDRSZ < siz then (0, b) else try_writing_loop A cb siz' ENOSPC out')"
proof -
  consider "length b + VARHDRSZ < siz" | "length b + VARHDRSZ = siz" | "siz - VARHDRSZ < length b"
    using assms(2) by linarith
  then show ?thesis
  proof cases
    case 1
    then have "cb (siz - VARHDRSZ) = (0, b)" using assms(1) by (simp add: writes_def)
    moreover have "Suc (length b) \<le> siz - VARHDRSZ" using 1 by linarith
    ultimately show ?thesis using 1 assms(2,3)
      by (simp add: try_writing_loop.simps [of A cb siz ENOSPC out] try_writing_loop.simps [of A cb siz 0 b] write_raw)
  next
    case 2
    then have "cb (siz - VARHDRSZ) = (0, b)" using assms(1) by (auto simp: writes_def)
    with 2 assms(2-4) show ?thesis
      by (auto simp add: try_writing_loop.simps [of A cb siz ENOSPC out] write_raw)
  next
    case 3
    then have "fst (cb (siz - VARHDRSZ)) = ENOSPC" using assms(1) by (simp add: writes_def)
    then obtain b' where "cb (siz - VARHDRSZ) = (ENOSPC, b')" by (cases "cb (siz - VARHDRSZ)") simp
    with 3 assms(2-4) show ?thesis
      by (auto simp add: try_writing_loop.simps [of A cb siz ENOSPC out])
  qed
qed

lemma try_writing_result:
  assumes "writes cb b"
  shows "length b \<le> MAX_WRITTEN \<Longrightarrow> try_writing A cb = (0, b)"
    and "MAX_WRITTEN < length b \<Longrightarrow> fst (try_writing A cb) = ENOSPC"
proof -
  have stop: "fst (try_writing_loop A cb 4194304 ENOSPC out) = ENOSPC" for out
    by (simp add: try_writing_loop.simps [of A cb 4194304 ENOSPC out])
  note step = try_writing_step [OF assms]
  obtain o1 where 1: "try_writing_loop A cb 16384 ENOSPC [] =
      (if length b + 4 < 16384 then (0, b) else try_writing_loop A cb 65536 ENOSPC o1)"
    by (rule exE [OF step [of 16384 65536 "[]"]]) simp_all
  obtain o2 where 2: "try_writing_loop A cb 65536 ENOSPC o1 =
      (if length b + 4 < 65536 then (0, b) else try_writing_loop A cb 262144 ENOSPC o2)"
    by (rule exE [OF step [of 65536 262144 o1]]) simp_all
  obtain o3 where 3: "try_writing_loop A cb 262144 ENOSPC o2 =
      (if length b + 4 < 262144 then (0, b) else try_writing_loop A cb 1048576 ENOSPC o3)"
    by (rule exE [OF step [of 262144 1048576 o2]]) simp_all
  obtain o4 where 4: "try_writing_loop A cb 1048576 ENOSPC o3 =
      (if length b + 4 < 1048576 then (0, b) else try_writing_loop A cb 4194304 ENOSPC o4)"
    by (rule exE [OF step [of 1048576 4194304 o3]]) simp_all
  show "length b \<le> MAX_WRITTEN \<Longrightarrow> try_writing A cb = (0, b)"
    and "MAX_WRITTEN < length b \<Longrightarrow> fst (try_writing A cb) = ENOSPC"
    by (simp_all add: try_writing_def MAX_WRITTEN_def 1 2 3 4 stop)
qed

lemma try_writing_failed:
  assumes "fst (cb 16380) \<noteq> 0" and "fst (cb 16380) \<noteq> ENOSPC"
  shows "try_writing A cb = cb 16380"
proof -
  obtain e b where cb: "cb 16380 = (e, b)" by fastforce
  with assms have "try_writing_loop A cb 16384 e b = (e, b)" by (simp add: try_writing_loop.simps [of A cb 16384 e b])
  with cb assms show ?thesis
    by (simp add: try_writing_def try_writing_loop.simps [of A cb 16384 ENOSPC "[]"])
qed

end

end
