(* ===== verification/Protocol_Server.thy ===== *)
theory Protocol_Server
  imports Schema_Cache Frame_Writer Io_Util
begin

text \<open>
  The rest of \<open>ext/protocol_server.c\<close>: a changed row becomes messages of the frame. The state
  is the frame value and the schema cache; the pointer \<open>entry\<close> of the C functions is the relid of
  the entry, so that calls on \<open>entry->row_value\<close> and \<open>entry->key_value\<close> change the cache.
\<close>

section \<open>State\<close>

text \<open>What the callers of this file hold: the frame under construction and the schema cache.\<close>

record server_frame =
  srv_frame :: avro_val
  srv_cache :: schema_cache

text \<open>A call that works on the frame value, and a call that works on the cache.\<close>

definition in_frame :: "(avro_val, 'a) prog \<Rightarrow> ('x server_frame_scheme, 'a) prog" where
  "in_frame m s = map_outcome (\<lambda>v. s\<lparr>srv_frame := v\<rparr>) id (m (srv_frame s))"

definition in_cache :: "(schema_cache, 'a) prog \<Rightarrow> ('x server_frame_scheme, 'a) prog" where
  "in_cache m s = map_outcome (\<lambda>c. s\<lparr>srv_cache := c\<rparr>) id (m (srv_cache s))"

text \<open>A call on the row value or the key value of the entry for \<open>rid\<close>.\<close>

definition cell :: "(schema_cache_entry \<Rightarrow> avro_val ptr) \<Rightarrow> ((avro_val ptr \<Rightarrow> avro_val ptr) \<Rightarrow> schema_cache_entry \<Rightarrow> schema_cache_entry) \<Rightarrow>
    Oid \<Rightarrow> (avro_val, 'a) prog \<Rightarrow> (schema_cache, 'a) prog" where
  "cell get upd rid m cache = (case map_of cache rid of
     None \<Rightarrow> Undef
   | Some entry \<Rightarrow> (case get entry of
         Valid v \<Rightarrow> map_outcome (\<lambda>v. AList.update rid (upd (\<lambda>_. Valid v) entry) cache) id (m v)
       | _ \<Rightarrow> Undef))"

abbreviation (input) key_cell where "key_cell \<equiv> cell sc_key_value sc_key_value_update"
abbreviation (input) row_cell where "row_cell \<equiv> cell sc_row_value sc_row_value_update"

text \<open>\<open>check(err, try_writing(&out, &write_avro_binary, &value))\<close> for such a value.\<close>

definition write_cell :: "('z avro_io_scheme) \<Rightarrow> (schema_cache_entry \<Rightarrow> avro_val ptr) \<Rightarrow> Oid \<Rightarrow>
    (bytes \<Rightarrow> ('x server_frame_scheme, int) prog) \<Rightarrow> ('x server_frame_scheme, int) prog" where
  "write_cell A get rid k s = (case Option.bind (map_of (srv_cache s) rid) (\<lambda>entry. ptr_option (get entry)) of
     None \<Rightarrow> Undef
   | Some v \<Rightarrow> check_get (try_writing A (write_avro_binary A v)) k s)"

section \<open>Operations\<close>

text \<open>
  Calls of \<open>extract_tuple_key\<close> stand in a \<open>check\<close>; \<open>k\<close> goes on with the value of \<open>*key_out\<close>.
\<close>

definition extract_tuple_key :: "('z avro_io_scheme) \<Rightarrow> ('t, 'd) pg_ops \<Rightarrow> Oid \<Rightarrow> relation \<Rightarrow> tupdesc \<Rightarrow> 't \<Rightarrow>
    (bytes option \<Rightarrow> ('x server_frame_scheme, int) prog) \<Rightarrow> ('x server_frame_scheme, int) prog" where
  "extract_tuple_key A P rid rel tupdesc tuple k s = (case map_of (srv_cache s) rid of
     None \<Rightarrow> Undef
   | Some entry \<Rightarrow>
       if sc_key_schema entry = Null then k None s
       else
         check (in_cache (key_cell rid (check_upd (avro_value_reset A) (Ret 0))) s) (\<lambda>s.
         andthen (table_key_index P rel s) (\<lambda>index_rel s. case index_rel of
             None \<Rightarrow> Undef
           | Some idx \<Rightarrow>
               check (in_cache (key_cell rid (tuple_to_avro_key A P tupdesc tuple rel (rd_index idx))) s)
                 (write_cell A sc_key_value rid (\<lambda>bin. k (Some bin))))))"

text \<open>The three calls that encode a tuple as a row: reset, \<open>tuple_to_avro_row\<close>, \<open>try_writing\<close>.\<close>

definition encode_row :: "('z avro_io_scheme) \<Rightarrow> ('t, 'd) pg_ops \<Rightarrow> Oid \<Rightarrow> tupdesc \<Rightarrow> 't \<Rightarrow>
    (bytes \<Rightarrow> ('x server_frame_scheme, int) prog) \<Rightarrow> ('x server_frame_scheme, int) prog" where
  "encode_row A P rid tupdesc tuple k s =
     check (in_cache (row_cell rid (check_upd (avro_value_reset A) (Ret 0))) s) (\<lambda>s.
     check (in_cache (row_cell rid (tuple_to_avro_row A P tupdesc tuple)) s)
       (write_cell A sc_row_value rid k))"

definition update_frame_with_table_schema :: "('z avro_io_scheme) \<Rightarrow> schema_cache_entry \<Rightarrow> (avro_val, int) prog" where
  "update_frame_with_table_schema A entry =
     check_read (\<lambda>v. avro_value_get_by_index A v [] 0) (\<lambda>msg_val.
     check_new (avro_value_append A msg_val) (\<lambda>union_val.
     check_new (avro_value_set_branch A union_val PROTOCOL_MSG_TABLE_SCHEMA) (\<lambda>record_val.
     check_read (\<lambda>v. avro_value_get_by_index A v record_val 0) (\<lambda>relid_val.
     check_read (\<lambda>v. avro_value_get_by_index A v record_val 1) (\<lambda>key_schema_val.
     check_read (\<lambda>v. avro_value_get_by_index A v record_val 2) (\<lambda>row_schema_val.
     check_upd (avro_value_set_long A relid_val (ucast (sc_relid entry))) (\<lambda>v.
     check (case sc_key_schema entry of
         Null \<Rightarrow> check_new (avro_value_set_branch A key_schema_val 0) (\<lambda>_. Ret 0) v
       | Valid schema \<Rightarrow>
           check_get (try_writing A (write_schema_json A schema)) (\<lambda>key_schema_json.
           check_new (avro_value_set_branch A key_schema_val 1) (\<lambda>branch_val.
           check_upd (avro_value_set_string_len A branch_val key_schema_json (length key_schema_json + 1)) (Ret 0))) v
       | Dangling \<Rightarrow> Undef) (\<lambda>v.
     case sc_row_schema entry of
       Valid schema \<Rightarrow>
         check_get (try_writing A (write_schema_json A schema)) (\<lambda>row_schema_json.
         check_upd (avro_value_set_string_len A row_schema_val row_schema_json (length row_schema_json + 1)) (Ret 0)) v
     | _ \<Rightarrow> Undef))))))))"

text \<open>The lookup of the entry that opens the three functions below, and the schema message if it is due.\<close>

definition announce_schema :: "('z avro_io_scheme) \<Rightarrow> ('t, 'd) pg_ops \<Rightarrow> relation \<Rightarrow> ('x server_frame_scheme, int) prog" where
  "announce_schema A P rel s =
     andthen (in_cache (schema_cache_lookup A P rel) s) (\<lambda>changed s.
       if changed \<noteq> 0 then (case map_of (srv_cache s) (rd_id rel) of
           None \<Rightarrow> Undef | Some entry \<Rightarrow> in_frame (update_frame_with_table_schema A entry) s)
       else Ret 0 s)"

definition update_frame_with_insert :: "('z avro_io_scheme) \<Rightarrow> ('t, 'd) pg_ops \<Rightarrow> relation \<Rightarrow> tupdesc \<Rightarrow> 't \<Rightarrow>
    ('x server_frame_scheme, int) prog" where
  "update_frame_with_insert A P rel tupdesc newtuple s =
     (let relid = rd_id rel in
      check (announce_schema A P rel s) (
      extract_tuple_key A P relid rel tupdesc newtuple (\<lambda>key_bin.
      encode_row A P relid tupdesc newtuple (\<lambda>new_bin s.
      check (in_frame (update_frame_with_insert_raw A relid key_bin new_bin) s) (Ret 0)))))"

text \<open>The block \<open>if (oldtuple)\<close>: the key and the row of the old tuple.\<close>

definition encode_old :: "('z avro_io_scheme) \<Rightarrow> ('t, 'd) pg_ops \<Rightarrow> relation \<Rightarrow> 't option \<Rightarrow>
    (bytes option \<Rightarrow> bytes option \<Rightarrow> ('x server_frame_scheme, int) prog) \<Rightarrow> ('x server_frame_scheme, int) prog" where
  "encode_old A P rel oldtuple k = (case oldtuple of
     None \<Rightarrow> k None None
   | Some tuple \<Rightarrow>
       extract_tuple_key A P (rd_id rel) rel (rd_att rel) tuple (\<lambda>old_key_bin.
       encode_row A P (rd_id rel) (rd_att rel) tuple (\<lambda>old_bin. k old_key_bin (Some old_bin))))"

text \<open>
  Has the key changed? \<open>VARSIZE\<close> and \<open>memcmp\<close> on a null \<open>new_key_bin\<close> are undefined behaviour.
\<close>

definition key_changed :: "bytes option \<Rightarrow> bytes option \<Rightarrow> bool option" where
  "key_changed old_key_bin new_key_bin = (case old_key_bin of
     None \<Rightarrow> Some False
   | Some old \<Rightarrow> map_option (\<lambda>new. old \<noteq> new) new_key_bin)"

text \<open>The messages of an update: if the key changed, a delete and an insert.\<close>

definition emit_update :: "('z avro_io_scheme) \<Rightarrow> Oid \<Rightarrow> bytes option \<Rightarrow> bytes option \<Rightarrow> bytes option \<Rightarrow> bytes \<Rightarrow>
    ('x server_frame_scheme, int) prog" where
  "emit_update A relid old_key_bin old_bin new_key_bin new_bin s =
     (case key_changed old_key_bin new_key_bin of
        None \<Rightarrow> Undef
      | Some changed \<Rightarrow>
          if changed then
            check (in_frame (update_frame_with_delete_raw A relid old_key_bin old_bin) s) (\<lambda>s.
            check (in_frame (update_frame_with_insert_raw A relid new_key_bin new_bin) s) (Ret 0))
          else check (in_frame (update_frame_with_update_raw A relid new_key_bin old_bin new_bin) s) (Ret 0))"

definition update_frame_with_update :: "('z avro_io_scheme) \<Rightarrow> ('t, 'd) pg_ops \<Rightarrow> relation \<Rightarrow> 't option \<Rightarrow> 't \<Rightarrow>
    ('x server_frame_scheme, int) prog" where
  "update_frame_with_update A P rel oldtuple newtuple s =
     (let relid = rd_id rel in
      check (announce_schema A P rel s) (
      encode_old A P rel oldtuple (\<lambda>old_key_bin old_bin.
      extract_tuple_key A P relid rel (rd_att rel) newtuple (\<lambda>new_key_bin.
      encode_row A P relid (rd_att rel) newtuple (\<lambda>new_bin.
      emit_update A relid old_key_bin old_bin new_key_bin new_bin)))))"

definition update_frame_with_delete :: "('z avro_io_scheme) \<Rightarrow> ('t, 'd) pg_ops \<Rightarrow> relation \<Rightarrow> 't option \<Rightarrow>
    ('x server_frame_scheme, int) prog" where
  "update_frame_with_delete A P rel oldtuple s =
     check (announce_schema A P rel s) (
     encode_old A P rel oldtuple (\<lambda>key_bin old_bin s.
     check (in_frame (update_frame_with_delete_raw A (rd_id rel) key_bin old_bin) s) (Ret 0)))"

end
