(* ===== verification/Row_Conversion.thy ===== *)
theory Row_Conversion
  imports Oid2avro
begin

text \<open>
  What the conversion of \<open>ext/oid2avro.c\<close> computes. \<open>base_branches\<close> gives the union of Avro types for
  each PostgreSQL type, up to links to named types; \<open>datum_branch\<close> the branch and value of a datum.
  \<open>row_of_tuple\<close> and \<open>key_of_tuple\<close> are the record values of a tuple and of its key. The functions
  that walk and mutate Avro values compute exactly these, and the values have the schemas that
  \<open>schema_for_table_row\<close> generates.
\<close>

section \<open>The schema of a column\<close>

text \<open>A link stands for the type it refers to.\<close>

fun unlink :: "avro_schema \<Rightarrow> avro_schema" where
  "unlink (SLink s) = unlink s"
| "unlink s = s"

lemma default_unlink [simp]: "default_val (unlink s) = default_val s"
  by (induction s rule: unlink.induct) simp_all

lemma has_schema_unlink [simp]: "has_schema v (unlink s) = has_schema v s"
  by (induction s rule: unlink.induct) simp_all

definition date_fields :: "(string \<times> avro_schema) list" where
  "date_fields = [(''year'', SInt), (''month'', SInt), (''day'', SInt)]"

definition time_fields :: "(string \<times> avro_schema) list" where
  "time_fields = [(''hour'', SInt), (''minute'', SInt), (''second'', SInt), (''micro'', SInt)]"

definition predefined :: "string \<Rightarrow> (string \<times> avro_schema) list \<Rightarrow> avro_schema" where
  "predefined n fs = SRecord n PREDEFINED_SCHEMA_NAMESPACE fs"

definition date_type :: avro_schema where
  "date_type = predefined ''Date'' date_fields"

definition time_tz_type :: avro_schema where
  "time_tz_type = predefined ''TimeTZ'' [(''micro'', SLong), (''zoneOffset'', SInt)]"

definition datetime_type :: "bool \<Rightarrow> avro_schema" where
  "datetime_type tz = (if tz then predefined ''DateTimeTZ'' (date_fields @ time_fields @ [(''zoneOffset'', SInt)])
     else predefined ''DateTime'' (date_fields @ time_fields))"

definition interval_type :: avro_schema where
  "interval_type = predefined ''Interval'' (date_fields @ time_fields)"

definition special_time_type :: avro_schema where
  "special_time_type = SEnum ''SpecialTime'' [''POS_INFINITY'', ''NEG_INFINITY'']"

definition base_type :: "Oid \<Rightarrow> avro_schema" where
  "base_type t =
     (if t = BOOLOID then SBoolean
      else if t = FLOAT4OID then SFloat
      else if t = FLOAT8OID \<or> t = NUMERICOID then SDouble
      else if t = INT2OID \<or> t = INT4OID then SInt
      else if t \<in> {INT8OID, CASHOID, OIDOID, REGPROCOID, XIDOID, CIDOID, TIMEOID} then SLong
      else if t = TIMETZOID then time_tz_type
      else if t = INTERVALOID then interval_type
      else if t = BYTEAOID then SBytes
      else SString)"

definition base_branches :: "Oid \<Rightarrow> avro_schema list" where
  "base_branches t =
     (if t = DATEOID then [SNull, date_type, special_time_type]
      else if t = TIMESTAMPOID then [SNull, datetime_type False, special_time_type]
      else if t = TIMESTAMPTZOID then [SNull, datetime_type True, special_time_type]
      else [SNull, base_type t])"

definition predef_ok :: "predef_schema \<Rightarrow> bool" where
  "predef_ok predef \<longleftrightarrow> date_schema predef \<in> {None, Some date_type} \<and>
     time_tz_schema predef \<in> {None, Some time_tz_type} \<and>
     datetime_schema predef \<in> {None, Some (datetime_type False)} \<and>
     datetime_tz_schema predef \<in> {None, Some (datetime_type True)} \<and>
     interval_schema predef \<in> {None, Some interval_type} \<and>
     special_time_schema predef \<in> {None, Some special_time_type}"

lemmas type_defs = date_type_def time_tz_type_def datetime_type_def interval_type_def
  special_time_type_def predefined_def date_fields_def time_fields_def

lemma built_types:
  "schema_for_date_fields (SRecord ''Date'' PREDEFINED_SCHEMA_NAMESPACE []) = date_type"
  "schema_for_time_fields (schema_for_date_fields (SRecord ''DateTime'' PREDEFINED_SCHEMA_NAMESPACE [])) = datetime_type False"
  "avro_schema_record_field_append (schema_for_time_fields (schema_for_date_fields
     (SRecord ''DateTimeTZ'' PREDEFINED_SCHEMA_NAMESPACE []))) ''zoneOffset'' SInt = datetime_type True"
  "schema_for_time_fields (schema_for_date_fields (SRecord ''Interval'' PREDEFINED_SCHEMA_NAMESPACE [])) = interval_type"
  "SRecord ''TimeTZ'' PREDEFINED_SCHEMA_NAMESPACE [(''micro'', SLong), (''zoneOffset'', SInt)] = time_tz_type"
  by (simp_all add: type_defs schema_for_date_fields_def schema_for_time_fields_def Let_def)

lemma unlink_types [simp]:
  "unlink date_type = date_type" "unlink time_tz_type = time_tz_type" "unlink interval_type = interval_type"
  "unlink special_time_type = special_time_type" "unlink (datetime_type tz) = datetime_type tz"
  by (simp_all add: type_defs)

text \<open>A union with the branches of a type, up to links, and named types as they should be.\<close>

definition column_ok :: "avro_schema list \<Rightarrow> avro_schema \<times> predef_schema \<Rightarrow> bool" where
  "column_ok base sp \<longleftrightarrow> (\<exists>bs. fst sp = SUnion bs \<and> map unlink bs = base) \<and> predef_ok (snd sp)"

lemma special_times_ok:
  "predef_ok predef \<Longrightarrow> unlink s = t \<Longrightarrow>
    column_ok [SNull, t, special_time_type] (schema_for_special_times predef s)"
  by (auto simp: schema_for_special_times_def column_ok_def predef_ok_def special_time_type_def Let_def
      split: option.splits)

lemma schema_for_date_ok:
  "predef_ok predef \<Longrightarrow> column_ok [SNull, date_type, special_time_type] (schema_for_date predef)"
  unfolding schema_for_date_def Let_def built_types
  by (cases "date_schema predef") (auto intro!: special_times_ok simp: predef_ok_def)

lemma schema_for_timestamp_ok:
  "predef_ok predef \<Longrightarrow> column_ok [SNull, datetime_type tz, special_time_type] (schema_for_timestamp predef tz)"
  unfolding schema_for_timestamp_def Let_def
  by (cases tz) (auto intro!: special_times_ok simp: predef_ok_def built_types split: option.split)

lemma with_null_ok:
  "predef_ok (snd sp) \<Longrightarrow> unlink (fst sp) = t \<Longrightarrow> column_ok [SNull, t] (with_null sp)"
  by (cases sp) (auto simp: with_null_def column_ok_def)

lemma schema_for_time_tz_ok:
  "predef_ok predef \<Longrightarrow> column_ok [SNull, time_tz_type] (with_null (schema_for_time_tz predef))"
  by (rule with_null_ok) (auto simp: schema_for_time_tz_def Let_def built_types predef_ok_def split: option.split)

lemma schema_for_interval_ok:
  "predef_ok predef \<Longrightarrow> column_ok [SNull, interval_type] (with_null (schema_for_interval predef))"
  by (rule with_null_ok) (auto simp: schema_for_interval_def Let_def built_types predef_ok_def split: option.split)

lemma schema_for_oid_ok:
  assumes "predef_ok predef"
  shows "column_ok (base_branches t) (schema_for_oid predef t)"
  using assms
  by (simp add: schema_for_oid_def base_branches_def base_type_def schema_for_date_ok schema_for_timestamp_ok
      schema_for_time_tz_ok schema_for_interval_ok with_null_ok schema_for_numeric_def)

section \<open>The schema of a row\<close>

definition live :: "tupdesc \<Rightarrow> tupdesc" where
  "live td = filter (\<lambda>a. \<not> attisdropped a) td"

definition column_field :: "pg_attribute \<Rightarrow> string \<times> avro_schema \<Rightarrow> bool" where
  "column_field a f \<longleftrightarrow> fst f = attname a \<and> (\<exists>bs. snd f = SUnion bs \<and> map unlink bs = base_branches (atttypid a))"

lemma row_schema_fields_ok:
  assumes "predef_ok predef"
  shows "\<exists>fs. row_schema_fields predef td (SRecord n ns acc) = SRecord n ns (acc @ fs) \<and>
    list_all2 column_field (live td) fs"
  using assms
proof (induction td arbitrary: predef acc)
  case (Cons a td)
  show ?case
  proof (cases "attisdropped a")
    case True
    with Cons show ?thesis by (simp add: live_def)
  next
    case False
    obtain bs predef' where c: "schema_for_oid predef (atttypid a) = (SUnion bs, predef')"
      "map unlink bs = base_branches (atttypid a)" "predef_ok predef'"
      using schema_for_oid_ok [OF Cons.prems, of "atttypid a"]
      by (cases "schema_for_oid predef (atttypid a)") (auto simp: column_ok_def)
    obtain fs where "row_schema_fields predef' td (SRecord n ns (acc @ [(attname a, SUnion bs)])) =
        SRecord n ns ((acc @ [(attname a, SUnion bs)]) @ fs)" "list_all2 column_field (live td) fs"
      using Cons.IH [OF c(3)] by blast
    moreover have "column_field a (attname a, SUnion bs)" using c(2) by (simp add: column_field_def)
    ultimately show ?thesis
      using False c(1) by (intro exI [of _ "(attname a, SUnion bs) # fs"]) (simp add: live_def)
  qed
qed (simp add: live_def)

lemma schema_for_table_row_ok:
  obtains n ns fs where "schema_for_table_row P rel = SRecord n ns fs" "list_all2 column_field (live (rd_att rel)) fs"
proof -
  have "predef_ok no_predef" by (simp add: predef_ok_def no_predef_def)
  then obtain fs where "schema_for_table_row P rel =
      SRecord (relname rel) (case get_namespace_name P (relnamespace rel) of
            None \<Rightarrow> GENERATED_SCHEMA_NAMESPACE
          | Some rel_namespace \<Rightarrow> GENERATED_SCHEMA_NAMESPACE @ ''.'' @ rel_namespace) fs"
    "list_all2 column_field (live (rd_att rel)) fs"
    unfolding schema_for_table_row_def Let_def using row_schema_fields_ok [where acc = "[]"] by fastforce
  then show ?thesis by (rule that)
qed

section \<open>The value of a column\<close>

definition tm_value :: "pg_tm \<Rightarrow> u32 \<Rightarrow> avro_val list \<Rightarrow> avro_val" where
  "tm_value tm fsec zone = VRecord (tm_leaves tm fsec @ zone)"

definition branch_value :: "('t, 'd) pg_ops \<Rightarrow> Oid \<Rightarrow> 'd \<Rightarrow> avro_val" where
  "branch_value P t d =
     (if t = BOOLOID then VBoolean (DatumGetBool P d)
      else if t = FLOAT4OID then VFloat (DatumGetFloat4 P d)
      else if t = FLOAT8OID then VDouble (DatumGetFloat8 P d)
      else if t = NUMERICOID then VDouble 0
      else if t = INT2OID then VInt (scast (DatumGetInt16 P d))
      else if t = INT4OID then VInt (DatumGetInt32 P d)
      else if t = INT8OID then VLong (DatumGetInt64 P d)
      else if t = CASHOID then VLong (DatumGetCash P d)
      else if t = OIDOID \<or> t = REGPROCOID then VLong (ucast (DatumGetObjectId P d))
      else if t = XIDOID then VLong (ucast (DatumGetTransactionId P d))
      else if t = CIDOID then VLong (ucast (DatumGetCommandId P d))
      else if t = TIMEOID then VLong (DatumGetTimeADT P d)
      else if t = TIMETZOID then VRecord [VLong (fst (DatumGetTimeTzADTP P d)), VInt (- snd (DatumGetTimeTzADTP P d))]
      else if t = INTERVALOID then tm_value (fst (interval2tm P d)) (snd (interval2tm P d)) []
      else if t = BYTEAOID then VBytes (DatumGetByteaP P d)
      else if t = CHAROID then VString (if DatumGetChar P d = 0 then [] else [DatumGetChar P d])
      else if t = NAMEOID then VString (DatumGetName P d)
      else if t = TEXTOID \<or> t = BPCHAROID \<or> t = VARCHAROID then VString (TextDatumGetCString P d)
      else VString (type_string P t d))"

text \<open>Branch and value of a datum; \<open>None\<close> for a timestamp out of range.\<close>

definition timestamp_branch :: "('t, 'd) pg_ops \<Rightarrow> bool \<Rightarrow> u64 \<Rightarrow> (nat \<times> avro_val) option" where
  "timestamp_branch P tz x =
     (if x = DT_NOBEGIN then Some (2, VEnum 1) else if x = DT_NOEND then Some (2, VEnum 0)
      else map_option (\<lambda>(tm, fsec, zone). (1, tm_value tm fsec (if tz then [VInt (- zone)] else [])))
             (timestamp2tm P tz x))"

definition date_branch :: "('t, 'd) pg_ops \<Rightarrow> u32 \<Rightarrow> nat \<times> avro_val" where
  "date_branch P x =
     (if x = DATEVAL_NOBEGIN then (2, VEnum 1) else if x = DATEVAL_NOEND then (2, VEnum 0)
      else case j2date P (x + 2451545) of (y, m, d) \<Rightarrow> (1, VRecord [VInt y, VInt m, VInt d]))"

definition datum_branch :: "('t, 'd) pg_ops \<Rightarrow> Oid \<Rightarrow> 'd option \<Rightarrow> (nat \<times> avro_val) option" where
  "datum_branch P t datum = (case datum of
     None \<Rightarrow> Some (0, VNull)
   | Some d \<Rightarrow>
       if t = DATEOID then Some (date_branch P (DatumGetDateADT P d))
       else if t = TIMESTAMPOID then timestamp_branch P False (DatumGetTimestamp P d)
       else if t = TIMESTAMPTZOID then timestamp_branch P True (DatumGetTimestamp P d)
       else Some (1, branch_value P t d))"

lemma val_upd_same: "val_at v p = Some w \<Longrightarrow> val_upd v p w = v"
  by (induction v p arbitrary: w rule: val_at.induct) (auto split: if_splits)

lemma same_leaf_simps [simp]:
  "same_leaf (VBoolean a) (VBoolean b)" "same_leaf (VInt i) (VInt j)" "same_leaf (VLong k) (VLong l)"
  "same_leaf (VFloat i) (VFloat j)" "same_leaf (VDouble k) (VDouble l)" "same_leaf (VBytes x) (VBytes y)"
  "same_leaf (VString x) (VString y)" "same_leaf (VEnum m) (VEnum n)"
  by (simp_all add: same_leaf_def)

lemma branches:
  assumes "map unlink bs = ts"
  shows "length bs = length ts" and "d < length ts \<Longrightarrow> default_val (bs ! d) = default_val (ts ! d)"
    and "d < length ts \<Longrightarrow> has_schema x (bs ! d) = has_schema x (ts ! d)"
  using assms by auto

text \<open>Inside a union whose branch was just selected.\<close>

lemma union_focus:
  assumes "val_at v p = Some (VUnion bs c)"
  shows "val_at (val_upd v p (VUnion bs (Some (d, x)))) (p @ [0]) = Some x"
    and "val_upd (val_upd v p (VUnion bs (Some (d, x)))) (p @ [0]) y = val_upd v p (VUnion bs (Some (d, y)))"
proof -
  have at: "val_at (val_upd v p (VUnion bs (Some (d, x)))) p = Some (VUnion bs (Some (d, x)))"
    using assms by (intro val_at_upd_same) simp
  then show "val_at (val_upd v p (VUnion bs (Some (d, x)))) (p @ [0]) = Some x"
    by (simp add: val_at_append)
  show "val_upd (val_upd v p (VUnion bs (Some (d, x)))) (p @ [0]) y = val_upd v p (VUnion bs (Some (d, y)))"
    using val_upd_append [OF at] by (simp add: val_upd_upd)
qed

context avro_values
begin

lemma get_fields_record:
  "val_at v r = Some (VRecord vs) \<Longrightarrow> \<forall>i \<in> set is. i < length vs \<Longrightarrow>
    get_fields A r is k v = k (map (\<lambda>i. r @ [i]) is) v"
  by (induction "is" arbitrary: k) (simp_all add: index_record)

lemma set_leaves_record:
  assumes "val_at v r = Some (VRecord vs)" and "list_all2 same_leaf us xs" and "vs = ts @ us @ ws"
  shows "set_leaves A (zip (map (\<lambda>i. r @ [i]) [length ts..<length ts + length xs]) xs) k v =
    k (val_upd v r (VRecord (ts @ xs @ ws)))"
  using assms(2,1,3)
proof (induction us xs arbitrary: v vs ts rule: list_all2_induct)
  case Nil
  then show ?case by (simp add: val_upd_same)
next
  case (Cons u us x xs)
  let ?v = "val_upd v r (VRecord ((ts @ [x]) @ us @ ws))"
  have at: "val_at v (r @ [length ts]) = Some u" using Cons.prems by (simp add: val_at_append)
  have "val_upd v (r @ [length ts]) x = ?v"
    using val_upd_append [OF Cons.prems(1), of "[length ts]" x] Cons.prems(2) by (simp add: list_update_append)
  then have set: "avro_value_set_leaf A (r @ [length ts]) x v = (0, ?v)"
    using set_leaf [OF at Cons.hyps(1)] by simp
  have at': "val_at ?v r = Some (VRecord ((ts @ [x]) @ us @ ws))"
    using Cons.prems(1) by (intro val_at_upd_same) simp
  have upt: "[length ts..<length ts + length (x # xs)] =
      length ts # [length (ts @ [x])..<length (ts @ [x]) + length xs]"
    by (simp add: upt_conv_Cons del: upt_Suc)
  from Cons.IH [OF at' refl] show ?case
    unfolding upt by (simp add: set val_upd_upd del: upt_Suc)
qed

lemma set_record:
  assumes "val_at v r = Some (VRecord vs)" and "list_all2 same_leaf us xs" and "vs = us @ ws"
    and "is = [0..<length xs]"
  shows "get_fields A r is (\<lambda>fs. set_leaves A (zip fs xs) k) v = k (val_upd v r (VRecord (xs @ ws)))"
  using set_leaves_record [OF assms(1,2), of "[]" ws k] get_fields_record [OF assms(1), of "is"] assms
  by (auto dest: list_all2_lengthD)

end

section \<open>Filling in a column\<close>

context avro_values
begin

lemma seven_leaves: "[0, 1, 2, 3, 4, 5, 6] = [0..<length (tm_leaves tm fsec)]"
  by (simp add: tm_leaves_def numeral_nat)

lemma update_branch_ok:
  assumes "val_at v b = Some (default_val (base_type t))"
    and "t \<noteq> DATEOID" and "t \<noteq> TIMESTAMPOID" and "t \<noteq> TIMESTAMPTZOID"
  shows "update_branch A P b t d v = Ret 0 (val_upd v b (branch_value P t d))"
proof -
  have leaf: "check_upd (avro_value_set_leaf A b x) (Ret 0) v = Ret 0 (val_upd v b x)"
    if "same_leaf (default_val (base_type t)) x" for x
    using set_leaf [OF assms(1) that] by simp
  consider "t = TIMETZOID" | "t = INTERVALOID" | "t = NUMERICOID" |
    "t \<noteq> TIMETZOID" "t \<noteq> INTERVALOID" "t \<noteq> NUMERICOID" by blast
  then show ?thesis
  proof cases
    case 1
    let ?xs = "[VLong (fst (DatumGetTimeTzADTP P d)), VInt (- snd (DatumGetTimeTzADTP P d))]"
    have "val_at v b = Some (VRecord [VLong 0, VInt 0])"
      using assms(1) 1 by (simp add: base_type_def time_tz_type_def predefined_def)
    then have "get_fields A b [0, 1] (\<lambda>fs. set_leaves A (zip fs ?xs) (Ret 0)) v = Ret 0 (val_upd v b (VRecord (?xs @ [])))"
      by (rule set_record [where us = "[VLong 0, VInt 0]"]) simp_all
    with 1 show ?thesis
      by (simp add: update_branch_def update_avro_with_time_tz_def branch_value_def)
  next
    case 2
    obtain tm fsec where tm: "interval2tm P d = (tm, fsec)" by fastforce
    have "val_at v b = Some (VRecord [VInt 0, VInt 0, VInt 0, VInt 0, VInt 0, VInt 0, VInt 0])"
      using assms(1) 2 by (simp add: base_type_def interval_type_def predefined_def date_fields_def time_fields_def)
    then have "get_fields A b [0, 1, 2, 3, 4, 5, 6] (\<lambda>fs. set_leaves A (zip fs (tm_leaves tm fsec)) (Ret 0)) v =
        Ret 0 (val_upd v b (VRecord (tm_leaves tm fsec @ [])))"
      by (rule set_record [where us = "[VInt 0, VInt 0, VInt 0, VInt 0, VInt 0, VInt 0, VInt 0]", OF _ _ _ seven_leaves]) (simp_all add: tm_leaves_def)
    with 2 tm show ?thesis
      by (simp add: update_branch_def update_avro_with_interval_def branch_value_def tm_value_def)
  next
    case 3
    with assms(1) show ?thesis
      by (simp add: update_branch_def branch_value_def base_type_def val_upd_same)
  next
    case 4
    with assms(2-4) show ?thesis
      by (simp add: update_branch_def branch_value_def base_type_def leaf update_avro_with_bytes_def
          update_avro_with_char_def update_avro_with_string_def)
  qed
qed

text \<open>Selecting a branch of a fresh union, then working inside it.\<close>

lemma fresh_branch:
  assumes "val_at v p = Some (VUnion bs None)" and "d < length bs"
  shows "avro_value_set_branch A p d v = (0, p @ [0], val_upd v p (VUnion bs (Some (d, default_val (bs ! d)))))"
  using set_branch [OF assms] by (simp add: select_branch_def)

lemma enum_branch:
  assumes v: "val_at v p = Some (VUnion bs None)" and bs: "map unlink bs = [SNull, t, special_time_type]"
  defines "u \<equiv> val_upd v p (VUnion bs (Some (2, VEnum 0)))"
  shows "avro_value_set_branch A p 2 v = (0, p @ [0], u)"
    and "avro_value_set_enum A (p @ [0]) i u = (0, val_upd v p (VUnion bs (Some (2, VEnum i))))"
proof -
  have "default_val (bs ! 2) = VEnum 0"
    using branches(2) [OF bs, of 2] by (simp add: special_time_type_def)
  with fresh_branch [OF v, of 2] branches(1) [OF bs] show "avro_value_set_branch A p 2 v = (0, p @ [0], u)"
    by (simp add: u_def)
  show "avro_value_set_enum A (p @ [0]) i u = (0, val_upd v p (VUnion bs (Some (2, VEnum i))))"
    using set_leaf [OF union_focus(1) [OF v]] union_focus(2) [OF v] by (simp add: u_def)
qed

lemma update_date_ok:
  assumes v: "val_at v p = Some (VUnion bs None)" and bs: "map unlink bs = [SNull, date_type, special_time_type]"
  shows "update_avro_with_date A P p x v = Ret 0 (val_upd v p (VUnion bs (Some (date_branch P x))))"
proof (cases "x = DATEVAL_NOBEGIN \<or> x = DATEVAL_NOEND")
  case True
  then show ?thesis
    by (auto simp: update_avro_with_date_def enum_branch [OF v bs] date_branch_def)
next
  case False
  obtain y m d where d: "j2date P (x + 2451545) = (y, m, d)" by (rule prod_cases3)
  let ?z = "[VInt 0, VInt 0, VInt 0]" and ?xs = "[VInt y, VInt m, VInt d]"
  let ?u = "val_upd v p (VUnion bs (Some (1, VRecord ?z)))"
  have "default_val (bs ! 1) = VRecord ?z"
    using branches(2) [OF bs, of 1] by (simp add: date_type_def predefined_def date_fields_def)
  then have br: "avro_value_set_branch A p 1 v = (0, p @ [0], ?u)"
    using fresh_branch [OF v, of 1] branches(1) [OF bs] by simp
  have "get_fields A (p @ [0]) [0, 1, 2] (\<lambda>fs. set_leaves A (zip fs ?xs) (Ret 0)) ?u =
      Ret 0 (val_upd ?u (p @ [0]) (VRecord (?xs @ [])))"
    by (rule set_record [OF union_focus(1) [OF v], where us = ?z]) (simp_all add: numeral_2_eq_2)
  with False d br show ?thesis
    by (simp add: update_avro_with_date_def date_branch_def union_focus(2) [OF v])
qed

lemma update_timestamp_ok:
  assumes v: "val_at v p = Some (VUnion bs None)"
    and bs: "map unlink bs = [SNull, datetime_type tz, special_time_type]"
  shows "update_avro_with_timestamp A P p tz x v = (case timestamp_branch P tz x of
    None \<Rightarrow> Exit ERROR v | Some b \<Rightarrow> Ret 0 (val_upd v p (VUnion bs (Some b))))"
proof (cases "x = DT_NOBEGIN \<or> x = DT_NOEND")
  case True
  then show ?thesis
    by (auto simp: update_avro_with_timestamp_def enum_branch [OF v bs] timestamp_branch_def)
next
  case False
  show ?thesis
  proof (cases "timestamp2tm P tz x")
    case None
    with False show ?thesis by (simp add: update_avro_with_timestamp_def timestamp_branch_def)
  next
    case (Some r)
    obtain tm fsec zone where r: "r = (tm, fsec, zone)" by (rule prod_cases3)
    let ?z = "[VInt 0, VInt 0, VInt 0, VInt 0, VInt 0, VInt 0, VInt 0]"
    let ?w = "if tz then [VInt 0] else []"
    let ?u = "val_upd v p (VUnion bs (Some (1, VRecord (?z @ ?w))))"
    let ?t = "val_upd v p (VUnion bs (Some (1, VRecord (tm_leaves tm fsec @ ?w))))"
    have "default_val (bs ! 1) = VRecord (?z @ ?w)"
      using branches(2) [OF bs, of 1]
      by (simp add: datetime_type_def predefined_def date_fields_def time_fields_def)
    then have br: "avro_value_set_branch A p 1 v = (0, p @ [0], ?u)"
      using fresh_branch [OF v, of 1] branches(1) [OF bs] by simp
    have fields: "get_fields A (p @ [0]) [0, 1, 2, 3, 4, 5, 6]
        (\<lambda>fs. set_leaves A (zip fs (tm_leaves tm fsec)) k) ?u = k ?t" for k
      using set_record [OF union_focus(1) [OF v, of 1 "VRecord (?z @ ?w)"], where us = ?z and ws = ?w and
          xs = "tm_leaves tm fsec" and k = k, OF _ refl seven_leaves]
      by (simp only: union_focus(2) [OF v]) (simp add: tm_leaves_def)
    have zone: "check_read (\<lambda>v. avro_value_get_by_index A v (p @ [0]) 7) (\<lambda>zone_val.
        check_upd (avro_value_set_int A zone_val (- zone)) (Ret 0)) ?t =
        Ret 0 (val_upd v p (VUnion bs (Some (1, tm_value tm fsec [VInt (- zone)]))))" if tz
    proof -
      have at: "val_at ?t (p @ [0]) = Some (VRecord (tm_leaves tm fsec @ [VInt 0]))"
        using union_focus(1) [OF v] that by simp
      have "val_at ?t ((p @ [0]) @ [7]) = Some (VInt 0)"
        using at by (simp only: val_at_append) (simp add: tm_leaves_def)
      moreover have "val_upd ?t ((p @ [0]) @ [7]) (VInt (- zone)) =
          val_upd v p (VUnion bs (Some (1, tm_value tm fsec [VInt (- zone)])))"
        unfolding val_upd_append [OF at] union_focus(2) [OF v] by (simp add: tm_leaves_def tm_value_def)
      ultimately show ?thesis
        using index_record [OF at, of 7] set_leaf [of ?t "(p @ [0]) @ [7]" "VInt 0" "VInt (- zone)"]
        by (simp add: tm_leaves_def)
    qed
    have body: "check_new (avro_value_set_branch A p 1) (\<lambda>record_val.
        get_fields A record_val [0, 1, 2, 3, 4, 5, 6] (\<lambda>fs.
        set_leaves A (zip fs (tm_leaves tm fsec)) (k record_val))) v = k (p @ [0]) ?t" for k
      using fields [of "k (p @ [0])"] by (simp only: check_new_def br prod.case) simp
    show ?thesis
      using False Some r zone
      by (cases tz) (simp_all add: update_avro_with_timestamp_def timestamp_branch_def body tm_value_def
          del: One_nat_def get_fields.simps)
  qed
qed

lemma update_datum_ok:
  assumes v: "val_at v p = Some (VUnion bs None)" and bs: "map unlink bs = base_branches t"
  shows "update_column A P p t datum v = (case datum_branch P t datum of
    None \<Rightarrow> Exit ERROR v | Some b \<Rightarrow> Ret 0 (val_upd v p (VUnion bs (Some b))))"
proof (cases datum)
  case None
  have len: "0 < length bs" and "default_val (bs ! 0) = VNull"
    using branches(1) [OF bs] branches(2) [OF bs, of 0] by (auto simp: base_branches_def)
  with None fresh_branch [OF v len] show ?thesis by (simp add: update_column_def datum_branch_def)
next
  case (Some d)
  consider "t = DATEOID" | "t = TIMESTAMPOID" | "t = TIMESTAMPTZOID" |
    "t \<noteq> DATEOID" "t \<noteq> TIMESTAMPOID" "t \<noteq> TIMESTAMPTZOID" by blast
  then show ?thesis
  proof cases
    case 4
    let ?u = "val_upd v p (VUnion bs (Some (1, default_val (base_type t))))"
    have b: "map unlink bs = [SNull, base_type t]" using bs 4 by (simp add: base_branches_def)
    have br: "avro_value_set_branch A p 1 v = (0, p @ [0], ?u)"
      using fresh_branch [OF v, of 1] branches(2) [OF b, of 1] branches(1) [OF b] by simp
    have "update_branch A P (p @ [0]) t d ?u = Ret 0 (val_upd v p (VUnion bs (Some (1, branch_value P t d))))"
      using update_branch_ok [OF union_focus(1) [OF v] 4] union_focus(2) [OF v] by simp
    with Some 4 br show ?thesis
      by (simp add: update_column_def update_avro_with_datum_def datum_branch_def)
  qed (use Some v bs in \<open>simp_all add: update_column_def update_avro_with_datum_def datum_branch_def
      base_branches_def update_date_ok update_timestamp_ok\<close>)
qed

end

lemma branch_value_schema:
  "t \<noteq> DATEOID \<Longrightarrow> t \<noteq> TIMESTAMPOID \<Longrightarrow> t \<noteq> TIMESTAMPTZOID \<Longrightarrow> has_schema (branch_value P t d) (base_type t)"
  by (simp add: branch_value_def base_type_def type_defs tm_value_def tm_leaves_def)

lemma datum_branch_schema:
  assumes "datum_branch P t datum = Some (d, x)"
  shows "d < length (base_branches t)" and "has_schema x (base_branches t ! d)"
proof -
  have "d < length (base_branches t) \<and> has_schema x (base_branches t ! d)"
  proof (cases datum)
    case None
    with assms show ?thesis by (auto simp: datum_branch_def base_branches_def)
  next
    case (Some y)
    consider "t = DATEOID" | "t = TIMESTAMPOID" | "t = TIMESTAMPTZOID" |
      "t \<noteq> DATEOID" "t \<noteq> TIMESTAMPOID" "t \<noteq> TIMESTAMPTZOID" by blast
    then show ?thesis
    proof cases
      case 4
      with Some assms show ?thesis by (auto simp: datum_branch_def base_branches_def branch_value_schema)
    qed (use Some assms in \<open>auto simp: datum_branch_def base_branches_def date_branch_def timestamp_branch_def
        type_defs tm_value_def tm_leaves_def split: if_splits prod.splits\<close>)
  qed
  then show "d < length (base_branches t)" and "has_schema x (base_branches t ! d)" by auto
qed

section \<open>Filling in a list of columns\<close>

text \<open>Both loops over columns fill the fields of a record from a list of columns of the tuple.\<close>

fun fill_columns :: "('z avro_ops_scheme) \<Rightarrow> ('t, 'd) pg_ops \<Rightarrow> tupdesc \<Rightarrow> 't \<Rightarrow> nat list \<Rightarrow> nat \<Rightarrow>
    (avro_val, int) prog" where
  "fill_columns A P td tuple [] field v = Ret 0 v"
| "fill_columns A P td tuple (i # is) field v =
     check_read (\<lambda>v. avro_value_get_by_index A v [] field) (\<lambda>field_val v.
     check (update_column A P field_val (atttypid (td ! i)) (heap_getattr P tuple (i + 1) td) v)
       (fill_columns A P td tuple is (field + 1))) v"

lemma tuple_columns_fill:
  "tuple_columns A P td tuple is field v = fill_columns A P td tuple (filter (\<lambda>i. \<not> attisdropped (td ! i)) is) field v"
proof (induction "is" arbitrary: field v)
  case (Cons i "is")
  have "tuple_columns A P td tuple is n = fill_columns A P td tuple (filter (\<lambda>i. \<not> attisdropped (td ! i)) is) n" for n
    using Cons.IH by blast
  with Cons.IH show ?case by (simp add: Let_def)
qed simp

definition tuple_position :: "tupdesc \<Rightarrow> tupdesc \<Rightarrow> int \<Rightarrow> nat option" where
  "tuple_position rel_td td key = (case tuple_column rel_td td [0..<nat (key - 1)] 0 of
     None \<Rightarrow> None | Some i \<Rightarrow> if i < length td \<and> \<not> attisdropped (td ! i) then Some i else None)"

lemma key_columns_fill:
  "those (map (tuple_position rel_td td) keys) = Some cols \<Longrightarrow>
    key_columns A P td tuple rel_td keys field v = fill_columns A P td tuple cols field v"
proof (induction keys arbitrary: cols field v)
  case (Cons k keys)
  then obtain i "is" where i: "tuple_position rel_td td k = Some i" "those (map (tuple_position rel_td td) keys) = Some is"
    "cols = i # is"
    by (auto split: option.splits)
  have "key_columns A P td tuple rel_td keys n = fill_columns A P td tuple is n" for n
    using Cons.IH [OF i(2)] by blast
  with i show ?case by (auto simp: tuple_position_def Let_def split: option.splits if_splits)
qed simp

definition column_value :: "('t, 'd) pg_ops \<Rightarrow> tupdesc \<Rightarrow> 't \<Rightarrow> nat \<Rightarrow> avro_schema \<Rightarrow> avro_val option" where
  "column_value P td tuple i s = (case s of
     SUnion bs \<Rightarrow> map_option (\<lambda>b. VUnion bs (Some b)) (datum_branch P (atttypid (td ! i)) (heap_getattr P tuple (i + 1) td))
   | _ \<Rightarrow> None)"

definition column_typed :: "tupdesc \<Rightarrow> nat \<Rightarrow> string \<times> avro_schema \<Rightarrow> bool" where
  "column_typed td i f \<longleftrightarrow> (\<exists>bs. snd f = SUnion bs \<and> map unlink bs = base_branches (atttypid (td ! i)))"

text \<open>The value of a record whose fields come from the given columns.\<close>

definition columns_value :: "('t, 'd) pg_ops \<Rightarrow> tupdesc \<Rightarrow> 't \<Rightarrow> nat list \<Rightarrow> (string \<times> avro_schema) list \<Rightarrow> avro_val option" where
  "columns_value P td tuple is fs =
     map_option VRecord (those (map2 (\<lambda>i f. column_value P td tuple i (snd f)) is fs))"

lemma those_Cons_Some: "those (x # xs) = Some ys \<longleftrightarrow> (\<exists>y zs. x = Some y \<and> those xs = Some zs \<and> ys = y # zs)"
  by (auto split: option.splits)

lemma columns_value_schema:
  assumes "list_all2 (column_typed td) is fs" and "columns_value P td tuple is fs = Some v"
  shows "has_schema v (SRecord n ns fs)"
proof -
  obtain vs where vs: "those (map2 (\<lambda>i f. column_value P td tuple i (snd f)) is fs) = Some vs" "v = VRecord vs"
    using assms(2) by (auto simp: columns_value_def)
  have "list_all2 (\<lambda>v fs. has_schema v (snd fs)) vs fs"
    using assms(1) vs(1)
  proof (induction "is" fs arbitrary: vs rule: list_all2_induct)
    case (Cons i "is" f fs)
    then obtain w ws where w: "column_value P td tuple i (snd f) = Some w"
      "those (map2 (\<lambda>i f. column_value P td tuple i (snd f)) is fs) = Some ws" "vs = w # ws"
      unfolding zip_Cons_Cons list.map those_Cons_Some prod.case by auto
    obtain bs where bs: "snd f = SUnion bs" "map unlink bs = base_branches (atttypid (td ! i))"
      using Cons.hyps(1) by (auto simp: column_typed_def)
    then obtain d x where x: "datum_branch P (atttypid (td ! i)) (heap_getattr P tuple (i + 1) td) = Some (d, x)"
      "w = VUnion bs (Some (d, x))"
      using w(1) by (auto simp: column_value_def)
    have "d < length bs" "has_schema x (bs ! d)"
      using branches(1) [OF bs(2)] branches(3) [OF bs(2)] datum_branch_schema [OF x(1)] by auto
    with x(2) bs(1) have "has_schema w (snd f)" by simp
    with Cons.IH [OF w(2)] w(3) show ?case by simp
  qed simp
  with vs(2) show ?thesis by simp
qed

context avro_values
begin

lemma fill_columns_ok:
  assumes "list_all2 (column_typed td) is fs"
  shows "case those (map2 (\<lambda>i f. column_value P td tuple i (snd f)) is fs) of
      None \<Rightarrow> \<exists>v. fill_columns A P td tuple is (length vs) (VRecord (vs @ map (\<lambda>f. default_val (snd f)) fs)) = Exit ERROR v
    | Some ws \<Rightarrow> fill_columns A P td tuple is (length vs) (VRecord (vs @ map (\<lambda>f. default_val (snd f)) fs)) =
        Ret 0 (VRecord (vs @ ws))"
  using assms
proof (induction "is" fs arbitrary: vs rule: list_all2_induct)
  case (Cons i "is" f fs)
  let ?ds = "map (\<lambda>f. default_val (snd f)) fs"
  obtain bs where bs: "snd f = SUnion bs" "map unlink bs = base_branches (atttypid (td ! i))"
    using Cons.hyps(1) by (auto simp: column_typed_def)
  let ?v = "VRecord (vs @ VUnion bs None # ?ds)"
  have idx: "avro_value_get_by_index A ?v [] (length vs) = (0, [length vs])"
    using index_record [of ?v "[]" "vs @ VUnion bs None # ?ds" "length vs"] by simp
  have at: "val_at ?v [length vs] = Some (VUnion bs None)" by simp
  have upd: "val_upd ?v [length vs] w = VRecord ((vs @ [w]) @ ?ds)" for w by simp
  note col = update_datum_ok [OF at bs(2), of P "heap_getattr P tuple (i + 1) td"]
  show ?case
  proof (cases "datum_branch P (atttypid (td ! i)) (heap_getattr P tuple (i + 1) td)")
    case None
    with bs col idx show ?thesis by (simp add: column_value_def)
  next
    case (Some b)
    have IH: "case those (map2 (\<lambda>i f. column_value P td tuple i (snd f)) is fs) of
        None \<Rightarrow> \<exists>v. fill_columns A P td tuple is (Suc (length vs)) (VRecord (vs @ VUnion bs (Some b) # ?ds)) = Exit ERROR v
      | Some ws \<Rightarrow> fill_columns A P td tuple is (Suc (length vs)) (VRecord (vs @ VUnion bs (Some b) # ?ds)) =
          Ret 0 (VRecord (vs @ VUnion bs (Some b) # ws))"
      using Cons.IH [of "vs @ [VUnion bs (Some b)]"] by (simp split: option.splits)
    from Some bs col idx IH show ?thesis
      by (cases "those (map2 (\<lambda>i f. column_value P td tuple i (snd f)) is fs)")
        (auto simp: column_value_def upd)
  qed
qed simp

lemma fill_columns_reset:
  assumes "has_schema v (SRecord n ns fs)" and "list_all2 (column_typed td) is fs"
  shows "case columns_value P td tuple is fs of
      None \<Rightarrow> \<exists>u. check_upd (avro_value_reset A) (fill_columns A P td tuple is 0) v = Exit ERROR u
    | Some w \<Rightarrow> check_upd (avro_value_reset A) (fill_columns A P td tuple is 0) v = Ret 0 w"
  using fill_columns_ok [OF assms(2), of P tuple "[]"] reset [OF assms(1)]
  by (auto simp: columns_value_def split: option.splits)

end

section \<open>Rows\<close>

definition live_columns :: "tupdesc \<Rightarrow> nat list" where
  "live_columns td = filter (\<lambda>i. \<not> attisdropped (td ! i)) [0..<length td]"

lemma nth_live_columns: "map ((!) td) (live_columns td) = live td"
proof -
  have "live td = filter (\<lambda>a. \<not> attisdropped a) (map ((!) td) [0..<length td])"
    by (simp add: live_def map_nth)
  also have "\<dots> = map ((!) td) (live_columns td)"
    by (simp add: filter_map live_columns_def comp_def)
  finally show ?thesis by simp
qed

lemma live_columns_typed:
  assumes "list_all2 column_field (live td) fs"
  shows "list_all2 (column_typed td) (live_columns td) fs"
  using assms
  by (auto simp flip: nth_live_columns simp: list_all2_map1 column_field_def column_typed_def elim!: list_all2_mono)

text \<open>The row of a tuple, in the order of the columns that are not dropped.\<close>

definition row_of_tuple :: "('t, 'd) pg_ops \<Rightarrow> avro_schema \<Rightarrow> tupdesc \<Rightarrow> 't \<Rightarrow> avro_val option" where
  "row_of_tuple P s td tuple = (case s of
     SRecord n ns fs \<Rightarrow> columns_value P td tuple (live_columns td) fs | _ \<Rightarrow> None)"

context avro_values
begin

lemma tuple_to_avro_row_ok:
  assumes "has_schema v (schema_for_table_row P rel)" and "live td = live (rd_att rel)"
  shows "case row_of_tuple P (schema_for_table_row P rel) td tuple of
      None \<Rightarrow> \<exists>u. tuple_to_avro_row A P td tuple v = Exit ERROR u
    | Some w \<Rightarrow> tuple_to_avro_row A P td tuple v = Ret 0 w \<and> has_schema w (schema_for_table_row P rel)"
proof -
  obtain n ns fs where s: "schema_for_table_row P rel = SRecord n ns fs" "list_all2 column_field (live td) fs"
    using schema_for_table_row_ok [of P rel] assms(2) by metis
  note typed = live_columns_typed [OF s(2)]
  have "tuple_columns A P td tuple [0..<length td] 0 = fill_columns A P td tuple (live_columns td) 0"
    by (intro ext) (simp add: tuple_columns_fill live_columns_def)
  with fill_columns_reset [OF assms(1) [unfolded s(1)] typed, of P tuple] columns_value_schema [OF typed, of P tuple]
  show ?thesis
    by (auto simp: s(1) row_of_tuple_def tuple_to_avro_row_def split: option.splits)
qed

end

section \<open>Keys\<close>

text \<open>
  What the catalog promises of a key index: its columns are columns of the table, which exist and
  have the types of the index.
\<close>

definition key_attr :: "tupdesc \<Rightarrow> pg_attribute \<Rightarrow> int \<Rightarrow> bool" where
  "key_attr rel_td a k \<longleftrightarrow> 1 \<le> k \<and> nat (k - 1) < length rel_td \<and> \<not> attisdropped (rel_td ! nat (k - 1)) \<and>
     atttypid a = atttypid (rel_td ! nat (k - 1)) \<and> \<not> attisdropped a"

definition key_index_ok :: "relation \<Rightarrow> relation \<Rightarrow> bool" where
  "key_index_ok rel idx \<longleftrightarrow> list_all2 (key_attr (rd_att rel)) (rd_att idx) (indkey (rd_index idx))"

text \<open>A tuple has the columns of the table (in the log) or those not dropped (in a result set).\<close>

definition tuple_format :: "relation \<Rightarrow> tupdesc \<Rightarrow> bool" where
  "tuple_format rel td \<longleftrightarrow> td = rd_att rel \<or> td = live (rd_att rel)"

lemma live_live [simp]: "live (live td) = live td"
  by (simp add: live_def)

lemma live_set: "i < length (live td) \<Longrightarrow> \<not> attisdropped (live td ! i)"
  using nth_mem [of i "live td"] by (auto simp: live_def)

lemma tuple_format_live: "tuple_format rel td \<Longrightarrow> live td = live (rd_att rel)"
  by (auto simp: tuple_format_def)

lemma tuple_column_same:
  assumes "n \<le> length td" and "j \<le> n"
  shows "tuple_column td td [j..<n] j = Some n"
  using assms(2)
proof (induction "n - j" arbitrary: j)
  case (Suc d)
  then have "j < n" by simp
  with Suc.hyps(1) [of "Suc j"] Suc.hyps(2) assms(1) show ?case by (simp add: upt_conv_Cons)
qed simp

lemma live_take_Suc:
  "j < length td \<Longrightarrow> live (take (Suc j) td) = live (take j td) @ (if attisdropped (td ! j) then [] else [td ! j])"
  by (simp add: live_def take_Suc_conv_app_nth)

lemma live_split: "j < length td \<Longrightarrow> live td = live (take j td) @ live (drop j td)"
  by (simp add: live_def flip: filter_append)

lemma live_position:
  assumes "n < length td" and "\<not> attisdropped (td ! n)"
  shows "length (live (take n td)) < length (live td)" and "live td ! length (live (take n td)) = td ! n"
  using live_split [OF assms(1)] assms by (auto simp: Cons_nth_drop_Suc [symmetric] live_def nth_append)

lemma tuple_column_live:
  assumes n: "n < length td" "\<not> attisdropped (td ! n)" and "j \<le> n"
  shows "tuple_column td (live td) [j..<n] (length (live (take j td))) = Some (length (live (take n td)))"
  using assms(3)
proof (induction "n - j" arbitrary: j)
  case (Suc d)
  then have j: "j < n" by simp
  have le: "length (live (take j td)) < length (live td)"
    using live_position(1) [OF n] live_split [of j "take n td"] j n(1)
    by (simp add: min_def take_take split: if_splits)
  with live_set have "\<not> attisdropped (live td ! length (live (take j td)))" by blast
  moreover have "tuple_column td (live td) [Suc j..<n] (length (live (take (Suc j) td))) = Some (length (live (take n td)))"
    using Suc.hyps(1) [of "Suc j"] Suc.hyps(2) j by simp
  ultimately show ?case using j le n(1)
    by (cases "attisdropped (td ! j)") (simp_all add: upt_conv_Cons live_take_Suc)
qed simp

lemma tuple_position_ok:
  assumes "tuple_format rel td" and "key_attr (rd_att rel) a k"
  obtains i where "tuple_position (rd_att rel) td k = Some i" "td ! i = rd_att rel ! nat (k - 1)"
proof -
  let ?n = "nat (k - 1)"
  have n: "?n < length (rd_att rel)" "\<not> attisdropped (rd_att rel ! ?n)"
    using assms(2) by (simp_all add: key_attr_def)
  from assms(1) consider "td = rd_att rel" | "td = live (rd_att rel)" by (auto simp: tuple_format_def)
  then show ?thesis
  proof cases
    case 1
    with n tuple_column_same [of ?n "rd_att rel" 0] that [of ?n] show ?thesis
      by (simp add: tuple_position_def)
  next
    case 2
    have "tuple_column (rd_att rel) td [0..<?n] 0 = Some (length (live (take ?n (rd_att rel))))"
      using tuple_column_live [OF n, of 0] 2 by (simp add: live_def)
    with live_position [OF n] 2 n(2) that show ?thesis by (simp add: tuple_position_def)
  qed
qed

lemma key_positions:
  assumes "tuple_format rel td" and "list_all2 (key_attr (rd_att rel)) as ks" and "list_all2 column_field as fs"
  shows "\<exists>cols. those (map (tuple_position (rd_att rel) td) ks) = Some cols \<and> list_all2 (column_typed td) cols fs"
  using assms(2,3)
proof (induction as ks arbitrary: fs rule: list_all2_induct)
  case (Cons a as k ks)
  then obtain f gs where fs: "fs = f # gs" "column_field a f" "list_all2 column_field as gs"
    by (auto simp: list_all2_Cons1)
  obtain cols where cols: "those (map (tuple_position (rd_att rel) td) ks) = Some cols" "list_all2 (column_typed td) cols gs"
    using Cons.IH [OF fs(3)] by blast
  obtain i where i: "tuple_position (rd_att rel) td k = Some i" "td ! i = rd_att rel ! nat (k - 1)"
    using tuple_position_ok [OF assms(1) Cons.hyps(1)] .
  then have "column_typed td i f"
    using Cons.hyps(1) fs(2) by (auto simp: column_typed_def column_field_def key_attr_def)
  with cols i fs(1) show ?case by simp
qed simp

definition key_of_tuple :: "('t, 'd) pg_ops \<Rightarrow> avro_schema \<Rightarrow> relation \<Rightarrow> relation \<Rightarrow> tupdesc \<Rightarrow> 't \<Rightarrow> avro_val option" where
  "key_of_tuple P s rel idx td tuple = (case s of
     SRecord n ns fs \<Rightarrow> Option.bind (those (map (tuple_position (rd_att rel) td) (indkey (rd_index idx))))
       (\<lambda>cols. columns_value P td tuple cols fs)
   | _ \<Rightarrow> None)"

context avro_values
begin

lemma tuple_to_avro_key_ok:
  assumes "has_schema v (schema_for_table_row P idx)" and "tuple_format rel td" and idx: "key_index_ok rel idx"
  shows "case key_of_tuple P (schema_for_table_row P idx) rel idx td tuple of
      None \<Rightarrow> \<exists>u. tuple_to_avro_key A P td tuple rel (rd_index idx) v = Exit ERROR u
    | Some w \<Rightarrow> tuple_to_avro_key A P td tuple rel (rd_index idx) v = Ret 0 w \<and> has_schema w (schema_for_table_row P idx)"
proof -
  have "live (rd_att idx) = rd_att idx"
    using idx by (auto simp: key_index_ok_def live_def key_attr_def list_all2_conv_all_nth filter_id_conv in_set_conv_nth)
  then obtain n ns fs where s: "schema_for_table_row P idx = SRecord n ns fs" "list_all2 column_field (rd_att idx) fs"
    using schema_for_table_row_ok [of P idx] by metis
  obtain cols where cols: "those (map (tuple_position (rd_att rel) td) (indkey (rd_index idx))) = Some cols"
    "list_all2 (column_typed td) cols fs"
    using key_positions [OF assms(2) idx [unfolded key_index_ok_def] s(2)] by blast
  have "key_columns A P td tuple (rd_att rel) (indkey (rd_index idx)) 0 = fill_columns A P td tuple cols 0"
    by (intro ext) (rule key_columns_fill [OF cols(1)])
  with fill_columns_reset [OF assms(1) [unfolded s(1)] cols(2), of P tuple] columns_value_schema [OF cols(2), of P tuple]
  show ?thesis
    by (auto simp: s(1) cols(1) key_of_tuple_def tuple_to_avro_key_def split: option.splits)
qed

end

end
