(* ===== verification/Cache_Coherence.thy ===== *)
theory Cache_Coherence
  imports Schema_Cache Row_Conversion Protocol
begin

text \<open>
  The server's schema cache (\<open>ext/schema_cache.c\<close>) is coherent with the catalog. \<open>cache_ok\<close> is its
  invariant: an entry owns what it points to, and its schemas are those built from the names and
  the columns that it remembers. A lookup leaves the entry with the schemas the table has at that
  moment, and reports 0 only if the cache had these schemas before.
\<close>

section \<open>The key index\<close>

text \<open>The index found by \<open>table_key_index\<close>, which does not depend on the state it is called in.\<close>

definition key_index :: "('t, 'd) pg_ops \<Rightarrow> relation \<Rightarrow> relation option option" where
  "key_index P rel = (case table_key_index P rel () of Ret i _ \<Rightarrow> Some i | _ \<Rightarrow> None)"

lemma find_primary_state:
  "find_primary P os s = (case find_primary P os () of Ret i _ \<Rightarrow> Ret i s | _ \<Rightarrow> Exit ERROR s)"
  by (induction os) (auto simp: Let_def split: option.split)

lemma table_key_index_eq:
  "table_key_index P rel s = (case key_index P rel of None \<Rightarrow> Exit ERROR s | Some i \<Rightarrow> Ret i s)"
proof (cases "relreplident rel = REPLICA_IDENTITY_NOTHING")
  case True
  then show ?thesis by (simp add: table_key_index_def key_index_def)
next
  case False
  then show ?thesis
    using find_primary_state [of P "RelationGetIndexList P rel" s]
    by (auto simp: table_key_index_def key_index_def Let_def split: option.split outcome.split)
qed

section \<open>What the catalog promises\<close>

text \<open>
  The relation's namespace exists; its key index has a valid oid and is in the same namespace, and
  its columns are those of the table.
\<close>

definition relation_ok :: "('t, 'd) pg_ops \<Rightarrow> relation \<Rightarrow> bool" where
  "relation_ok P rel \<longleftrightarrow> get_namespace_name P (relnamespace rel) \<noteq> None \<and>
     (\<forall>idx. key_index P rel = Some (Some idx) \<longrightarrow>
        rd_id idx \<noteq> InvalidOid \<and> relnamespace idx = relnamespace rel \<and> key_index_ok rel idx)"

section \<open>The invariant\<close>

definition named_schema :: "string \<Rightarrow> string \<Rightarrow> tupdesc \<Rightarrow> avro_schema" where
  "named_schema ns name td =
     row_schema_fields no_predef td (SRecord name (GENERATED_SCHEMA_NAMESPACE @ ''.'' @ ns) [])"

lemma schema_for_table_row_named:
  "get_namespace_name P (relnamespace rel) = Some ns \<Longrightarrow>
    schema_for_table_row P rel = named_schema ns (relname rel) (rd_att rel)"
  by (simp add: schema_for_table_row_def named_schema_def)

text \<open>The entry owns its parts, and its schemas are those of the names and columns it remembers.\<close>

definition cache_entry_ok :: "Oid \<Rightarrow> schema_cache_entry \<Rightarrow> bool" where
  "cache_entry_ok rid e \<longleftrightarrow> sc_relid e = rid \<and>
     (\<exists>td v. sc_row_tupdesc e = Valid td \<and>
        sc_row_schema e = Valid (named_schema (sc_ns_name e) (sc_relname e) td) \<and>
        sc_row_iface e = Valid (named_schema (sc_ns_name e) (sc_relname e) td) \<and>
        sc_row_value e = Valid v \<and> has_schema v (named_schema (sc_ns_name e) (sc_relname e) td)) \<and>
     (if sc_key_id e = InvalidOid then sc_key_schema e = Null \<and> sc_key_tupdesc e = Null
      else sc_keyns_id e = sc_ns_id e \<and> (\<exists>td v. sc_key_tupdesc e = Valid td \<and>
        sc_key_schema e = Valid (named_schema (sc_keyns_name e) (sc_key_name e) td) \<and>
        sc_key_iface e = Valid (named_schema (sc_keyns_name e) (sc_key_name e) td) \<and>
        sc_key_value e = Valid v \<and> has_schema v (named_schema (sc_keyns_name e) (sc_key_name e) td)))"

definition cache_ok :: "schema_cache \<Rightarrow> bool" where
  "cache_ok cache \<longleftrightarrow> (\<forall>rid e. map_of cache rid = Some e \<longrightarrow> cache_entry_ok rid e) \<and> distinct (map fst cache)"

text \<open>The schemas of an entry, row and key; those of the whole cache; and those the table has now.\<close>

definition entry_schemas :: "schema_cache_entry \<Rightarrow> (avro_schema \<times> avro_schema option) option" where
  "entry_schemas e = map_option (\<lambda>rs. (rs, ptr_option (sc_key_schema e))) (ptr_option (sc_row_schema e))"

definition cache_view :: "schema_cache \<Rightarrow> schema_view" where
  "cache_view cache rid = Option.bind (map_of cache rid) entry_schemas"

definition table_schemas :: "('t, 'd) pg_ops \<Rightarrow> relation \<Rightarrow> relation option \<Rightarrow> avro_schema \<times> avro_schema option" where
  "table_schemas P rel index = (schema_for_table_row P rel, map_option (schema_for_table_row P) index)"

section \<open>Operations keep it\<close>

context avro_codec
begin

lemma entry_update_ok:
  assumes rel: "relation_ok P rel" and idx: "key_index P rel = Some index"
  obtains e' where "schema_cache_entry_update A P e rel s = Ret e' s" "cache_entry_ok (rd_id rel) e'"
    "entry_schemas e' = Some (table_schemas P rel index)"
proof -
  obtain ns where ns: "get_namespace_name P (relnamespace rel) = Some ns"
    using rel by (auto simp: relation_ok_def)
  show ?thesis
  proof (cases index)
    case None
    with idx ns that show ?thesis
      by (simp add: schema_cache_entry_update_def table_key_index_eq schema_for_table_key_def set_key_index_def
          set_schemas_def Let_def value_new cache_entry_ok_def entry_schemas_def table_schemas_def
          schema_for_table_row_named has_schema_default)
  next
    case (Some i)
    with rel idx ns have i: "rd_id i \<noteq> 0" "relnamespace i = relnamespace rel"
        "get_namespace_name P (relnamespace i) = Some ns"
      by (simp_all add: relation_ok_def)
    with Some idx ns that show ?thesis
      by (simp add: schema_cache_entry_update_def table_key_index_eq schema_for_table_key_def set_key_index_def
          set_schemas_def Let_def value_new cache_entry_ok_def entry_schemas_def table_schemas_def
          schema_for_table_row_named has_schema_default)
  qed
qed

end

lemma cache_decrefs_ok:
  assumes "cache_entry_ok rid e"
  shows "schema_cache_entry_decrefs e = Some zero_entry"
  using assms by (auto simp: cache_entry_ok_def schema_cache_entry_decrefs_def release_if_def split: if_splits)

text \<open>If the entry counts as unchanged, its schemas are those the table has now.\<close>

lemma entry_changed_ok:
  assumes rel: "relation_ok P rel" and P: "tupdescs_compared P" and e: "cache_entry_ok (rd_id rel) e"
    and idx: "key_index P rel = Some index"
  obtains c where "schema_cache_entry_changed P e rel s = Ret c s"
    "\<not> c \<longrightarrow> entry_schemas e = Some (table_schemas P rel index)"
proof -
  obtain ns where ns: "get_namespace_name P (relnamespace rel) = Some ns"
    using rel by (auto simp: relation_ok_def)
  obtain td where td: "sc_row_tupdesc e = Valid td" "sc_row_schema e = Valid (named_schema (sc_ns_name e) (sc_relname e) td)"
    using e by (auto simp: cache_entry_ok_def)
  have eq: "equalTupleDescs P a b \<Longrightarrow> a = b" for a b using P by (auto simp: tupdescs_compared_def)
  consider "sc_ns_id e \<noteq> relnamespace rel \<or> sc_relname e \<noteq> relname rel \<or> sc_ns_name e \<noteq> ns"
    | (same) "sc_ns_id e = relnamespace rel" "sc_relname e = relname rel" "sc_ns_name e = ns" by blast
  then show ?thesis
  proof cases
    case 1
    with e ns that [of True] show ?thesis
      by (auto simp: schema_cache_entry_changed_def namespace_differs_def cache_entry_ok_def)
  next
    case same
    note defs = schema_cache_entry_changed_def namespace_differs_def tupdesc_differs_def table_key_index_eq
    have relid: "sc_relid e = rd_id rel" using e by (simp add: cache_entry_ok_def)
    show ?thesis
    proof (cases index)
      case None
      let ?c = "sc_key_id e \<noteq> 0 \<or> \<not> equalTupleDescs P td (rd_att rel)"
      have "schema_cache_entry_changed P e rel s = Ret ?c s"
        using None ns td same relid idx by (auto simp: defs)
      moreover have "\<not> ?c \<longrightarrow> entry_schemas e = Some (table_schemas P rel index)"
        using td same ns None e eq [of td "rd_att rel"]
        by (auto simp: entry_schemas_def table_schemas_def schema_for_table_row_named cache_entry_ok_def)
      ultimately show ?thesis by (rule that)
    next
      case (Some i)
      with rel idx have i: "rd_id i \<noteq> 0" "relnamespace i = relnamespace rel"
        by (simp_all add: relation_ok_def)
      show ?thesis
      proof (cases "sc_key_id e = 0")
        case True
        with Some ns td same relid idx that [of True] show ?thesis by (auto simp: defs)
      next
        case False
        with e obtain ktd where ktd: "sc_key_tupdesc e = Valid ktd" "sc_keyns_id e = sc_ns_id e"
          "sc_key_schema e = Valid (named_schema (sc_keyns_name e) (sc_key_name e) ktd)"
          by (auto simp: cache_entry_ok_def)
        let ?c = "sc_key_id e \<noteq> rd_id i \<or> sc_key_name e \<noteq> relname i \<or> sc_keyns_name e \<noteq> ns \<or>
          \<not> equalTupleDescs P ktd (rd_att i) \<or> \<not> equalTupleDescs P td (rd_att rel)"
        have "schema_cache_entry_changed P e rel s = Ret ?c s"
          using Some ns td same relid idx ktd i False by (auto simp: defs)
        moreover have "\<not> ?c \<longrightarrow> entry_schemas e = Some (table_schemas P rel index)"
          using td ktd same ns i Some eq [of ktd "rd_att i"] eq [of td "rd_att rel"]
          by (auto simp: entry_schemas_def table_schemas_def schema_for_table_row_named)
        ultimately show ?thesis by (rule that)
      qed
    qed
  qed
qed

lemma cache_ok_update:
  "cache_ok cache \<Longrightarrow> cache_entry_ok rid e \<Longrightarrow> cache_ok (AList.update rid e cache)"
  by (auto simp: cache_ok_def update_conv' distinct_update split: if_splits)

lemma cache_view_update: "cache_view (AList.update rid e cache) = (cache_view cache)(rid := entry_schemas e)"
  by (auto simp: cache_view_def update_conv')

lemma update_twice: "AList.update rid e (AList.update rid e' cache) = AList.update rid e cache"
  by (induction cache) auto

context avro_codec
begin

text \<open>
  After a lookup the entry has the schemas the table has now. A result of 0 says that the cache
  had them already and is unchanged.
\<close>

lemma schema_cache_lookup_ok:
  assumes rel: "relation_ok P rel" and P: "tupdescs_compared P" and ok: "cache_ok cache"
    and idx: "key_index P rel = Some index"
  obtains c cache' e where "schema_cache_lookup A P rel cache = Ret c cache'" "cache_ok cache'"
    "map_of cache' (rd_id rel) = Some e" "entry_schemas e = Some (table_schemas P rel index)"
    "cache_view cache' = (cache_view cache)(rd_id rel \<mapsto> table_schemas P rel index)"
    "c = 0 \<Longrightarrow> cache' = cache"
proof (cases "map_of cache (rd_id rel)")
  case None
  obtain e where e: "schema_cache_entry_update A P (entered (rd_id rel)) rel (AList.update (rd_id rel) (entered (rd_id rel)) cache) =
      Ret e (AList.update (rd_id rel) (entered (rd_id rel)) cache)" "cache_entry_ok (rd_id rel) e"
      "entry_schemas e = Some (table_schemas P rel index)"
    using entry_update_ok [OF rel idx] .
  show ?thesis
    by (rule that [of 2 "AList.update (rd_id rel) e cache" e])
      (use None e ok in \<open>simp_all add: schema_cache_lookup_def update_twice update_conv' cache_ok_update cache_view_update\<close>)
next
  case (Some e0)
  then have e0: "cache_entry_ok (rd_id rel) e0" using ok by (simp add: cache_ok_def)
  obtain c where c: "schema_cache_entry_changed P e0 rel cache = Ret c cache"
      "\<not> c \<longrightarrow> entry_schemas e0 = Some (table_schemas P rel index)"
    by (rule entry_changed_ok [OF rel P e0 idx, where s = cache])
  show ?thesis
  proof (cases c)
    case True
    obtain e where e: "schema_cache_entry_update A P zero_entry rel (AList.update (rd_id rel) zero_entry cache) =
        Ret e (AList.update (rd_id rel) zero_entry cache)" "cache_entry_ok (rd_id rel) e"
        "entry_schemas e = Some (table_schemas P rel index)"
      using entry_update_ok [OF rel idx] .
    show ?thesis
      by (rule that [of 1 "AList.update (rd_id rel) e cache" e])
        (use True Some e ok c cache_decrefs_ok [OF e0] in
          \<open>simp_all add: schema_cache_lookup_def update_twice update_conv' cache_ok_update cache_view_update\<close>)
  next
    case False
    show ?thesis
      by (rule that [of 0 cache e0])
        (use False Some ok c in \<open>simp_all add: schema_cache_lookup_def fun_eq_iff cache_view_def\<close>)
  qed
qed

text \<open>If the key index cannot be opened, the lookup raises an error.\<close>

lemma schema_cache_lookup_error:
  assumes "relation_ok P rel" and "cache_ok cache" and "key_index P rel = None"
  shows "meets (\<lambda>_ _. False) (schema_cache_lookup A P rel cache)"
proof (cases "map_of cache (rd_id rel)")
  case None
  with assms show ?thesis
    by (auto simp: schema_cache_lookup_def schema_cache_entry_update_def table_key_index_eq relation_ok_def Let_def)
next
  case (Some e)
  with assms(2) have "cache_entry_ok (rd_id rel) e" by (simp add: cache_ok_def)
  with assms Some cache_decrefs_ok show ?thesis
    by (auto simp: schema_cache_lookup_def schema_cache_entry_update_def schema_cache_entry_changed_def
        namespace_differs_def table_key_index_eq relation_ok_def Let_def)
qed

end

lemma schema_cache_new_ok: "cache_ok schema_cache_new" "cache_view schema_cache_new = Map.empty"
  by (simp_all add: cache_ok_def schema_cache_new_def cache_view_def fun_eq_iff)

lemma schema_cache_free_ok:
  assumes "cache_ok cache"
  shows "schema_cache_free cache = Ret () []"
proof -
  have "free_entries c" if "\<forall>(rid, e) \<in> set c. cache_entry_ok rid e" for c
    using that by (induction c) (auto simp: cache_decrefs_ok)
  moreover have "\<forall>(rid, e) \<in> set cache. cache_entry_ok rid e"
    using assms by (auto simp: cache_ok_def)
  ultimately show ?thesis by (simp add: schema_cache_free_def)
qed

end
