(* ===== verification/Server_Frames.thy ===== *)
theory Server_Frames
  imports Protocol_Server Cache_Coherence
begin

text \<open>
  What the functions of \<open>Protocol_Server\<close> send. The messages of an insert, update or delete are
  given as a function of the relation and the tuples (\<open>insert_msgs\<close>, \<open>update_msgs\<close>, \<open>delete_msgs\<close>),
  \<open>None\<close> where the code reports an error or the server leaves the command. The lemmas \<open>*_sends\<close>
  say that the C functions append exactly these messages to the frame, preceded by the message
  with the table's schemas unless the schema cache told these schemas before.
\<close>

section \<open>What is sent\<close>

definition written :: "int \<times> bytes \<Rightarrow> bytes option" where
  "written r = (if fst r = 0 then Some (snd r) else None)"

definition json_of :: "('z avro_io_scheme) \<Rightarrow> avro_schema \<Rightarrow> bytes option" where
  "json_of A s = written (try_writing A (write_schema_json A s))"

definition binary_of :: "('z avro_io_scheme) \<Rightarrow> avro_val \<Rightarrow> bytes option" where
  "binary_of A v = written (try_writing A (write_avro_binary A v))"

fun if_some :: "('a \<Rightarrow> 'b option) \<Rightarrow> 'a option \<Rightarrow> 'b option option" where
  "if_some f None = Some None"
| "if_some f (Some x) = map_option Some (f x)"

definition row_bytes :: "('z avro_io_scheme) \<Rightarrow> ('t, 'd) pg_ops \<Rightarrow> relation \<Rightarrow> tupdesc \<Rightarrow> 't \<Rightarrow> bytes option" where
  "row_bytes A P rel td tuple =
     Option.bind (row_of_tuple P (schema_for_table_row P rel) td tuple) (binary_of A)"

definition key_bytes :: "('z avro_io_scheme) \<Rightarrow> ('t, 'd) pg_ops \<Rightarrow> relation \<Rightarrow> relation option \<Rightarrow> tupdesc \<Rightarrow> 't \<Rightarrow>
    bytes option option" where
  "key_bytes A P rel index td tuple = if_some (\<lambda>idx.
     Option.bind (key_of_tuple P (schema_for_table_row P idx) rel idx td tuple) (binary_of A)) index"

definition old_bytes :: "('z avro_io_scheme) \<Rightarrow> ('t, 'd) pg_ops \<Rightarrow> relation \<Rightarrow> relation option \<Rightarrow> 't option \<Rightarrow>
    (bytes option \<times> bytes option) option" where
  "old_bytes A P rel index oldtuple = (case oldtuple of
     None \<Rightarrow> Some (None, None)
   | Some tuple \<Rightarrow> Option.bind (key_bytes A P rel index (rd_att rel) tuple) (\<lambda>k.
       map_option (\<lambda>b. (k, Some b)) (row_bytes A P rel (rd_att rel) tuple)))"

definition schema_msg :: "('z avro_io_scheme) \<Rightarrow> ('t, 'd) pg_ops \<Rightarrow> relation \<Rightarrow> relation option \<Rightarrow> wire_msg option" where
  "schema_msg A P rel index =
     Option.bind (if_some (\<lambda>idx. json_of A (schema_for_table_row P idx)) index) (\<lambda>kj.
       map_option (TableSchema (rd_id rel) kj) (json_of A (schema_for_table_row P rel)))"

definition schema_msgs :: "('z avro_io_scheme) \<Rightarrow> ('t, 'd) pg_ops \<Rightarrow> relation \<Rightarrow> relation option \<Rightarrow> bool \<Rightarrow> wire_msg list option" where
  "schema_msgs A P rel index changed =
     (if changed then map_option (\<lambda>m. [m]) (schema_msg A P rel index) else Some [])"

definition insert_msgs :: "('z avro_io_scheme) \<Rightarrow> ('t, 'd) pg_ops \<Rightarrow> relation \<Rightarrow> relation option \<Rightarrow> tupdesc \<Rightarrow> 't \<Rightarrow>
    wire_msg list option" where
  "insert_msgs A P rel index td tuple =
     Option.bind (key_bytes A P rel index td tuple) (\<lambda>k.
       map_option (\<lambda>n. [Insert (rd_id rel) k n]) (row_bytes A P rel td tuple))"

text \<open>An update that changes the key is a delete of the old key and an insert of the new one.\<close>

definition update_msg :: "Oid \<Rightarrow> bytes option \<Rightarrow> bytes option \<Rightarrow> bytes option \<Rightarrow> bytes \<Rightarrow> wire_msg list" where
  "update_msg r ok ob k n = (if ok \<noteq> None \<and> ok \<noteq> k then [Delete r ok ob, Insert r k n] else [Update r k ob n])"

definition update_msgs :: "('z avro_io_scheme) \<Rightarrow> ('t, 'd) pg_ops \<Rightarrow> relation \<Rightarrow> relation option \<Rightarrow> 't option \<Rightarrow> 't \<Rightarrow>
    wire_msg list option" where
  "update_msgs A P rel index old new =
     Option.bind (old_bytes A P rel index old) (\<lambda>(ok, ob).
     Option.bind (key_bytes A P rel index (rd_att rel) new) (\<lambda>k.
       map_option (update_msg (rd_id rel) ok ob k) (row_bytes A P rel (rd_att rel) new)))"

definition delete_msgs :: "('z avro_io_scheme) \<Rightarrow> ('t, 'd) pg_ops \<Rightarrow> relation \<Rightarrow> relation option \<Rightarrow> 't option \<Rightarrow>
    wire_msg list option" where
  "delete_msgs A P rel index old = map_option (\<lambda>(k, b). [Delete (rd_id rel) k b]) (old_bytes A P rel index old)"

text \<open>The whole functions: the schema message if it is due, then the row messages.\<close>

definition due_msgs :: "('z avro_io_scheme) \<Rightarrow> ('t, 'd) pg_ops \<Rightarrow> relation \<Rightarrow> relation option \<Rightarrow> bool \<Rightarrow> wire_msg list option \<Rightarrow>
    wire_msg list option" where
  "due_msgs A P rel index changed rows =
     Option.bind (schema_msgs A P rel index changed) (\<lambda>ms. map_option ((@) ms) rows)"

lemma keyed: "key_bytes A P rel index td tuple = Some k \<Longrightarrow> k = None \<longleftrightarrow> index = None"
  by (cases index) (auto simp: key_bytes_def)

lemma old_keyed: "old_bytes A P rel index old = Some (k, b) \<Longrightarrow> k \<noteq> None \<Longrightarrow> index \<noteq> None"
  by (auto simp: old_bytes_def bind_eq_Some_conv dest!: keyed split: option.splits)

section \<open>Reasoning about the calls\<close>

text \<open>The call reported an error, or the server left the command.\<close>

fun failed :: "('s, int) outcome \<Rightarrow> bool" where
  "failed (Ret e s) \<longleftrightarrow> e \<noteq> 0"
| "failed (Exit n s) \<longleftrightarrow> n = ERROR"
| "failed (Stuck s) \<longleftrightarrow> False"
| "failed Undef \<longleftrightarrow> False"

lemma failed_check: "failed r \<Longrightarrow> failed (check r k)"
  by (cases r) simp_all

text \<open>The call succeeds with \<open>Q\<close> if the specification gives a value, and else fails.\<close>

definition yields :: "'b option \<Rightarrow> ('b \<Rightarrow> 's \<Rightarrow> bool) \<Rightarrow> ('s, int) outcome \<Rightarrow> bool" where
  "yields spec Q r = (case spec of None \<Rightarrow> failed r | Some b \<Rightarrow> \<exists>t. r = Ret 0 t \<and> Q b t)"

text \<open>The same for a call that goes on with \<open>k\<close>.\<close>

definition proceeds :: "'b option \<Rightarrow> ('b \<Rightarrow> 's \<Rightarrow> bool) \<Rightarrow> ('b \<Rightarrow> 's \<Rightarrow> ('s, int) outcome) \<Rightarrow> ('s, int) outcome \<Rightarrow> bool" where
  "proceeds spec Q k r = (case spec of None \<Rightarrow> failed r | Some b \<Rightarrow> \<exists>t. r = k b t \<and> Q b t)"

lemma yields_bind:
  assumes "proceeds spec Q k r" and "\<And>b t. Q b t \<Longrightarrow> spec = Some b \<Longrightarrow> yields (f b) R (k b t)"
  shows "yields (Option.bind spec f) R r"
  using assms by (cases spec) (auto simp: proceeds_def yields_def)

lemma yields_map:
  assumes "proceeds spec Q k r" and "\<And>b t. Q b t \<Longrightarrow> spec = Some b \<Longrightarrow> yields (Some (f b)) R (k b t)"
  shows "yields (map_option f spec) R r"
  using assms by (cases spec) (auto simp: proceeds_def yields_def)

lemma proceeds_bind:
  assumes "proceeds spec Q k r" and "\<And>b t. Q b t \<Longrightarrow> spec = Some b \<Longrightarrow> proceeds (f b) R l (k b t)"
  shows "proceeds (Option.bind spec f) R l r"
  using assms by (cases spec) (auto simp: proceeds_def)

lemma proceeds_map:
  "proceeds spec Q (\<lambda>b. k (f b)) r \<Longrightarrow> (\<And>b t. Q b t \<Longrightarrow> R (f b) t) \<Longrightarrow> proceeds (map_option f spec) R k r"
  by (cases spec) (auto simp: proceeds_def)

lemma yields_check: "yields spec Q r \<Longrightarrow> proceeds spec Q (\<lambda>_. k) (check r k)"
  by (cases spec) (auto simp: proceeds_def yields_def failed_check)

text \<open>Between two calls: the frame is as before, the cache is well-formed and tells the same.\<close>

definition same_server :: "('x server_frame_scheme) \<Rightarrow> ('x server_frame_scheme) \<Rightarrow> bool" where
  "same_server s t \<longleftrightarrow> cache_ok (srv_cache t) \<and> cache_view (srv_cache t) = cache_view (srv_cache s) \<and>
     srv_frame t = srv_frame s \<and> server_frame.more t = server_frame.more s"

lemma same_server_trans: "same_server s t \<Longrightarrow> same_server t u \<Longrightarrow> same_server s u"
  by (simp add: same_server_def)

text \<open>The messages are appended to the frame.\<close>

definition extends :: "('x server_frame_scheme) \<Rightarrow> wire_msg list \<Rightarrow> ('x server_frame_scheme) \<Rightarrow> bool" where
  "extends s ms t \<longleftrightarrow> cache_ok (srv_cache t) \<and> server_frame.more t = server_frame.more s \<and>
     (\<forall>ms0. srv_frame s = frame_of ms0 \<longrightarrow> srv_frame t = frame_of (ms0 @ ms))"

lemma frame_of_cong: "frame_of ms = frame_of ms' \<Longrightarrow> frame_of (ms @ new) = frame_of (ms' @ new)"
  by (simp add: frame_of_def)

lemma extends_trans: "extends s a t \<Longrightarrow> extends t b u \<Longrightarrow> extends s (a @ b) u"
  by (simp add: extends_def)

abbreviation (input) adds :: "('x server_frame_scheme) \<Rightarrow> wire_msg list \<Rightarrow> ('x server_frame_scheme) \<Rightarrow> bool" where
  "adds t new u \<equiv> extends t new u \<and> cache_view (srv_cache u) = cache_view (srv_cache t)"

section \<open>The values of a cache entry\<close>

text \<open>
  What the functions rely on for the row value and the key value of an entry: a value of the
  schema is there, and storing another one of that schema keeps the entry well-formed.
\<close>

locale entry_cell =
  fixes get :: "schema_cache_entry \<Rightarrow> avro_val ptr"
    and upd :: "(avro_val ptr \<Rightarrow> avro_val ptr) \<Rightarrow> schema_cache_entry \<Rightarrow> schema_cache_entry"
    and sch :: "schema_cache_entry \<Rightarrow> avro_schema ptr"
  assumes get_upd: "get (upd f e) = f (get e)"
    and sch_upd: "sch (upd f e) = sch e"
    and schemas_upd: "entry_schemas (upd f e) = entry_schemas e"
    and entry_upd: "cache_entry_ok rid e \<Longrightarrow> sch e = Valid \<sigma> \<Longrightarrow> has_schema v \<sigma> \<Longrightarrow> cache_entry_ok rid (upd (\<lambda>_. Valid v) e)"
    and entry_value: "cache_entry_ok rid e \<Longrightarrow> sch e = Valid \<sigma> \<Longrightarrow> \<exists>v. get e = Valid v \<and> has_schema v \<sigma>"
begin

definition has_cell :: "Oid \<Rightarrow> avro_schema \<Rightarrow> avro_val \<Rightarrow> ('x server_frame_scheme) \<Rightarrow> bool" where
  "has_cell rid \<sigma> v s \<longleftrightarrow> (\<exists>e. map_of (srv_cache s) rid = Some e \<and> sch e = Valid \<sigma> \<and> get e = Valid v)"

lemma has_cellI:
  assumes "cache_ok (srv_cache s)" and "map_of (srv_cache s) rid = Some e" and "sch e = Valid \<sigma>"
  obtains v where "has_cell rid \<sigma> v s" "has_schema v \<sigma>"
  using assms entry_value [of rid e \<sigma>] by (auto simp: has_cell_def cache_ok_def)

lemma in_cell_ok:
  assumes ok: "cache_ok (srv_cache s)" and v: "has_cell rid \<sigma> v s"
    and m: "case spec of None \<Rightarrow> \<exists>u. m v = Exit ERROR u | Some w \<Rightarrow> m v = Ret 0 w \<and> has_schema w \<sigma>"
  shows "yields spec (\<lambda>w t. same_server s t \<and> has_cell rid \<sigma> w t \<and> has_schema w \<sigma>) (in_cache (cell get upd rid m) s)"
proof (cases spec)
  case None
  with v m show ?thesis by (auto simp: has_cell_def yields_def in_cache_def cell_def)
next
  case (Some w)
  with m have w: "m v = Ret 0 w" "has_schema w \<sigma>" by simp_all
  from v obtain e where e: "map_of (srv_cache s) rid = Some e" "sch e = Valid \<sigma>" "get e = Valid v"
    by (auto simp: has_cell_def)
  let ?t = "s\<lparr>srv_cache := AList.update rid (upd (\<lambda>_. Valid w) e) (srv_cache s)\<rparr>"
  have "cache_entry_ok rid e" using ok e(1) by (simp add: cache_ok_def)
  then have "cache_ok (srv_cache ?t)" using ok e w by (simp add: cache_ok_update entry_upd)
  moreover have "cache_view (srv_cache ?t) = cache_view (srv_cache s)"
    using e by (simp add: cache_view_update schemas_upd) (simp add: cache_view_def fun_eq_iff)
  moreover have "has_cell rid \<sigma> w ?t" using e by (auto simp: has_cell_def update_conv' get_upd sch_upd)
  ultimately show ?thesis
    using e w Some by (simp add: yields_def in_cache_def cell_def same_server_def)
qed

lemma write_cell_ok:
  "has_cell rid \<sigma> v s \<Longrightarrow> proceeds (binary_of A v) (\<lambda>_ t. t = s) k (write_cell A get rid k s)"
  by (auto simp: has_cell_def write_cell_def proceeds_def binary_of_def written_def check_get_def)

end

interpretation rowc: entry_cell sc_row_value sc_row_value_update sc_row_schema
  by unfold_locales (auto simp: cache_entry_ok_def entry_schemas_def)

interpretation keyc: entry_cell sc_key_value sc_key_value_update sc_key_schema
  by unfold_locales (auto simp: cache_entry_ok_def entry_schemas_def split: if_splits)

lemma same_server_ok [simp]: "same_server s t \<Longrightarrow> cache_ok (srv_cache t)"
  by (simp add: same_server_def)

text \<open>The cache tells the table's schemas.\<close>

definition announced :: "('t, 'd) pg_ops \<Rightarrow> relation \<Rightarrow> relation option \<Rightarrow> ('x server_frame_scheme) \<Rightarrow> bool" where
  "announced P rel index s \<longleftrightarrow> cache_ok (srv_cache s) \<and>
     cache_view (srv_cache s) (rd_id rel) = Some (table_schemas P rel index)"

text \<open>
  After the lookup the cache tells the table's schemas. The schema message was sent unless the
  cache told them before.
\<close>

definition announces :: "('t, 'd) pg_ops \<Rightarrow> relation \<Rightarrow> relation option \<Rightarrow> ('x server_frame_scheme) \<Rightarrow> wire_msg list \<Rightarrow>
    ('x server_frame_scheme) \<Rightarrow> bool" where
  "announces P rel index s ms t \<longleftrightarrow> extends s ms t \<and>
     cache_view (srv_cache t) = (cache_view (srv_cache s))(rd_id rel \<mapsto> table_schemas P rel index)"

definition told :: "('t, 'd) pg_ops \<Rightarrow> relation \<Rightarrow> relation option \<Rightarrow> ('x server_frame_scheme) \<Rightarrow> bool" where
  "told P rel index s \<longleftrightarrow> cache_view (srv_cache s) (rd_id rel) = Some (table_schemas P rel index)"

lemma announced_same: "announced P rel index s \<Longrightarrow> same_server s t \<Longrightarrow> announced P rel index t"
  by (simp add: announced_def same_server_def)

lemma announced_entry:
  assumes "announced P rel index s"
  obtains e where "map_of (srv_cache s) (rd_id rel) = Some e" "cache_ok (srv_cache s)"
    "sc_row_schema e = Valid (schema_for_table_row P rel)"
    "sc_key_schema e = (case index of None \<Rightarrow> Null | Some idx \<Rightarrow> Valid (schema_for_table_row P idx))"
proof -
  obtain e where e: "map_of (srv_cache s) (rd_id rel) = Some e" "entry_schemas e = Some (table_schemas P rel index)"
    using assms by (auto simp: announced_def cache_view_def bind_eq_Some_conv)
  moreover have "cache_entry_ok (rd_id rel) e" using assms e(1) by (simp add: announced_def cache_ok_def)
  ultimately show ?thesis using assms that [of e]
    by (cases index) (auto simp: announced_def entry_schemas_def table_schemas_def cache_entry_ok_def split: if_splits)
qed

context avro_codec
begin

lemma reset_cell:
  "has_schema v \<sigma> \<Longrightarrow> check_upd (avro_value_reset A) (Ret 0) v = Ret 0 (default_val \<sigma>) \<and> has_schema (default_val \<sigma>) \<sigma>"
  using reset [of v \<sigma>] by (simp add: has_schema_default)

lemma refill_ok:
  fixes s :: "'x server_frame_scheme"
  assumes c: "entry_cell get upd sch" and e: "cache_ok (srv_cache s)" "map_of (srv_cache s) rid = Some e" "sch e = Valid \<sigma>"
    and fill: "\<And>v. has_schema v \<sigma> \<Longrightarrow> case spec of
      None \<Rightarrow> \<exists>u. fill v = Exit ERROR u | Some w \<Rightarrow> fill v = Ret 0 w \<and> has_schema w \<sigma>"
  shows "proceeds (Option.bind spec (binary_of A)) (\<lambda>_. same_server s) k
    (check (in_cache (cell get upd rid (check_upd (avro_value_reset A) (Ret 0))) s) (\<lambda>s.
     check (in_cache (cell get upd rid fill) s) (write_cell A get rid k)))"
proof -
  note cell = entry_cell.in_cell_ok [OF c]
  obtain v where v: "entry_cell.has_cell get sch rid \<sigma> v s" "has_schema v \<sigma>"
    using entry_cell.has_cellI [OF c e] .
  obtain t where t: "in_cache (cell get upd rid (check_upd (avro_value_reset A) (Ret 0))) s = Ret 0 t" "same_server s t"
      "entry_cell.has_cell get sch rid \<sigma> (default_val \<sigma>) t"
    using cell [OF e(1) v(1), where spec = "Some (default_val \<sigma>)" and m = "check_upd (avro_value_reset A) (Ret 0)"] reset_cell [OF v(2)] by (auto simp: yields_def)
  have "yields spec (\<lambda>w u. same_server s u \<and> entry_cell.has_cell get sch rid \<sigma> w u) (in_cache (cell get upd rid fill) t)"
    using cell [where m = fill, OF _ t(3) fill [OF has_schema_default]] t(2) same_server_trans [OF t(2)]
    by (auto simp: yields_def has_schema_default split: option.splits)
  from yields_check [OF this] show ?thesis
    unfolding t(1) check_Ret if_P [OF refl]
  proof (rule proceeds_bind)
    fix w u
    assume "same_server s u \<and> entry_cell.has_cell get sch rid \<sigma> w u"
    then show "proceeds (binary_of A w) (\<lambda>_. same_server s) k (write_cell A get rid k u)"
      using entry_cell.write_cell_ok [OF c, of rid \<sigma> w u A k] by (auto simp: proceeds_def split: option.splits)
  qed
qed

lemma encode_row_ok:
  fixes s :: "'x server_frame_scheme"
  assumes s: "announced P rel index s" and td: "live td = live (rd_att rel)"
  shows "proceeds (row_bytes A P rel td tuple) (\<lambda>_. same_server s) k (encode_row A P (rd_id rel) td tuple k s)"
proof -
  obtain e where e: "cache_ok (srv_cache s)" "map_of (srv_cache s) (rd_id rel) = Some e"
      "sc_row_schema e = Valid (schema_for_table_row P rel)"
    using announced_entry [OF s] by metis
  show ?thesis
    unfolding row_bytes_def encode_row_def
    by (rule refill_ok [OF rowc.entry_cell_axioms e tuple_to_avro_row_ok [OF _ td]])
qed

lemma extract_tuple_key_ok:
  fixes s :: "'x server_frame_scheme"
  assumes s: "announced P rel index s" and td: "tuple_format rel td" and rel: "relation_ok P rel"
    and idx: "key_index P rel = Some index"
  shows "proceeds (key_bytes A P rel index td tuple) (\<lambda>_. same_server s) k (extract_tuple_key A P (rd_id rel) rel td tuple k s)"
proof -
  obtain e where e: "cache_ok (srv_cache s)" "map_of (srv_cache s) (rd_id rel) = Some e"
      "sc_key_schema e = (case index of None \<Rightarrow> Null | Some idx \<Rightarrow> Valid (schema_for_table_row P idx))"
    using announced_entry [OF s] by metis
  show ?thesis
  proof (cases index)
    case None
    with e show ?thesis by (simp add: key_bytes_def extract_tuple_key_def proceeds_def same_server_def) auto
  next
    case (Some i)
    with rel idx have "key_index_ok rel i" by (simp add: relation_ok_def)
    note fill = tuple_to_avro_key_ok [OF _ td this, of _ P tuple]
    have "sc_key_schema e = Valid (schema_for_table_row P i)" using e Some by simp
    from refill_ok [where fill = "tuple_to_avro_key A P td tuple rel (rd_index i)",
        OF keyc.entry_cell_axioms e(1,2) this fill, where k = "\<lambda>bin. k (Some bin)"]
    show ?thesis
      using e Some idx
      by (auto simp: extract_tuple_key_def table_key_index_eq key_bytes_def intro: proceeds_map)
  qed
qed

lemma encode_old_ok:
  fixes s :: "'x server_frame_scheme"
  assumes s: "announced P rel index s" and rel: "relation_ok P rel" and idx: "key_index P rel = Some index"
  shows "proceeds (old_bytes A P rel index old) (\<lambda>_. same_server s) (\<lambda>(ok, ob). k ok ob) (encode_old A P rel old k s)"
proof (cases old)
  case None
  with s show ?thesis by (auto simp: old_bytes_def encode_old_def proceeds_def same_server_def announced_def)
next
  case (Some tuple)
  have "proceeds (Option.bind (key_bytes A P rel index (rd_att rel) tuple)
          (\<lambda>kb. map_option (\<lambda>b. (kb, Some b)) (row_bytes A P rel (rd_att rel) tuple)))
      (\<lambda>_. same_server s) (\<lambda>(ok, ob). k ok ob)
      (extract_tuple_key A P (rd_id rel) rel (rd_att rel) tuple
         (\<lambda>kb. encode_row A P (rd_id rel) (rd_att rel) tuple (\<lambda>b. k kb (Some b))) s)"
  proof (rule proceeds_bind [OF extract_tuple_key_ok [OF s _ rel idx]])
    show "tuple_format rel (rd_att rel)" by (simp add: tuple_format_def)
    fix kb t assume t: "same_server s t"
    show "proceeds (map_option (\<lambda>b. (kb, Some b)) (row_bytes A P rel (rd_att rel) tuple)) (\<lambda>_. same_server s)
        (\<lambda>(ok, ob). k ok ob) (encode_row A P (rd_id rel) (rd_att rel) tuple (\<lambda>b. k kb (Some b)) t)"
      using encode_row_ok [OF announced_same [OF s t] refl, of tuple "\<lambda>b. k kb (Some b)"] same_server_trans [OF t]
      by (intro proceeds_map [where Q = "\<lambda>_. same_server t"]) auto
  qed
  with Some show ?thesis by (simp add: old_bytes_def encode_old_def)
qed

end

section \<open>The schema message\<close>

context avro_codec
begin

lemma nullable_string:
  assumes "val_at v p = Some (VUnion [SNull, SString] None)"
  shows "avro_value_set_branch A p 1 v = (0, p @ [0], val_upd v p (VUnion [SNull, SString] (Some (1, VString []))))"
    and "avro_value_set_leaf A (p @ [0]) (VString b) (val_upd v p (VUnion [SNull, SString] (Some (1, VString [])))) =
      (0, val_upd v p (enc_opt SString VString (Some b)))"
proof -
  let ?v = "val_upd v p (VUnion [SNull, SString] (Some (1, VString [])))"
  have at: "val_at ?v p = Some (VUnion [SNull, SString] (Some (1, VString [])))"
    using assms by (simp add: val_at_upd_same)
  show "avro_value_set_branch A p 1 v = (0, p @ [0], ?v)"
    using set_branch [OF assms, of 1] by (simp add: select_branch_def)
  have "avro_value_set_leaf A (p @ [0]) (VString b) ?v = (0, val_upd ?v (p @ [0]) (VString b))"
    using at by (intro set_leaf [where l = "VString []"]) (simp_all add: val_at_append same_leaf_def)
  then show "avro_value_set_leaf A (p @ [0]) (VString b) ?v = (0, val_upd v p (enc_opt SString VString (Some b)))"
    using val_upd_append [OF at] by (simp add: val_upd_upd enc_opt_def)
qed

lemma table_schema_frame:
  assumes "sc_relid e = rd_id rel" and "sc_row_schema e = Valid (schema_for_table_row P rel)"
    and "sc_key_schema e = (case index of None \<Rightarrow> Null | Some idx \<Rightarrow> Valid (schema_for_table_row P idx))"
  shows "yields (schema_msg A P rel index) (\<lambda>m v. v = frame_of (ms @ [m]))
    (update_frame_with_table_schema A e (frame_of ms))"
proof -
  obtain re rj where r: "try_writing A (write_schema_json A (schema_for_table_row P rel)) = (re, rj)" by fastforce
  show ?thesis
  proof (cases index)
    case None
    with assms r show ?thesis
      by (simp add: update_frame_with_table_schema_def raw_simps open_frame_enc [symmetric] enc_msg_def numeral_nat
          yields_def schema_msg_def json_of_def written_def check_get_def)
  next
    case (Some i)
    obtain ke kj where k: "try_writing A (write_schema_json A (schema_for_table_row P i)) = (ke, kj)" by fastforce
    show ?thesis
      using assms r k Some
      by (simp add: update_frame_with_table_schema_def raw_simps open_frame_enc [symmetric] enc_msg_def numeral_nat
          yields_def schema_msg_def json_of_def written_def check_get_def nullable_string)
  qed
qed

lemma announce_schema_ok:
  fixes s :: "'x server_frame_scheme"
  assumes rel: "relation_ok P rel" and P: "tupdescs_compared P" and ok: "cache_ok (srv_cache s)"
    and idx: "key_index P rel = Some index" and fr: "srv_frame s = frame_of ms"
  obtains changed where "changed \<or> told P rel index s"
    "yields (schema_msgs A P rel index changed) (announces P rel index s) (announce_schema A P rel s)"
proof -
  obtain c cache' e where l: "schema_cache_lookup A P rel (srv_cache s) = Ret c cache'" "cache_ok cache'"
      "map_of cache' (rd_id rel) = Some e" "entry_schemas e = Some (table_schemas P rel index)"
      "cache_view cache' = (cache_view (srv_cache s))(rd_id rel \<mapsto> table_schemas P rel index)"
      "c = 0 \<Longrightarrow> cache' = srv_cache s"
    using schema_cache_lookup_ok [OF rel P ok idx] by metis
  let ?s = "s\<lparr>srv_cache := cache'\<rparr>"
  have "announced P rel index ?s" using l by (simp add: announced_def)
  then obtain e' where e': "map_of cache' (rd_id rel) = Some e'" "sc_row_schema e' = Valid (schema_for_table_row P rel)"
      "sc_key_schema e' = (case index of None \<Rightarrow> Null | Some idx \<Rightarrow> Valid (schema_for_table_row P idx))"
    using announced_entry [of P rel index ?s] by (metis select_convs(2) surjective update_convs(2))
  have "sc_relid e' = rd_id rel" using l(2) e'(1) by (simp add: cache_ok_def cache_entry_ok_def)
  note msg = table_schema_frame [OF this e'(2,3), of ms]
  show ?thesis
  proof (rule that [of "c \<noteq> 0"])
    show "c \<noteq> 0 \<or> told P rel index s" using l(5,6) by (auto simp: told_def fun_eq_iff split: if_splits)
    show "yields (schema_msgs A P rel index (c \<noteq> 0)) (announces P rel index s) (announce_schema A P rel s)"
    proof (cases "c = 0")
      case True
      with l fr show ?thesis
        by (simp add: schema_msgs_def yields_def announce_schema_def in_cache_def announces_def extends_def)
    next
      case False
      show ?thesis
      proof (cases "schema_msg A P rel index")
        case None
        with msg have "failed (update_frame_with_table_schema A e' (frame_of ms))" by (simp add: yields_def)
        with None False l(1) e'(1) fr show ?thesis
          by (cases "update_frame_with_table_schema A e' (frame_of ms)")
            (simp_all add: schema_msgs_def yields_def announce_schema_def in_cache_def in_frame_def)
      next
        case (Some m)
        with msg have "update_frame_with_table_schema A e' (frame_of ms) = Ret 0 (frame_of (ms @ [m]))"
          by (auto simp: yields_def)
        with Some False l e'(1) fr show ?thesis
          by (auto simp: schema_msgs_def yields_def announce_schema_def in_cache_def in_frame_def announces_def
              extends_def frame_of_def)
      qed
    qed
  qed
qed

text \<open>The messages of a row change, after the schema message if there is one.\<close>

lemma extends_frame:
  assumes "srv_frame s = frame_of ms" and "cache_ok (srv_cache s)"
    and "m (frame_of ms) = Ret 0 (frame_of (ms @ new))"
  shows "in_frame m s = Ret 0 (s\<lparr>srv_frame := frame_of (ms @ new)\<rparr>)" and "extends s new (s\<lparr>srv_frame := frame_of (ms @ new)\<rparr>)"
  using assms by (auto simp: in_frame_def extends_def frame_of_def)

lemma with_schema:
  fixes s :: "'x server_frame_scheme"
  assumes rel: "relation_ok P rel" and P: "tupdescs_compared P" and ok: "cache_ok (srv_cache s)"
    and idx: "key_index P rel = Some index" and fr: "srv_frame s = frame_of ms"
    and rows: "\<And>ms t. announced P rel index t \<Longrightarrow> srv_frame t = frame_of ms \<Longrightarrow>
      yields rows (\<lambda>new u. extends t new u \<and> cache_view (srv_cache u) = cache_view (srv_cache t)) (row t)"
  obtains changed where "changed \<or> told P rel index s"
    "yields (Option.bind (schema_msgs A P rel index changed) (\<lambda>ms. map_option ((@) ms) rows))
      (announces P rel index s) (check (announce_schema A P rel s) row)"
proof -
  obtain changed where c: "changed \<or> told P rel index s"
      "yields (schema_msgs A P rel index changed) (announces P rel index s) (announce_schema A P rel s)"
    using announce_schema_ok [OF rel P ok idx fr] .
  have "yields (map_option ((@) new) rows) (announces P rel index s) (row t)" if "announces P rel index s new t" for new t
  proof -
    have t: "announced P rel index t" "srv_frame t = frame_of (ms @ new)"
      using that fr by (auto simp: announces_def extends_def announced_def)
    have "announces P rel index s (new @ new') u" if "extends t new' u" "cache_view (srv_cache u) = cache_view (srv_cache t)" for new' u
      using \<open>announces P rel index s new t\<close> that extends_trans [of s new t new' u] by (simp add: announces_def)
    with rows [OF t] show ?thesis
      by (cases rows) (auto simp: yields_def)
  qed
  with yields_bind [OF yields_check [OF c(2)]]
  have "yields (Option.bind (schema_msgs A P rel index changed) (\<lambda>ms. map_option ((@) ms) rows))
      (announces P rel index s) (check (announce_schema A P rel s) row)" .
  with c(1) show ?thesis by (rule that)
qed

lemma raw_adds:
  assumes "same_server t u" and "srv_frame t = frame_of ms" and "m (frame_of ms) = Ret 0 (frame_of (ms @ new))"
  shows "yields (Some new) (adds t) (check (in_frame m u) (Ret 0))"
  using assms extends_frame [of u ms m new]
  by (auto simp: yields_def same_server_def extends_def frame_of_def in_frame_def)

lemma insert_rows:
  fixes t :: "'x server_frame_scheme"
  assumes t: "announced P rel index t" "srv_frame t = frame_of ms" and rel: "relation_ok P rel"
    and idx: "key_index P rel = Some index" and td: "tuple_format rel td"
  shows "yields (insert_msgs A P rel index td tuple) (adds t)
    (extract_tuple_key A P (rd_id rel) rel td tuple (\<lambda>key_bin.
      encode_row A P (rd_id rel) td tuple (\<lambda>new_bin s.
      check (in_frame (update_frame_with_insert_raw A (rd_id rel) key_bin new_bin) s) (Ret 0))) t)"
  unfolding insert_msgs_def
proof (rule yields_bind [OF extract_tuple_key_ok [OF t(1) td rel idx]])
  fix k u assume u: "same_server t u"
  show "yields (map_option (\<lambda>n. [Insert (rd_id rel) k n]) (row_bytes A P rel td tuple)) (adds t)
    (encode_row A P (rd_id rel) td tuple (\<lambda>new_bin s.
      check (in_frame (update_frame_with_insert_raw A (rd_id rel) k new_bin) s) (Ret 0)) u)"
    by (rule yields_map [OF encode_row_ok [OF announced_same [OF t(1) u] tuple_format_live [OF td]]])
      (intro raw_adds [where ms = ms] same_server_trans [OF u] t(2) insert_raw_frame)
qed

lemma delete_rows:
  fixes t :: "'x server_frame_scheme"
  assumes t: "announced P rel index t" "srv_frame t = frame_of ms" and rel: "relation_ok P rel"
    and idx: "key_index P rel = Some index"
  shows "yields (delete_msgs A P rel index old) (adds t)
    (encode_old A P rel old (\<lambda>key_bin old_bin s.
      check (in_frame (update_frame_with_delete_raw A (rd_id rel) key_bin old_bin) s) (Ret 0)) t)"
  unfolding delete_msgs_def
proof (rule yields_map [OF encode_old_ok [OF t(1) rel idx]])
  fix b :: "bytes option \<times> bytes option" and u assume u: "same_server t u"
  obtain k ob where "b = (k, ob)" by fastforce
  then show "yields (Some (case b of (k, ob) \<Rightarrow> [Delete (rd_id rel) k ob])) (adds t)
    ((case b of (ok, ob) \<Rightarrow> \<lambda>s. check (in_frame (update_frame_with_delete_raw A (rd_id rel) ok ob) s) (Ret 0)) u)"
    by (simp, intro raw_adds [where ms = ms] u t(2) delete_raw_frame)
qed

lemma emit_update_adds:
  assumes w: "same_server t w" and t: "srv_frame t = frame_of ms" and k: "ok \<noteq> None \<Longrightarrow> k \<noteq> None"
  shows "yields (Some (update_msg r ok ob k n)) (adds t) (emit_update A r ok ob k n w)"
proof (cases "ok \<noteq> None \<and> ok \<noteq> k")
  case True
  with k have "key_changed ok k = Some True" by (auto simp: key_changed_def)
  moreover have "srv_frame w = frame_of ms" using w t by (simp add: same_server_def)
  ultimately show ?thesis
    using True w t
    by (simp add: emit_update_def update_msg_def yields_def in_frame_def delete_raw_frame insert_raw_frame
        same_server_def extends_def) (auto intro: frame_of_cong)
next
  case False
  with k have "key_changed ok k = Some False" by (auto simp: key_changed_def split: option.split)
  then have "emit_update A r ok ob k n w = check (in_frame (update_frame_with_update_raw A r k ob n) w) (Ret 0)"
    by (simp add: emit_update_def)
  moreover have "update_msg r ok ob k n = [Update r k ob n]" using False by (auto simp: update_msg_def)
  ultimately show ?thesis
    using raw_adds [where m = "update_frame_with_update_raw A r k ob n", OF w t update_raw_frame] by simp
qed

lemma update_rows:
  fixes t :: "'x server_frame_scheme"
  assumes t: "announced P rel index t" "srv_frame t = frame_of ms" and rel: "relation_ok P rel"
    and idx: "key_index P rel = Some index"
  shows "yields (update_msgs A P rel index old new) (adds t)
    (encode_old A P rel old (\<lambda>ok ob.
      extract_tuple_key A P (rd_id rel) rel (rd_att rel) new (\<lambda>k.
      encode_row A P (rd_id rel) (rd_att rel) new (\<lambda>n. emit_update A (rd_id rel) ok ob k n))) t)"
  (is "yields _ _ (encode_old A P rel old ?k t)")
proof -
  have fmt: "tuple_format rel (rd_att rel)" by (simp add: tuple_format_def)
  have new: "yields (Option.bind (key_bytes A P rel index (rd_att rel) new) (\<lambda>k.
      map_option (update_msg (rd_id rel) ok ob k) (row_bytes A P rel (rd_att rel) new))) (adds t) (?k ok ob u)"
    if u: "same_server t u" and old: "old_bytes A P rel index old = Some (ok, ob)" for ok ob u
  proof (rule yields_bind [OF extract_tuple_key_ok [OF announced_same [OF t(1) u] fmt rel idx]])
    fix k v assume v: "same_server u v" and k: "key_bytes A P rel index (rd_att rel) new = Some k"
    have "k \<noteq> None" if "ok \<noteq> None" using old_keyed [OF old that] by (simp only: keyed [OF k] not_False_eq_True)
    note emit = emit_update_adds [OF same_server_trans [OF same_server_trans [OF u v]] t(2) this]
    show "yields (map_option (update_msg (rd_id rel) ok ob k) (row_bytes A P rel (rd_att rel) new)) (adds t)
        (encode_row A P (rd_id rel) (rd_att rel) new (\<lambda>n. emit_update A (rd_id rel) ok ob k n) v)"
      by (rule yields_map [OF encode_row_ok [OF announced_same [OF t(1) same_server_trans [OF u v]] refl]])
        (rule emit)
  qed
  show ?thesis
    unfolding update_msgs_def
  proof (rule yields_bind [OF encode_old_ok [OF t(1) rel idx, where k = ?k]])
    fix b u assume b: "same_server t u" "old_bytes A P rel index old = Some b"
    obtain ok ob where p: "b = (ok, ob)" by (cases b)
    show "yields (case b of (ok, ob) \<Rightarrow> Option.bind (key_bytes A P rel index (rd_att rel) new) (\<lambda>k.
       map_option (update_msg (rd_id rel) ok ob k) (row_bytes A P rel (rd_att rel) new))) (adds t)
       ((case b of (ok, ob) \<Rightarrow> ?k ok ob) u)"
      using new [OF b(1) b(2) [unfolded p]] by (simp only: p prod.case)
  qed
qed

lemma insert_sends:
  fixes s :: "'x server_frame_scheme"
  assumes "relation_ok P rel" and "tupdescs_compared P" and "cache_ok (srv_cache s)"
    and "key_index P rel = Some index" and "srv_frame s = frame_of ms" and "tuple_format rel td"
  obtains changed where "changed \<or> told P rel index s"
    "yields (due_msgs A P rel index changed (insert_msgs A P rel index td tuple)) (announces P rel index s)
      (update_frame_with_insert A P rel td tuple s)"
  unfolding update_frame_with_insert_def due_msgs_def Let_def
  using with_schema [OF assms(1-5) insert_rows [OF _ _ assms(1,4,6), of _ _ tuple]] .

lemma update_sends:
  fixes s :: "'x server_frame_scheme"
  assumes "relation_ok P rel" and "tupdescs_compared P" and "cache_ok (srv_cache s)"
    and "key_index P rel = Some index" and "srv_frame s = frame_of ms"
  obtains changed where "changed \<or> told P rel index s"
    "yields (due_msgs A P rel index changed (update_msgs A P rel index old new)) (announces P rel index s)
      (update_frame_with_update A P rel old new s)"
  unfolding update_frame_with_update_def due_msgs_def Let_def
  using with_schema [OF assms(1-5) update_rows [OF _ _ assms(1,4), of _ _ old new]] .

lemma delete_sends:
  fixes s :: "'x server_frame_scheme"
  assumes "relation_ok P rel" and "tupdescs_compared P" and "cache_ok (srv_cache s)"
    and "key_index P rel = Some index" and "srv_frame s = frame_of ms"
  obtains changed where "changed \<or> told P rel index s"
    "yields (due_msgs A P rel index changed (delete_msgs A P rel index old)) (announces P rel index s)
      (update_frame_with_delete A P rel old s)"
  unfolding update_frame_with_delete_def due_msgs_def
  using with_schema [OF assms(1-5) delete_rows [OF _ _ assms(1,4), of _ _ old]] .

text \<open>If the key index cannot be opened, all three raise an error.\<close>

lemma no_index_sends:
  fixes s :: "'x server_frame_scheme"
  assumes "relation_ok P rel" and "cache_ok (srv_cache s)" and "key_index P rel = None"
  shows "meets (\<lambda>_ _. False) (update_frame_with_insert A P rel td tuple s)"
    and "meets (\<lambda>_ _. False) (update_frame_with_update A P rel old tuple s)"
    and "meets (\<lambda>_ _. False) (update_frame_with_delete A P rel old s)"
proof -
  have "meets (\<lambda>_ _. False) (announce_schema A P rel s)"
    using schema_cache_lookup_error [OF assms]
    by (cases "schema_cache_lookup A P rel (srv_cache s)") (simp_all add: announce_schema_def in_cache_def)
  then show "meets (\<lambda>_ _. False) (update_frame_with_insert A P rel td tuple s)"
    and "meets (\<lambda>_ _. False) (update_frame_with_update A P rel old tuple s)"
    and "meets (\<lambda>_ _. False) (update_frame_with_delete A P rel old s)"
    by (cases "announce_schema A P rel s"; simp add: update_frame_with_insert_def update_frame_with_update_def
        update_frame_with_delete_def)+
qed

end

end
