(* ===== verification/Reader_Safety.thy ===== *)
theory Reader_Safety
  imports Frame_Delivery
begin

text \<open>
  Memory safety of the frame reader (\<open>client/protocol_client.c\<close>). \<open>reader_ok\<close> is the invariant of
  its schema list: every entry owns its schemas and values, and the values have the schemas.
  Messages that keep to the protocol (\<open>msg_ok\<close>: a key schema that parses when the row schema does,
  a key only for a table that has a key schema) never lead to undefined behaviour and keep the
  invariant; what the list knows about the tables afterwards is \<open>msg_view\<close>.
\<close>

section \<open>The invariant\<close>

definition entry_ok :: "schema_list_entry \<Rightarrow> bool" where
  "entry_ok e \<longleftrightarrow> (\<exists>rs rv ov.
     row_schema e = Valid rs \<and> row_iface e = Valid rs \<and> avro_reader e = Valid () \<and>
     row_value e = Valid rv \<and> has_schema rv rs \<and> old_value e = Valid ov \<and> has_schema ov rs) \<and>
   (key_schema e = Null \<or> (\<exists>ks kv. key_schema e = Valid ks \<and> key_iface e = Valid ks \<and>
     key_value e = Valid kv \<and> has_schema kv ks))"

definition reader_ok :: "('y frame_reader_scheme) \<Rightarrow> bool" where
  "reader_ok s \<longleftrightarrow> table_invar (num_schemas s) (capacity s) (map relid (schemas s)) \<and>
     (\<forall>e \<in> set (schemas s). entry_ok e) \<and> reader_refs s = Valid () \<and>
     has_schema (frame_value s) frame_schema"

text \<open>What the schema list tells of the tables.\<close>

definition entry_view :: "schema_list_entry \<Rightarrow> (avro_schema \<times> avro_schema option) option" where
  "entry_view e = map_option (\<lambda>rs. (rs, ptr_option (key_schema e))) (ptr_option (row_schema e))"

definition client_view :: "('y frame_reader_scheme) \<Rightarrow> schema_view" where
  "client_view s r = Option.bind (schema_list_lookup s (ucast r)) (\<lambda>i. entry_view (schemas s ! i))"

definition json_schema :: "('z avro_io_scheme) \<Rightarrow> bytes \<Rightarrow> avro_schema option" where
  "json_schema A j = (case avro_schema_from_json_length A j (length j) of
     (e, s) \<Rightarrow> if e = 0 then Some s else None)"

text \<open>What a message makes of the view, and which messages the reader may be given.\<close>

fun msg_view :: "('z avro_io_scheme) \<Rightarrow> schema_view \<Rightarrow> wire_msg \<Rightarrow> schema_view" where
  "msg_view A V (TableSchema r kj rj) = (case json_schema A rj of
     None \<Rightarrow> V | Some rs \<Rightarrow> V(r \<mapsto> (rs, Option.bind kj (json_schema A))))"
| "msg_view A V m = V"

fun msg_ok :: "('z avro_io_scheme) \<Rightarrow> schema_view \<Rightarrow> wire_msg \<Rightarrow> bool" where
  "msg_ok A V (TableSchema r kj rj) \<longleftrightarrow>
     (\<forall>j. kj = Some j \<longrightarrow> json_schema A rj \<noteq> None \<longrightarrow> json_schema A j \<noteq> None)"
| "msg_ok A V (Insert r k n) \<longleftrightarrow> (k \<noteq> None \<longrightarrow> (\<forall>rs. V r \<noteq> Some (rs, None)))"
| "msg_ok A V (Update r k l n) \<longleftrightarrow> (k \<noteq> None \<longrightarrow> (\<forall>rs. V r \<noteq> Some (rs, None)))"
| "msg_ok A V (Delete r k l) \<longleftrightarrow> (k \<noteq> None \<longrightarrow> (\<forall>rs. V r \<noteq> Some (rs, None)))"
| "msg_ok A V m \<longleftrightarrow> True"

fun msgs_ok :: "('z avro_io_scheme) \<Rightarrow> schema_view \<Rightarrow> wire_msg list \<Rightarrow> bool" where
  "msgs_ok A V [] \<longleftrightarrow> True"
| "msgs_ok A V (m # ms) \<longleftrightarrow> msg_ok A V m \<and> msgs_ok A (msg_view A V m) ms"

definition callback_ok :: "('y frame_reader_scheme, int) prog \<Rightarrow> bool" where
  "callback_ok f \<longleftrightarrow> (\<forall>s. meets (\<lambda>_ t. reader_part t = reader_part s) (f s))"

definition callbacks_ok :: "('y frame_reader_scheme) callbacks \<Rightarrow> bool" where
  "callbacks_ok cb \<longleftrightarrow>
     (\<forall>f w x. cb_begin_txn cb = Some f \<longrightarrow> callback_ok (f w x)) \<and>
     (\<forall>f w x. cb_commit_txn cb = Some f \<longrightarrow> callback_ok (f w x)) \<and>
     (\<forall>f w r a b c d e g. cb_table_schema cb = Some f \<longrightarrow> callback_ok (f w r a b c d e g)) \<and>
     (\<forall>f w r a b c d. cb_insert_row cb = Some f \<longrightarrow> callback_ok (f w r a b c d)) \<and>
     (\<forall>f w r a b c d e g. cb_update_row cb = Some f \<longrightarrow> callback_ok (f w r a b c d e g)) \<and>
     (\<forall>f w r a b c d. cb_delete_row cb = Some f \<longrightarrow> callback_ok (f w r a b c d))"

section \<open>Lookups\<close>

lemma reader_lookup:
  assumes "reader_ok s"
  shows "schema_list_lookup s (ucast r) = Some i \<longleftrightarrow> i < length (schemas s) \<and> relid (schemas s ! i) = r"
  using sl.lookup_iff [of s r i] assms by (simp add: sl.invar_def reader_ok_def)

lemma reader_entry:
  assumes "reader_ok s" and "schema_list_lookup s (ucast (r :: Oid)) = Some i"
  shows "i < length (schemas s)" and "entry_ok (schemas s ! i)"
proof -
  from assms show i: "i < length (schemas s)" by (simp add: reader_lookup)
  with assms(1) show "entry_ok (schemas s ! i)" by (simp add: reader_ok_def)
qed

lemma reader_ok_part: "reader_part t = reader_part s \<Longrightarrow> reader_ok t = reader_ok s"
  by (simp add: reader_ok_def reader_part_def)

lemma client_view_part: "reader_part t = reader_part s \<Longrightarrow> client_view t = client_view s"
  by (simp add: client_view_def reader_part_def schema_list_lookup_def fun_eq_iff)

text \<open>Replacing one entry by another of the same relid.\<close>

lemma replace_entry:
  assumes "reader_ok s" and "i < length (schemas s)" and "entry_ok e" and "relid e = relid (schemas s ! i)"
  defines "t \<equiv> s\<lparr>schemas := (schemas s)[i := e]\<rparr>"
  shows "reader_ok t"
    and "client_view t = (client_view s)(relid e := entry_view e)"
proof -
  have "map relid ((schemas s)[i := e]) = map relid (schemas s)"
    using assms(2,4) by (simp add: map_update list_update_same_conv)
  with assms(1,3) show ok: "reader_ok t"
    by (auto simp: reader_ok_def t_def dest!: subsetD [OF set_update_subset_insert])
  have lk: "schema_list_lookup t (ucast r) = schema_list_lookup s (ucast r)" for r :: Oid
  proof -
    have "schema_list_lookup t (ucast r) = Some j \<longleftrightarrow> schema_list_lookup s (ucast r) = Some j" for j
      unfolding reader_lookup [OF ok] reader_lookup [OF assms(1)] using assms(2,4)
      by (auto simp: t_def nth_list_update)
    then show ?thesis by (intro option_eq_if) auto
  qed
  have i: "schema_list_lookup s (ucast (relid e)) = Some i"
    using reader_lookup [OF assms(1)] assms(2,4) by simp
  have "client_view t (relid e) = entry_view e"
    unfolding client_view_def lk i using assms(2) by (simp add: t_def)
  moreover have "client_view t r = client_view s r" if "r \<noteq> relid e" for r :: Oid
  proof -
    have "j \<noteq> i" if "schema_list_lookup s (ucast r) = Some j" for j
      using that \<open>r \<noteq> relid e\<close> reader_lookup [OF assms(1)] assms(4) by auto
    then show ?thesis
      unfolding client_view_def lk by (cases "schema_list_lookup s (ucast r)") (auto simp: t_def)
  qed
  ultimately show "client_view t = (client_view s)(relid e := entry_view e)" by auto
qed

text \<open>Adding an entry for a table that has none.\<close>

lemma add_entry:
  assumes "reader_ok s" and "schema_list_lookup s (ucast (relid e)) = None" and "entry_ok e"
    and "schema_list_entry_new s = (i, s')"
  shows "reader_ok (s'\<lparr>schemas := (schemas s')[i := e]\<rparr>)" (is "reader_ok ?t")
    and "client_view (s'\<lparr>schemas := (schemas s')[i := e]\<rparr>) = (client_view s)(relid e := entry_view e)"
proof -
  have inv: "num_schemas s = length (schemas s)" "num_schemas s \<le> capacity s" "0 < capacity s"
    "distinct (map relid (schemas s))"
    using assms(1) by (simp_all add: reader_ok_def table_invar_def)
  have new: "i = length (schemas s)" "schemas ?t = schemas s @ [e]" "num_schemas ?t = Suc (num_schemas s)"
    "num_schemas ?t \<le> capacity ?t" "0 < capacity ?t" "frame_value ?t = frame_value s" "reader_refs ?t = reader_refs s"
    using assms(4) inv by (auto simp: schema_list_entry_new_def Let_def list_update_append split: if_splits)
  have "relid e \<notin> relid ` set (schemas s)"
    using sl.lookup_None [OF inv(1) assms(2)] .
  with assms(1,3) inv new show ok: "reader_ok ?t"
    by (auto simp: reader_ok_def table_invar_def)
  have fresh: "relid (schemas s ! j) \<noteq> relid e" if "j < length (schemas s)" for j
    using \<open>relid e \<notin> relid ` set (schemas s)\<close> nth_mem [OF that] by (auto simp: image_iff)
  have lk: "schema_list_lookup ?t (ucast r) =
      (if r = relid e then Some i else schema_list_lookup s (ucast r))" for r :: Oid
  proof -
    have "schema_list_lookup ?t (ucast r) = Some j \<longleftrightarrow>
        (if r = relid e then j = i else schema_list_lookup s (ucast r) = Some j)" for j
      unfolding reader_lookup [OF ok] reader_lookup [OF assms(1)] new(2)
      using new(1) fresh by (auto simp: nth_append less_Suc_eq)
    then show ?thesis by (intro option_eq_if) auto
  qed
  show "client_view ?t = (client_view s)(relid e := entry_view e)"
  proof
    fix r :: Oid
    have "j < length (schemas s)" if "schema_list_lookup s (ucast r) = Some j" for j
      using that reader_entry(1) [OF assms(1)] by blast
    then show "client_view ?t r = ((client_view s)(relid e := entry_view e)) r"
      unfolding client_view_def lk new(2)
      by (cases "schema_list_lookup s (ucast r)") (auto simp: new(1) nth_append)
  qed
qed

section \<open>Reading values\<close>

fun field_schema :: "entry_field \<Rightarrow> schema_list_entry \<Rightarrow> avro_schema ptr" where
  "field_schema KeyValue e = key_schema e"
| "field_schema RowValue e = row_schema e"
| "field_schema OldValue e = row_schema e"

text \<open>Changes of the values of an entry, which keep its schemas.\<close>

lemma set_field_ok:
  assumes "entry_ok e" and "field_schema f e = Valid sc" and "has_schema v sc"
  shows "entry_ok (set_field f v e)"
  using assms by (cases f) (auto simp: entry_ok_def)

lemma set_field_keeps [simp]:
  "relid (set_field f v e) = relid e \<and> entry_view (set_field f v e) = entry_view e \<and>
   row_schema (set_field f v e) = row_schema e \<and> key_schema (set_field f v e) = key_schema e"
  by (cases f) (simp_all add: entry_view_def)

lemma entry_field:
  assumes "entry_ok e" and "field_schema f e = Valid sc"
  obtains v where "get_field f e = Valid v" "has_schema v sc" "avro_reader e = Valid ()"
  using assms by (cases f) (auto simp: entry_ok_def)

definition decoded :: "nat \<Rightarrow> ('y frame_reader_scheme) \<Rightarrow> ('y frame_reader_scheme) \<Rightarrow> bool" where
  "decoded i s t \<longleftrightarrow> t = s\<lparr>schemas := schemas t\<rparr> \<and> reader_ok t \<and> client_view t = client_view s \<and>
     length (schemas t) = length (schemas s) \<and>
     row_schema (schemas t ! i) = row_schema (schemas s ! i) \<and>
     key_schema (schemas t ! i) = key_schema (schemas s ! i)"

lemma decoded_refl: "reader_ok s \<Longrightarrow> decoded i s s"
  by (simp add: decoded_def)

lemma decoded_trans:
  assumes "decoded i s t" and "decoded i t u"
  shows "decoded i s u"
proof -
  have "u = t\<lparr>schemas := schemas u\<rparr>" "t = s\<lparr>schemas := schemas t\<rparr>" using assms by (simp_all add: decoded_def)
  then have "u = s\<lparr>schemas := schemas u\<rparr>" by (metis frame_reader.update_convs(3) frame_reader.surjective)
  with assms show ?thesis by (simp add: decoded_def)
qed

context avro_codec
begin

lemma read_entry_ok:
  assumes "reader_ok s" and i: "i < length (schemas s)" and f: "field_schema f (schemas s ! i) = Valid sc"
  shows "meets (\<lambda>_. decoded i s) (read_entry A f i bin s)"
proof -
  let ?e = "schemas s ! i"
  have e: "entry_ok ?e" using assms(1) i by (simp add: reader_ok_def)
  obtain v where v: "get_field f ?e = Valid v" "has_schema v sc" "avro_reader ?e = Valid ()"
    using entry_field [OF e f] .
  obtain err v' where r: "read_entirely A v bin = (err, v')" by fastforce
  have "has_schema v' sc"
    using r read_schema [OF v(2), of bin] by (auto simp: read_entirely_def split: prod.splits if_splits)
  then have e': "entry_ok (set_field f v' ?e)" using set_field_ok [OF e f] by simp
  have "relid (set_field f v' ?e) = relid ?e" by simp
  from replace_entry [OF assms(1) i e' this]
  have "reader_ok (s\<lparr>schemas := (schemas s)[i := set_field f v' ?e]\<rparr>)"
    and view: "client_view (s\<lparr>schemas := (schemas s)[i := set_field f v' ?e]\<rparr>) =
      (client_view s)(relid ?e := entry_view ?e)"
    by simp_all
  moreover have "client_view s (relid ?e) = entry_view ?e"
    using reader_lookup [OF assms(1), of "relid ?e" i] i by (simp add: client_view_def)
  then have "(client_view s)(relid ?e := entry_view ?e) = client_view s" by (rule fun_upd_idem)
  ultimately have "decoded i s (s\<lparr>schemas := (schemas s)[i := set_field f v' ?e]\<rparr>)"
    unfolding decoded_def using i by simp
  then show ?thesis using r v by (simp add: read_entry_def Let_def)
qed

lemma decode_opt_ok:
  assumes "reader_ok s" and i: "i < length (schemas s)"
    and f: "b \<noteq> None \<Longrightarrow> field_schema f (schemas s ! i) = Valid sc"
    and k: "\<And>t. decoded i s t \<Longrightarrow> meets Q (k b t)"
    and err: "\<And>e t. decoded i s t \<Longrightarrow> e \<noteq> 0 \<Longrightarrow> Q e t"
  shows "meets Q (decode_opt A f i b k s)"
proof (cases b)
  case None
  with k [OF decoded_refl [OF assms(1)]] show ?thesis by (simp add: decode_opt_def)
next
  case (Some bin)
  with f have "meets (\<lambda>_. decoded i s) (read_entry A f i bin s)"
    using read_entry_ok [OF assms(1) i] by simp
  then have "meets (\<lambda>e t. if e \<noteq> 0 then Q e t else meets Q (k (Some bin) t)) (read_entry A f i bin s)"
    by (rule meets_mono) (use k err Some in simp)
  with Some show ?thesis by (simp add: decode_opt_def meets_check)
qed

end

section \<open>Callbacks\<close>

lemma call_back_ok:
  fixes s :: "'y frame_reader_scheme"
  assumes "\<And>f. c = Some f \<Longrightarrow> callback_ok (app f)" and "reader_ok s"
    and "\<And>e t. reader_ok t \<Longrightarrow> client_view t = client_view s \<Longrightarrow> Q e t"
  shows "meets Q (call_back c app s)"
proof (cases c)
  case None
  with assms(2,3) show ?thesis by (simp add: call_back_def)
next
  case (Some f)
  with assms(1) have "meets (\<lambda>_ t. reader_part t = reader_part s) (app f s)"
    by (simp add: callback_ok_def)
  then have "meets Q (app f s)"
  proof (rule meets_mono)
    fix e and t :: "'y frame_reader_scheme"
    assume "reader_part t = reader_part s"
    from reader_ok_part [OF this] client_view_part [OF this] assms(2,3) show "Q e t" by simp
  qed
  with Some show ?thesis by (cases "app f s") (auto simp: call_back_def)
qed

lemma callbacks_okD:
  assumes "callbacks_ok cb"
  shows "cb_begin_txn cb = Some f1 \<Longrightarrow> callback_ok (f1 w x)"
    and "cb_commit_txn cb = Some f2 \<Longrightarrow> callback_ok (f2 w x)"
    and "cb_table_schema cb = Some f3 \<Longrightarrow> callback_ok (f3 w r a b c d e g)"
    and "cb_insert_row cb = Some f4 \<Longrightarrow> callback_ok (f4 w r a' b' c' d')"
    and "cb_update_row cb = Some f5 \<Longrightarrow> callback_ok (f5 w r a' b' c1 d1 e1 g1)"
    and "cb_delete_row cb = Some f6 \<Longrightarrow> callback_ok (f6 w r a' b' c1 d1)"
  using assms by (simp_all add: callbacks_ok_def)

section \<open>Installing a schema\<close>

text \<open>Releasing an entry in good order succeeds and leaves the relid.\<close>

lemma entry_decrefs_ok:
  assumes "entry_ok e"
  obtains e' where "schema_list_entry_decrefs e = Some e'" "relid e' = relid e"
  using assms by (auto simp: entry_ok_def schema_list_entry_decrefs_def Let_def)

lemma schema_list_replace_ok:
  assumes ok: "reader_ok s"
  obtains i t where "schema_list_replace (ucast r) s = Ret i t" "i < length (schemas t)"
    "t = s\<lparr>num_schemas := num_schemas t, capacity := capacity t, schemas := schemas t\<rparr>"
    "\<And>e. entry_ok e \<Longrightarrow> relid e = r \<Longrightarrow> reader_ok (t\<lparr>schemas := (schemas t)[i := e]\<rparr>) \<and>
       client_view (t\<lparr>schemas := (schemas t)[i := e]\<rparr>) = (client_view s)(r := entry_view e)"
proof (cases "schema_list_lookup s (ucast r)")
  case (Some i)
  with reader_entry [OF ok] have i: "i < length (schemas s)" and e: "entry_ok (schemas s ! i)" by auto
  have r: "relid (schemas s ! i) = r" using Some reader_lookup [OF ok] by simp
  obtain e' where e': "schema_list_entry_decrefs (schemas s ! i) = Some e'"
    using entry_decrefs_ok [OF e] by blast
  have "reader_ok (s\<lparr>schemas := (schemas s)[i := d]\<rparr>) \<and>
      client_view (s\<lparr>schemas := (schemas s)[i := d]\<rparr>) = (client_view s)(r := entry_view d)"
    if "entry_ok d" "relid d = r" for d
    using replace_entry [OF ok i that(1)] r that(2) by simp
  with that [of i "s\<lparr>schemas := (schemas s)[i := e']\<rparr>"] Some e' i show ?thesis
    by (simp add: schema_list_replace_def)
next
  case None
  obtain i t where new: "schema_list_entry_new s = (i, t)" by fastforce
  have "i < length (schemas t)"
    using new ok by (auto simp: schema_list_entry_new_def Let_def reader_ok_def table_invar_def split: if_splits)
  moreover have "reader_ok (t\<lparr>schemas := (schemas t)[i := e]\<rparr>) \<and>
      client_view (t\<lparr>schemas := (schemas t)[i := e]\<rparr>) = (client_view s)(r := entry_view e)"
    if "entry_ok e" "relid e = r" for e
    using add_entry [OF ok _ that(1) new] None that(2) by simp
  moreover have "t = s\<lparr>num_schemas := num_schemas t, capacity := capacity t, schemas := schemas t\<rparr>"
    using new by (auto simp: schema_list_entry_new_def Let_def split: if_splits)
  ultimately show ?thesis
    using that [of i t] None new by (simp add: schema_list_replace_def)
qed

lemma upd_entry_twice:
  "i < length (schemas s) \<Longrightarrow> upd_entry i f (upd_entry i g s) = s\<lparr>schemas := (schemas s)[i := f (g (schemas s ! i))]\<rparr>"
  by (simp add: upd_entry_def)

context avro_codec
begin

lemma entry_filled:
  shows "entry_ok (entry_set_key A ks (entry_set_row A (ucast r) rs e))"
    and "entry_ok (entry_set_row A (ucast r) rs e\<lparr>key_schema := Null\<rparr>)"
    and "entry_view (entry_set_key A ks (entry_set_row A (ucast r) rs e)) = Some (rs, Some ks)"
    and "entry_view (entry_set_row A (ucast r) rs e\<lparr>key_schema := Null\<rparr>) = Some (rs, None)"
    and "relid (entry_set_key A ks (entry_set_row A (ucast r) rs e)) = r"
    and "relid (entry_set_row A (ucast r) rs e\<lparr>key_schema := Null\<rparr>) = r"
  by (simp_all add: entry_ok_def entry_view_def entry_set_row_def entry_set_key_def value_new
      has_schema_default ptr_option_def)

lemma install_schema_meets:
  fixes s :: "'y frame_reader_scheme"
  assumes ok: "reader_ok s" and m: "msg_ok A (client_view s) (TableSchema r kj rj)"
    and fail: "\<And>e. json_schema A rj = None \<Longrightarrow> e \<noteq> 0 \<Longrightarrow> Q e s"
    and cbk: "\<And>rs kl ks t. json_schema A rj = Some rs \<Longrightarrow> reader_ok t \<Longrightarrow>
      client_view t = msg_view A (client_view s) (TableSchema r kj rj) \<Longrightarrow>
      t = s\<lparr>num_schemas := num_schemas t, capacity := capacity t, schemas := schemas t\<rparr> \<Longrightarrow>
      meets Q (call_back (cb_table_schema cb) (\<lambda>f. f w r kj kl ks rj (length rj) rs) t)"
  shows "meets Q (install_schema A cb w r kj rj s)"
proof (cases "json_schema A rj")
  case None
  then have "fst (avro_schema_from_json_length A rj (length rj)) \<noteq> 0"
    by (auto simp: json_schema_def split: prod.splits if_splits)
  with fail [OF None] show ?thesis
    by (simp add: install_schema_def check_get_def)
next
  case (Some rs)
  then have rj: "avro_schema_from_json_length A rj (length rj) = (0, rs)"
    by (auto simp: json_schema_def split: prod.splits if_splits)
  obtain i t where t: "schema_list_replace (ucast r) s = Ret i t" "i < length (schemas t)"
    "t = s\<lparr>num_schemas := num_schemas t, capacity := capacity t, schemas := schemas t\<rparr>"
    "\<And>e. entry_ok e \<Longrightarrow> relid e = r \<Longrightarrow> reader_ok (t\<lparr>schemas := (schemas t)[i := e]\<rparr>) \<and>
       client_view (t\<lparr>schemas := (schemas t)[i := e]\<rparr>) = (client_view s)(r := entry_view e)"
    using schema_list_replace_ok [OF ok, of r] by blast
  have u: "t\<lparr>schemas := es\<rparr> = s\<lparr>num_schemas := num_schemas (t\<lparr>schemas := es\<rparr>),
      capacity := capacity (t\<lparr>schemas := es\<rparr>), schemas := schemas (t\<lparr>schemas := es\<rparr>)\<rparr>" for es
    by (subst t(3)) simp
  show ?thesis
  proof (cases kj)
    case None
    let ?e = "(entry_set_row A (ucast r) rs (schemas t ! i))\<lparr>key_schema := Null\<rparr>"
    have "meets Q (call_back (cb_table_schema cb) (\<lambda>f. f w r kj 0 None rj (length rj) rs)
        (t\<lparr>schemas := (schemas t)[i := ?e]\<rparr>))"
      using t(4) [OF entry_filled(2,6)] None Some by (intro cbk u) (simp_all add: entry_filled)
    with None t(1,2) show ?thesis by (simp add: install_schema_def rj Let_def upd_entry_twice)
  next
    case j: (Some j)
    with m Some obtain ks where ks: "json_schema A j = Some ks" by auto
    then have kj: "avro_schema_from_json_length A j (length j) = (0, ks)"
      by (auto simp: json_schema_def split: prod.splits if_splits)
    let ?e = "entry_set_key A ks (entry_set_row A (ucast r) rs (schemas t ! i))"
    have "meets Q (call_back (cb_table_schema cb)
        (\<lambda>f. f w r kj (length j) (Some ks) rj (length rj) rs)
        (t\<lparr>schemas := (schemas t)[i := ?e]\<rparr>))"
      using t(4) [OF entry_filled(1,5)] j ks Some by (intro cbk u) (simp_all add: entry_filled)
    with j t(1,2) show ?thesis by (simp add: install_schema_def rj kj Let_def upd_entry_twice)
  qed
qed

lemma schema_installed_ok:
  assumes cb: "callbacks_ok cb" and ok: "reader_ok s" and m: "msg_ok A (client_view s) (TableSchema r kj rj)"
    and Q: "\<And>e t. reader_ok t \<Longrightarrow> client_view t = msg_view A (client_view s) (TableSchema r kj rj) \<Longrightarrow> Q e t"
  shows "meets Q (install_schema A cb w r kj rj s)"
  by (rule install_schema_meets [OF ok m])
    (use Q [OF ok] in \<open>auto intro!: call_back_ok callbacks_okD(3) [OF cb] Q\<close>)

section \<open>Delivering messages\<close>

lemma view_row_ok:
  assumes ok: "reader_ok s" and key: "k \<noteq> None \<longrightarrow> (\<forall>rs. client_view s r \<noteq> Some (rs, None))"
    and i: "schema_list_lookup s (ucast (r :: Oid)) = Some i"
  obtains rs ks where "i < length (schemas s)" "row_schema (schemas s ! i) = Valid rs"
    "k \<noteq> None \<longrightarrow> key_schema (schemas s ! i) = Valid ks"
proof -
  have e: "i < length (schemas s)" "entry_ok (schemas s ! i)" using reader_entry [OF ok i] by auto
  then obtain rs where rs: "row_schema (schemas s ! i) = Valid rs" by (auto simp: entry_ok_def)
  have "client_view s r = Some (rs, ptr_option (key_schema (schemas s ! i)))"
    using i rs by (simp add: client_view_def entry_view_def ptr_option_def)
  with key e(2) have "\<exists>ks. k \<noteq> None \<longrightarrow> key_schema (schemas s ! i) = Valid ks"
    by (auto simp: entry_ok_def ptr_option_def)
  with that e rs show ?thesis by blast
qed

definition kept :: "('y frame_reader_scheme) \<Rightarrow> int \<Rightarrow> ('y frame_reader_scheme) \<Rightarrow> bool" where
  "kept s e t \<longleftrightarrow> reader_ok t \<and> client_view t = client_view s"

lemma decoded_kept: "decoded i s t \<Longrightarrow> kept s e t"
  by (simp add: decoded_def kept_def)

lemma row_then_ok:
  assumes "decoded i s t" and "i < length (schemas s)" and "row_schema (schemas s ! i) = Valid rs"
    and "\<And>u. decoded i s u \<Longrightarrow> meets Q (k u)" and "\<And>e u. decoded i s u \<Longrightarrow> e \<noteq> 0 \<Longrightarrow> Q e u"
  shows "meets Q (check (read_entry A RowValue i n t) k)"
proof -
  have "reader_ok t" "i < length (schemas t)" "field_schema RowValue (schemas t ! i) = Valid rs"
    using assms(1-3) by (simp_all add: decoded_def)
  from read_entry_ok [OF this, of n] have "meets (\<lambda>_. decoded i s) (read_entry A RowValue i n t)"
    by (rule meets_mono) (rule decoded_trans [OF assms(1)])
  then have "meets (\<lambda>e u. if e \<noteq> 0 then Q e u else meets Q (k u)) (read_entry A RowValue i n t)"
    by (rule meets_mono) (simp add: assms(4,5))
  then show ?thesis by (simp add: meets_check)
qed

lemma decode_then_ok:
  assumes d: "decoded i s t" and i: "i < length (schemas s)"
    and f: "b \<noteq> None \<Longrightarrow> field_schema f (schemas s ! i) = Valid sc"
    and k: "\<And>u. decoded i s u \<Longrightarrow> meets Q (k b u)" and err: "\<And>e u. decoded i s u \<Longrightarrow> e \<noteq> 0 \<Longrightarrow> Q e u"
  shows "meets Q (decode_opt A f i b k t)"
proof (rule decode_opt_ok)
  show "reader_ok t" "i < length (schemas t)" using d i by (simp_all add: decoded_def)
  show "field_schema f (schemas t ! i) = Valid sc" if "b \<noteq> None"
    using f [OF that] d by (cases f) (simp_all add: decoded_def)
  show "meets Q (k b u)" if "decoded i t u" for u
    by (rule k [OF decoded_trans [OF d that]])
  show "Q e u" if "decoded i t u" "e \<noteq> 0" for e u
    by (rule err [OF decoded_trans [OF d that(1)] that(2)])
qed

lemma call_back_kept:
  assumes "\<And>f. c = Some f \<Longrightarrow> callback_ok (app f)" and "decoded i s t"
  shows "meets (kept s) (call_back c app t)"
  using assms(2) by (intro call_back_ok [OF assms(1)]) (simp_all add: decoded_def kept_def)

text \<open>The frame of the three row functions: look the table up, then decode its entry.\<close>

lemma lookup_then_ok:
  assumes ok: "reader_ok s" and key: "k \<noteq> None \<longrightarrow> (\<forall>rs. client_view s r \<noteq> Some (rs, None))"
    and none: "Q EINVAL s"
    and body: "\<And>i rs ks. i < length (schemas s) \<Longrightarrow> row_schema (schemas s ! i) = Valid rs \<Longrightarrow>
      k \<noteq> None \<longrightarrow> key_schema (schemas s ! i) = Valid ks \<Longrightarrow> meets Q (body i)"
  shows "meets Q (case schema_list_lookup s (ucast (r :: Oid)) of None \<Rightarrow> Ret EINVAL s | Some i \<Rightarrow> body i)"
proof (cases "schema_list_lookup s (ucast r)")
  case None
  with none show ?thesis by simp
next
  case (Some i)
  obtain rs ks where "i < length (schemas s)" "row_schema (schemas s ! i) = Valid rs"
    "k \<noteq> None \<longrightarrow> key_schema (schemas s ! i) = Valid ks"
    using view_row_ok [OF ok key Some] .
  from body [OF this] Some show ?thesis by simp
qed

text \<open>
  A row message meets \<open>Q\<close> if its callback does in every state in which it may be called, and if an
  error before that does.
\<close>

lemma deliver_row_meets:
  assumes ok: "reader_ok s" and key: "k \<noteq> None \<longrightarrow> (\<forall>rs. client_view s r \<noteq> Some (rs, None))"
    and err: "\<And>e i t. decoded i s t \<Longrightarrow> e \<noteq> 0 \<Longrightarrow> Q e t"
  shows "(\<And>i v1 v2 t. decoded i s t \<Longrightarrow> meets Q (call_back (cb_insert_row cb) (\<lambda>f. f w r k v1 n v2) t)) \<Longrightarrow>
      meets Q (deliver_msg A cb w (Insert r k n) s)"
    and "(\<And>i v1 v2 v3 t. decoded i s t \<Longrightarrow> meets Q (call_back (cb_update_row cb) (\<lambda>f. f w r k v1 l v2 n v3) t)) \<Longrightarrow>
      meets Q (deliver_msg A cb w (Update r k l n) s)"
    and "(\<And>i v1 v2 t. decoded i s t \<Longrightarrow> meets Q (call_back (cb_delete_row cb) (\<lambda>f. f w r k v1 l v2) t)) \<Longrightarrow>
      meets Q (deliver_msg A cb w (Delete r k l) s)"
proof -
  have self: "decoded i s s" for i using ok by (rule decoded_refl)
  have none: "Q EINVAL s" using err [OF self] by simp
  note L = lookup_then_ok [where Q = Q, OF ok key none] and R = decode_then_ok [OF self] decode_then_ok row_then_ok
  show "meets Q (deliver_msg A cb w (Insert r k n) s)"
    if "\<And>i v1 v2 t. decoded i s t \<Longrightarrow> meets Q (call_back (cb_insert_row cb) (\<lambda>f. f w r k v1 n v2) t)"
    unfolding deliver_msg.simps by (auto intro!: L R that intro: err)
  show "meets Q (deliver_msg A cb w (Update r k l n) s)"
    if "\<And>i v1 v2 v3 t. decoded i s t \<Longrightarrow> meets Q (call_back (cb_update_row cb) (\<lambda>f. f w r k v1 l v2 n v3) t)"
    unfolding deliver_msg.simps by (auto intro!: L R that intro: err)
  show "meets Q (deliver_msg A cb w (Delete r k l) s)"
    if "\<And>i v1 v2 t. decoded i s t \<Longrightarrow> meets Q (call_back (cb_delete_row cb) (\<lambda>f. f w r k v1 l v2) t)"
    unfolding deliver_msg.simps by (auto intro!: L R that intro: err)
qed

lemma deliver_msg_ok:
  assumes cb: "callbacks_ok cb" and ok: "reader_ok s" and m: "msg_ok A (client_view s) m"
  shows "meets (\<lambda>_ t. reader_ok t \<and> client_view t = msg_view A (client_view s) m) (deliver_msg A cb w m s)"
proof -
  note C = callbacks_okD [OF cb]
  have self: "decoded i s s" for i using ok by (rule decoded_refl)
  have rows: "meets (\<lambda>_ t. reader_ok t \<and> client_view t = client_view s) x" if "meets (kept s) x" for x :: "(_, int) outcome"
    using that by (rule meets_mono) (simp add: kept_def)
  note R = deliver_row_meets [where Q = "kept s" and cb = cb and w = w, OF ok _ decoded_kept]
  show ?thesis
  proof (cases m)
    case (BeginTxn x)
    then show ?thesis by (auto intro!: rows call_back_kept [OF _ self] C(1))
  next
    case (CommitTxn x l)
    then show ?thesis by (auto intro!: rows call_back_kept [OF _ self] C(2))
  next
    case (TableSchema r kj rj)
    show ?thesis
      unfolding TableSchema deliver_msg.simps using schema_installed_ok [OF cb ok] m TableSchema by simp
  next
    case (Insert r k n)
    have "meets (kept s) (deliver_msg A cb w (Insert r k n) s)"
      by (rule R(1)) (use m Insert in \<open>auto intro!: call_back_kept C(4)\<close>)
    with Insert show ?thesis by (auto intro: rows)
  next
    case (Update r k l n)
    have "meets (kept s) (deliver_msg A cb w (Update r k l n) s)"
      by (rule R(2)) (use m Update in \<open>auto intro!: call_back_kept C(5)\<close>)
    with Update show ?thesis by (auto intro: rows)
  next
    case (Delete r k l)
    have "meets (kept s) (deliver_msg A cb w (Delete r k l) s)"
      by (rule R(3)) (use m Delete in \<open>auto intro!: call_back_kept C(6)\<close>)
    with Delete show ?thesis by (auto intro: rows)
  qed
qed

lemma deliver_all_ok:
  assumes cb: "callbacks_ok cb" and "reader_ok s" and "msgs_ok A (client_view s) ms"
  shows "meets (\<lambda>e t. reader_ok t \<and> (e = 0 \<longrightarrow> client_view t = foldl (msg_view A) (client_view s) ms))
    (deliver_all A cb w ms s)"
  using assms(2,3)
proof (induction ms arbitrary: s)
  case (Cons m ms)
  then have "meets (\<lambda>_ t. reader_ok t \<and> client_view t = msg_view A (client_view s) m) (deliver_msg A cb w m s)"
    by (intro deliver_msg_ok [OF cb]) auto
  moreover have "meets (\<lambda>e u. reader_ok u \<and>
        (e = 0 \<longrightarrow> client_view u = foldl (msg_view A) (msg_view A (client_view s) m) ms)) (deliver_all A cb w ms t)"
    if "reader_ok t" "client_view t = msg_view A (client_view s) m" for t
    using Cons.IH [OF that(1)] Cons.prems(2) that(2) by simp
  ultimately show ?case
    by (cases "deliver_msg A cb w m s") auto
qed simp

lemma parse_frame_ok:
  assumes "avro_value_write A (frame_of ms) n = (0, buf)" and cb: "callbacks_ok cb"
    and ok: "reader_ok s" and ms: "msgs_ok A (client_view s) ms"
  shows "meets (\<lambda>e t. reader_ok t \<and> (e = 0 \<longrightarrow> client_view t = foldl (msg_view A) (client_view s) ms))
    (parse_frame A cb w buf s)"
proof -
  let ?s = "s\<lparr>frame_value := frame_of ms\<rparr>"
  have view: "client_view ?s = client_view s" by (simp add: client_view_def schema_list_lookup_def fun_eq_iff)
  have "reader_ok ?s" using ok by (simp add: reader_ok_def frame_of_schema)
  with ms view have *: "meets (\<lambda>e t. reader_ok t \<and> (e = 0 \<longrightarrow> client_view t = foldl (msg_view A) (client_view s) ms))
      (deliver_all A cb w ms ?s)"
    using deliver_all_ok [OF cb, of ?s ms w] by simp
  have keep: "callbacks_keep_reader cb"
    using cb by (simp add: callbacks_ok_def callbacks_keep_reader_def callback_ok_def keeps_reader_def meets_conv)
  have "has_schema (frame_value s) frame_schema" using ok by (simp add: reader_ok_def)
  with * show ?thesis
    unfolding parse_frame_deliver(1) [OF assms(1) _ keep]
    by (cases "deliver_all A cb w ms ?s") (auto simp: parse_frame_deliver(1) [OF assms(1) _ keep])
qed

end

section \<open>Freeing the reader\<close>

lemma decref_entries_ok: "\<forall>e \<in> set es. entry_ok e \<Longrightarrow> \<exists>es'. decref_entries es = Some es'"
proof (induction es)
  case (Cons e es)
  then obtain es' where "decref_entries es = Some es'" by auto
  moreover obtain e' where "schema_list_entry_decrefs e = Some e'"
    using entry_decrefs_ok [of e] Cons.prems by auto
  ultimately show ?case by simp
qed simp

lemma frame_reader_free_ok: "reader_ok s \<Longrightarrow> \<exists>t. frame_reader_free s = Ret () t"
  using decref_entries_ok [of "schemas s"]
  by (auto simp: reader_ok_def table_invar_def frame_reader_free_def)

lemma frame_reader_new_ok:
  assumes "avro_codec A" and "frame_reader_new A = Some s"
  shows "reader_ok s" and "client_view s = Map.empty"
  using assms avro_codec.value_new [OF assms(1), of frame_schema]
  by (auto simp: frame_reader_new_def schema_for_frame_eq reader_ok_def table_invar_def has_schema_default
      client_view_def schema_list_lookup_def)

lemma lookup_frame_value [simp]: "schema_list_lookup (s\<lparr>frame_value := v\<rparr>) r = schema_list_lookup s r"
  by (simp add: schema_list_lookup_def)

lemma decref_entries_None: "e \<in> set es \<Longrightarrow> schema_list_entry_decrefs e = None \<Longrightarrow> decref_entries es = None"
  by (induction es) (auto simp: bind_eq_None_conv)

end
