(* ===== verification/Server_Views.thy ===== *)
theory Server_Views
  imports Server_Frames Reader_Safety
begin

text \<open>
  The messages of the server keep to the protocol that the client relies on (\<open>msgs_ok\<close> of
  \<open>Reader_Safety\<close>): what is written can be read, the schemas it sends parse, a row message carries
  a key only if the table's last schema message had a key schema. A client that knows what the
  server's cache tells keeps knowing it when it takes in the messages.
\<close>

section \<open>What was written can be read\<close>

lemma try_writing_loop_written:
  "try_writing_loop A cb siz err out = (0, b) \<Longrightarrow> err = 0 \<and> b = out \<or> (\<exists>n. cb n = (0, b))"
proof (induction A cb siz err out rule: try_writing_loop.induct)
  case (1 A cb siz err out)
  show ?case
  proof (cases "err = ENOSPC \<and> siz \<le> MAX_BUFFER_LENGTH \<and> 0 < siz")
    case False
    with "1.prems" show ?thesis by (simp add: try_writing_loop.simps [of A cb siz err out] split: if_splits)
  next
    case True
    obtain e o' where cb: "cb (siz - VARHDRSZ) = (e, o')" by fastforce
    let ?e = "if e = 0 then fst (avro_write A o' (siz - VARHDRSZ) [0]) else e"
    let ?z = "if ?e = ENOSPC then siz * 4 else siz"
    have "try_writing_loop A cb ?z ?e o' = (0, b)"
      using "1.prems" [unfolded try_writing_loop.simps [of A cb siz err out] if_P [OF True]] cb
      by (simp only: prod.case Let_def)
    with "1.IH" [OF True cb [symmetric] refl refl refl] have "?e = 0 \<and> b = o' \<or> (\<exists>n. cb n = (0, b))" by simp
    then show ?thesis using cb by (auto split: if_splits)
  qed
qed

lemma try_writing_written: "written (try_writing A cb) = Some b \<Longrightarrow> \<exists>n. cb n = (0, b)"
  using try_writing_loop_written [of A cb INIT_BUFFER_LENGTH ENOSPC "[]" b]
  by (cases "try_writing A cb") (auto simp: written_def try_writing_def split: if_splits)

lemma binary_of_written: "binary_of A v = Some b \<Longrightarrow> \<exists>n. avro_value_write A v n = (0, b)"
  using try_writing_written [of A "write_avro_binary A v" b] by (simp add: binary_of_def write_avro_binary_def)

context avro_codec
begin

lemma json_of_parsed: "json_of A s = Some j \<Longrightarrow> json_schema A j = Some s"
  using try_writing_written [of A "write_schema_json A s" j] schema_json
  by (auto simp: json_of_def write_schema_json_def json_schema_def)

end

section \<open>The messages keep to the protocol\<close>

text \<open>A message about a row of the table, with a key exactly if the table has one.\<close>

fun row_msg :: "Oid \<Rightarrow> bool \<Rightarrow> wire_msg \<Rightarrow> bool" where
  "row_msg r keyed (Insert r' k n) \<longleftrightarrow> r' = r \<and> (k \<noteq> None \<longrightarrow> keyed)"
| "row_msg r keyed (Update r' k l n) \<longleftrightarrow> r' = r \<and> (k \<noteq> None \<longrightarrow> keyed)"
| "row_msg r keyed (Delete r' k l) \<longleftrightarrow> r' = r \<and> (k \<noteq> None \<longrightarrow> keyed)"
| "row_msg r keyed m \<longleftrightarrow> False"

lemma insert_msgs_rows:
  "insert_msgs A P rel index td tuple = Some ms \<Longrightarrow> m \<in> set ms \<Longrightarrow> row_msg (rd_id rel) (index \<noteq> None) m"
  using keyed [of A P rel index td tuple] by (auto simp: insert_msgs_def bind_eq_Some_conv)

lemma delete_msgs_rows:
  "delete_msgs A P rel index old = Some ms \<Longrightarrow> m \<in> set ms \<Longrightarrow> row_msg (rd_id rel) (index \<noteq> None) m"
  using old_keyed [of A P rel index old] by (auto simp: delete_msgs_def)

lemma update_msgs_rows:
  "update_msgs A P rel index old new = Some ms \<Longrightarrow> m \<in> set ms \<Longrightarrow> row_msg (rd_id rel) (index \<noteq> None) m"
  using keyed [of A P rel index "rd_att rel" new]
  by (auto simp: update_msgs_def bind_eq_Some_conv update_msg_def dest: old_keyed split: if_splits)

lemma row_msgs_view:
  assumes "\<And>m. m \<in> set ms \<Longrightarrow> row_msg r keyed m" and "V r = Some (rs, ks)" and "keyed \<Longrightarrow> ks \<noteq> None"
  shows "msgs_ok A V ms \<and> foldl (msg_view A) V ms = V"
  using assms(1)
proof (induction ms)
  case (Cons m ms)
  then have "row_msg r keyed m" by simp
  then have "msg_ok A V m" "msg_view A V m = V"
    using assms(2,3) by (cases m; auto)+
  with Cons show ?case by simp
qed simp

lemma msgs_ok_append: "msgs_ok A V (a @ b) \<longleftrightarrow> msgs_ok A V a \<and> msgs_ok A (foldl (msg_view A) V a) b"
  by (induction a arbitrary: V) auto

context avro_codec
begin

lemma schema_msgs_view:
  assumes "schema_msgs A P rel index changed = Some ms"
    and "changed \<or> V (rd_id rel) = Some (table_schemas P rel index)"
  shows "msgs_ok A V ms" and "foldl (msg_view A) V ms = V(rd_id rel \<mapsto> table_schemas P rel index)"
  using assms
  by (cases index; cases changed; auto simp: schema_msgs_def schema_msg_def bind_eq_Some_conv table_schemas_def
      dest!: json_of_parsed)+

text \<open>A client that knows of the tables what the cache tells, keeps knowing it.\<close>

lemma due_msgs_view:
  assumes sent: "due_msgs A P rel index changed rows = Some ms"
    and rows: "\<And>ms m. rows = Some ms \<Longrightarrow> m \<in> set ms \<Longrightarrow> row_msg (rd_id rel) (index \<noteq> None) m"
    and told: "changed \<or> told P rel index s" and V: "cache_view (srv_cache s) \<subseteq>\<^sub>m V"
    and t: "cache_view (srv_cache t) = (cache_view (srv_cache s))(rd_id rel \<mapsto> table_schemas P rel index)"
  shows "msgs_ok A V ms" and "cache_view (srv_cache t) \<subseteq>\<^sub>m foldl (msg_view A) V ms"
proof -
  obtain a b where ab: "schema_msgs A P rel index changed = Some a" "rows = Some b" "ms = a @ b"
    using sent by (auto simp: due_msgs_def bind_eq_Some_conv)
  have "changed \<or> V (rd_id rel) = Some (table_schemas P rel index)"
    using told V by (auto simp: told_def map_le_def dom_def)
  note a = schema_msgs_view [of P rel index changed a V, OF ab(1) this]
  let ?V = "V(rd_id rel \<mapsto> table_schemas P rel index)"
  have "msgs_ok A ?V b \<and> foldl (msg_view A) ?V b = ?V"
    using row_msgs_view [of b "rd_id rel" "index \<noteq> None" ?V _ _ A] rows [OF ab(2)] by (auto simp: table_schemas_def)
  with a ab(3) show "msgs_ok A V ms" and "cache_view (srv_cache t) \<subseteq>\<^sub>m foldl (msg_view A) V ms"
    using t V by (auto simp: msgs_ok_append map_le_def)
qed

end

end
