(* ===== verification/Client_Calls.thy ===== *)
theory Client_Calls
  imports Server_Views
begin

text \<open>
  What an application of the frame reader gets to see. \<open>recorder\<close> is an application whose callbacks
  note their arguments; \<open>means\<close> relates a message to the call it must lead to: the row and key are the
  values whose encoding the message carries, in the schemas that the client has for the table. The
  client makes exactly these calls.
\<close>

section \<open>An application that records its calls\<close>

datatype call =
    OnBegin u64 u32
  | OnCommit u64 u32
  | OnSchema u64 Oid "avro_schema option" avro_schema
  | OnInsert u64 Oid "avro_val option" avro_val
  | OnUpdate u64 Oid "avro_val option" "avro_val option" avro_val
  | OnDelete u64 Oid "avro_val option" "avro_val option"

record recording_reader = frame_reader +
  calls :: "call list"

definition note_call :: "call \<Rightarrow> ('y recording_reader_scheme, int) prog" where
  "note_call c s = Ret 0 (s\<lparr>calls := calls s @ [c]\<rparr>)"

definition recorder :: "('y recording_reader_scheme) callbacks" where
  "recorder = \<lparr> cb_begin_txn = Some (\<lambda>w x. note_call (OnBegin w x)),
     cb_commit_txn = Some (\<lambda>w x. note_call (OnCommit w x)),
     cb_table_schema = Some (\<lambda>w r kj kl ks rj rl rs. note_call (OnSchema w r ks rs)),
     cb_insert_row = Some (\<lambda>w r kb k nb n. note_call (OnInsert w r k n)),
     cb_update_row = Some (\<lambda>w r kb k lb l nb n. note_call (OnUpdate w r k l n)),
     cb_delete_row = Some (\<lambda>w r kb k lb l. note_call (OnDelete w r k l)) \<rparr>"

lemma recorder_ok: "callbacks_ok recorder"
  by (simp add: callbacks_ok_def recorder_def callback_ok_def note_call_def reader_part_def)

section \<open>What a message tells the application\<close>

definition encodes :: "('z avro_io_scheme) \<Rightarrow> avro_schema \<Rightarrow> avro_val \<Rightarrow> bytes \<Rightarrow> bool" where
  "encodes A \<sigma> v b \<longleftrightarrow> has_schema v \<sigma> \<and> (\<exists>n. avro_value_write A v n = (0, b))"

fun encodes_opt :: "('z avro_io_scheme) \<Rightarrow> avro_schema option \<Rightarrow> avro_val option \<Rightarrow> bytes option \<Rightarrow> bool" where
  "encodes_opt A \<sigma> None None \<longleftrightarrow> True"
| "encodes_opt A \<sigma> (Some v) (Some b) \<longleftrightarrow> (\<exists>s. \<sigma> = Some s \<and> encodes A s v b)"
| "encodes_opt A \<sigma> _ _ \<longleftrightarrow> False"

fun means :: "('z avro_io_scheme) \<Rightarrow> schema_view \<Rightarrow> u64 \<Rightarrow> wire_msg \<Rightarrow> call \<Rightarrow> bool" where
  "means A V w (BeginTxn x) c \<longleftrightarrow> c = OnBegin w x"
| "means A V w (CommitTxn x l) c \<longleftrightarrow> c = OnCommit w x"
| "means A V w (TableSchema r kj rj) c \<longleftrightarrow> (\<exists>ks rs. json_schema A rj = Some rs \<and>
     if_some (json_schema A) kj = Some ks \<and> c = OnSchema w r ks rs)"
| "means A V w (Insert r kb nb) c \<longleftrightarrow> (\<exists>rs ks k n. V r = Some (rs, ks) \<and> encodes_opt A ks k kb \<and>
     encodes A rs n nb \<and> c = OnInsert w r k n)"
| "means A V w (Update r kb lb nb) c \<longleftrightarrow> (\<exists>rs ks k l n. V r = Some (rs, ks) \<and> encodes_opt A ks k kb \<and>
     encodes_opt A (Some rs) l lb \<and> encodes A rs n nb \<and> c = OnUpdate w r k l n)"
| "means A V w (Delete r kb lb) c \<longleftrightarrow> (\<exists>rs ks k l. V r = Some (rs, ks) \<and> encodes_opt A ks k kb \<and>
     encodes_opt A (Some rs) l lb \<and> c = OnDelete w r k l)"

fun all_mean :: "('z avro_io_scheme) \<Rightarrow> schema_view \<Rightarrow> u64 \<Rightarrow> wire_msg list \<Rightarrow> call list \<Rightarrow> bool" where
  "all_mean A V w [] cs \<longleftrightarrow> cs = []"
| "all_mean A V w (m # ms) cs \<longleftrightarrow> (\<exists>c ds. cs = c # ds \<and> means A V w m c \<and> all_mean A (msg_view A V m) w ms ds)"

lemma encodes_opt_key: "encodes_opt A ks k kb \<Longrightarrow> kb \<noteq> None \<longrightarrow> ks \<noteq> None"
  by (cases "(A, ks, k, kb)" rule: encodes_opt.cases) auto

lemma means_ok: "means A V w m c \<Longrightarrow> msg_ok A V m"
  by (cases m) (auto dest: encodes_opt_key)

section \<open>The client makes these calls\<close>

text \<open>A value decoded into the entry of the table.\<close>

definition put_value :: "entry_field \<Rightarrow> nat \<Rightarrow> avro_val \<Rightarrow> ('y frame_reader_scheme) \<Rightarrow> ('y frame_reader_scheme)" where
  "put_value f i v s = s\<lparr>schemas := (schemas s)[i := set_field f v (schemas s ! i)]\<rparr>"

definition put_opt :: "entry_field \<Rightarrow> nat \<Rightarrow> avro_val option \<Rightarrow> ('y frame_reader_scheme) \<Rightarrow> ('y frame_reader_scheme)" where
  "put_opt f i v s = (case v of None \<Rightarrow> s | Some w \<Rightarrow> put_value f i w s)"

context avro_codec
begin

lemma read_entry_put:
  assumes "reader_ok s" and i: "i < length (schemas s)" and f: "field_schema f (schemas s ! i) = Valid \<sigma>" and b: "encodes A \<sigma> v b"
  shows "read_entry A f i b s = Ret 0 (put_value f i v s)"
    and "decoded i s (put_value f i v s)"
proof -
  have e: "entry_ok (schemas s ! i)" using assms(1) i by (simp add: reader_ok_def)
  obtain u where u: "get_field f (schemas s ! i) = Valid u" "has_schema u \<sigma>" "avro_reader (schemas s ! i) = Valid ()"
    using entry_field [OF e f] .
  obtain n where n: "avro_value_write A v n = (0, b)" "has_schema v \<sigma>" using b by (auto simp: encodes_def)
  from read_entirely_written [OF n(1,2) u(2)] u
  show r: "read_entry A f i b s = Ret 0 (put_value f i v s)"
    by (simp add: read_entry_def put_value_def Let_def)
  from read_entry_ok [OF assms(1-3), of b] r show "decoded i s (put_value f i v s)" by simp
qed

lemma decode_opt_put:
  assumes "reader_ok s" and "i < length (schemas s)" and b: "encodes_opt A \<sigma> v b"
    and f: "\<And>\<tau>. \<sigma> = Some \<tau> \<Longrightarrow> field_schema f (schemas s ! i) = Valid \<tau>"
  shows "decode_opt A f i b k s = k b (put_opt f i v s)" and "decoded i s (put_opt f i v s)"
proof -
  consider "v = None" "b = None" | w c \<tau> where "v = Some w" "b = Some c" "\<sigma> = Some \<tau>" "encodes A \<tau> w c"
    using b by (cases "(A, \<sigma>, v, b)" rule: encodes_opt.cases) auto
  then have "decode_opt A f i b k s = k b (put_opt f i v s) \<and> decoded i s (put_opt f i v s)"
  proof cases
    case 1
    with assms(1) show ?thesis by (simp add: decode_opt_def put_opt_def decoded_refl)
  next
    case 2
    note r = read_entry_put [OF assms(1,2) f [OF 2(3)] 2(4)]
    from 2 r(1) have "decode_opt A f i b k s = k b (put_opt f i v s)" by (simp add: decode_opt_def put_opt_def)
    with 2 r(2) show ?thesis by (simp add: put_opt_def)
  qed
  then show "decode_opt A f i b k s = k b (put_opt f i v s)" and "decoded i s (put_opt f i v s)" by simp_all
qed

lemma view_entry:
  assumes "reader_ok s" and "client_view s r = Some (rs, ks)"
  obtains i where "schema_list_lookup s (ucast r) = Some i" "i < length (schemas s)"
    "row_schema (schemas s ! i) = Valid rs" "\<forall>\<tau>. ks = Some \<tau> \<longrightarrow> key_schema (schemas s ! i) = Valid \<tau>"
proof -
  obtain i where i: "schema_list_lookup s (ucast r) = Some i" "entry_view (schemas s ! i) = Some (rs, ks)"
    using assms(2) by (auto simp: client_view_def bind_eq_Some_conv)
  have e: "i < length (schemas s)" "entry_ok (schemas s ! i)" using reader_entry [OF assms(1) i(1)] by simp_all
  have "row_schema (schemas s ! i) = Valid rs" "ptr_option (key_schema (schemas s ! i)) = ks"
    using i(2) e(2) by (auto simp: entry_view_def entry_ok_def)
  with e(2) have "\<forall>\<tau>. ks = Some \<tau> \<longrightarrow> key_schema (schemas s ! i) = Valid \<tau>"
    by (auto simp: entry_ok_def)
  with i(1) e(1) \<open>row_schema (schemas s ! i) = Valid rs\<close> show ?thesis by (rule that)
qed

end

lemma put_get [simp]:
  assumes "i < length (schemas s)"
  shows "get_field g (schemas (put_value f i v s) ! i) = (if f = g then Valid v else get_field g (schemas s ! i))"
    and "get_field g (schemas (put_opt f i u s) ! i) =
      (if f = g \<and> u \<noteq> None then Valid (the u) else get_field g (schemas s ! i))"
    and "length (schemas (put_value f i v s)) = length (schemas s)"
    and "length (schemas (put_opt f i u s)) = length (schemas s)"
  using assms by (cases f; cases g; cases u; simp add: put_value_def put_opt_def)+

lemma field_arg_opt: "encodes_opt A \<sigma> k kb \<Longrightarrow> field_arg f i kb s =
    (if k = None then None else case get_field f (schemas s ! i) of Valid v \<Rightarrow> Some v | _ \<Rightarrow> None)"
  by (cases "(A, \<sigma>, k, kb)" rule: encodes_opt.cases) (auto simp: field_arg_def)

lemma row_arg_get: "row_arg i s = (case get_field RowValue (schemas s ! i) of Valid v \<Rightarrow> v | _ \<Rightarrow> VNull)"
  by (simp add: row_arg_def)

context avro_codec
begin

lemma deliver_rows:
  fixes s :: "'y recording_reader_scheme"
  assumes ok: "reader_ok s" and V: "client_view s r = Some (rs, ks)" and k: "encodes_opt A ks k kb"
  shows "encodes A rs n nb \<Longrightarrow>
      \<exists>t. deliver_msg A recorder w (Insert r kb nb) s = Ret 0 t \<and> calls t = calls s @ [OnInsert w r k n]"
    and "encodes A rs n nb \<Longrightarrow> encodes_opt A (Some rs) l lb \<Longrightarrow>
      \<exists>t. deliver_msg A recorder w (Update r kb lb nb) s = Ret 0 t \<and> calls t = calls s @ [OnUpdate w r k l n]"
    and "encodes_opt A (Some rs) l lb \<Longrightarrow>
      \<exists>t. deliver_msg A recorder w (Delete r kb lb) s = Ret 0 t \<and> calls t = calls s @ [OnDelete w r k l]"
proof -
  obtain i where i: "schema_list_lookup s (ucast r) = Some i" "i < length (schemas s)"
    "row_schema (schemas s ! i) = Valid rs" "\<forall>\<tau>. ks = Some \<tau> \<longrightarrow> key_schema (schemas s ! i) = Valid \<tau>"
    using view_entry [OF ok V] .
  let ?t = "put_opt KeyValue i k s"
  have key: "decode_opt A KeyValue i kb g s = g kb ?t" "decoded i s ?t" for g
    using decode_opt_put [OF ok i(2) k, of KeyValue] i(4) by auto
  then have t: "reader_ok ?t" "i < length (schemas ?t)" "row_schema (schemas ?t ! i) = Valid rs"
    using i by (simp_all add: decoded_def)
  have keep: "calls (put_opt f j u q) = calls q" "calls (put_value f j v q) = calls q"
    for f j u v and q :: "'y recording_reader_scheme"
    by (simp_all add: put_opt_def put_value_def split: option.split)
  { assume n: "encodes A rs n nb"
    have row: "read_entry A RowValue i nb ?t = Ret 0 (put_value RowValue i n ?t)"
      using read_entry_put [OF t(1,2) _ n, of RowValue] t(3) by simp
    show "\<exists>t. deliver_msg A recorder w (Insert r kb nb) s = Ret 0 t \<and> calls t = calls s @ [OnInsert w r k n]"
      using i(1,2) t(2)
      by (simp add: key(1) row call_back_def recorder_def note_call_def keep field_arg_opt [OF k] row_arg_get
          del: get_field.simps) }
  assume l: "encodes_opt A (Some rs) l lb"
  let ?u = "put_opt OldValue i l ?t"
  have old: "decode_opt A OldValue i lb g ?t = g lb ?u" "decoded i ?t ?u" for g
    using decode_opt_put [OF t(1,2) l, of OldValue] t(3) by auto
  then have u: "reader_ok ?u" "i < length (schemas ?u)" "row_schema (schemas ?u ! i) = Valid rs"
    using t by (simp_all add: decoded_def)
  show "\<exists>t. deliver_msg A recorder w (Delete r kb lb) s = Ret 0 t \<and> calls t = calls s @ [OnDelete w r k l]"
    using i(1,2) t(2)
    by (simp add: key(1) old(1) call_back_def recorder_def note_call_def keep field_arg_opt [OF k] field_arg_opt [OF l]
        del: get_field.simps)
  assume n: "encodes A rs n nb"
  have row: "read_entry A RowValue i nb ?u = Ret 0 (put_value RowValue i n ?u)"
    using read_entry_put [OF u(1,2) _ n, of RowValue] u(3) by simp
  show "\<exists>t. deliver_msg A recorder w (Update r kb lb nb) s = Ret 0 t \<and> calls t = calls s @ [OnUpdate w r k l n]"
    using i(1,2) t(2) u(2)
    by (simp add: key(1) old(1) row call_back_def recorder_def note_call_def keep field_arg_opt [OF k] field_arg_opt [OF l]
        row_arg_get del: get_field.simps)
qed

lemma replace_calls:
  fixes s :: "'y recording_reader_scheme"
  shows "schema_list_replace r s = Ret i t \<Longrightarrow> calls t = calls s"
  by (auto simp: schema_list_replace_def schema_list_entry_new_def Let_def split: option.splits prod.splits if_splits)

lemma deliver_schema:
  fixes s :: "'y recording_reader_scheme"
  assumes ok: "reader_ok s" and rj: "json_schema A rj = Some rs" and kj: "if_some (json_schema A) kj = Some ks"
  shows "\<exists>t. install_schema A recorder w r kj rj s = Ret 0 t \<and> calls t = calls s @ [OnSchema w r ks rs]"
proof -
  have parsed: "avro_schema_from_json_length A j (length j) = (0, \<sigma>)" if "json_schema A j = Some \<sigma>" for j \<sigma>
    using that by (auto simp: json_schema_def split: prod.splits if_splits)
  obtain i t where t: "schema_list_replace (ucast r) s = Ret i t"
    using schema_list_replace_ok [OF ok, of r] by blast
  have keep: "calls (upd_entry i f q) = calls q" for f and q :: "'y recording_reader_scheme"
    by (simp add: upd_entry_def)
  show ?thesis
    using t replace_calls [OF t] parsed [OF rj] kj
    by (cases kj) (auto simp: install_schema_def call_back_def recorder_def note_call_def keep parsed Let_def)
qed

lemma deliver_means:
  fixes s :: "'y recording_reader_scheme"
  assumes ok: "reader_ok s" and m: "means A (client_view s) w m c"
  shows "\<exists>t. deliver_msg A recorder w m s = Ret 0 t \<and> reader_ok t \<and>
    client_view t = msg_view A (client_view s) m \<and> calls t = calls s @ [c]"
proof -
  have "\<exists>t. deliver_msg A recorder w m s = Ret 0 t \<and> calls t = calls s @ [c]"
  proof (cases m)
    case (TableSchema r kj rj)
    with m obtain ks rs where "json_schema A rj = Some rs" "if_some (json_schema A) kj = Some ks" "c = OnSchema w r ks rs"
      by auto
    with deliver_schema [OF ok, of rj rs kj ks w r] TableSchema show ?thesis by simp
  next
    case (Insert r kb nb)
    with m deliver_rows(1) [OF ok] show ?thesis unfolding Insert means.simps by blast
  next
    case (Update r kb lb nb)
    with m deliver_rows(2) [OF ok] show ?thesis unfolding Update means.simps by blast
  next
    case (Delete r kb lb)
    with m deliver_rows(3) [OF ok] show ?thesis unfolding Delete means.simps by blast
  qed (use m in \<open>simp_all add: call_back_def recorder_def note_call_def\<close>)
  moreover have "meets (\<lambda>_ t. reader_ok t \<and> client_view t = msg_view A (client_view s) m) (deliver_msg A recorder w m s)"
    by (rule deliver_msg_ok [OF recorder_ok ok means_ok [OF m]])
  ultimately show ?thesis by auto
qed

lemma deliver_all_means:
  fixes s :: "'y recording_reader_scheme"
  assumes "reader_ok s" and "all_mean A (client_view s) w ms cs"
  shows "\<exists>t. deliver_all A recorder w ms s = Ret 0 t \<and> reader_ok t \<and>
    client_view t = foldl (msg_view A) (client_view s) ms \<and> calls t = calls s @ cs"
  using assms
proof (induction ms arbitrary: s cs)
  case (Cons m ms)
  then obtain c ds where cs: "cs = c # ds" "means A (client_view s) w m c" "all_mean A (msg_view A (client_view s) m) w ms ds"
    by auto
  from deliver_means [OF Cons.prems(1) cs(2)] obtain t where t: "deliver_msg A recorder w m s = Ret 0 t" "reader_ok t"
      "client_view t = msg_view A (client_view s) m" "calls t = calls s @ [c]"
    by auto
  with Cons.IH [of t ds] cs show ?case by auto
qed simp

lemma parse_frame_means:
  fixes s :: "'y recording_reader_scheme"
  assumes buf: "binary_of A (frame_of ms) = Some buf" and ok: "reader_ok s" and cs: "all_mean A (client_view s) w ms cs"
  shows "\<exists>t. parse_frame A recorder w buf s = Ret 0 t \<and> reader_ok t \<and>
    client_view t = foldl (msg_view A) (client_view s) ms \<and> calls t = calls s @ cs"
proof -
  let ?s = "s\<lparr>frame_value := frame_of ms\<rparr>"
  obtain n where n: "avro_value_write A (frame_of ms) n = (0, buf)" using binary_of_written [OF buf] by blast
  have view: "client_view ?s = client_view s" by (simp add: client_view_def schema_list_lookup_def fun_eq_iff)
  have "reader_ok ?s" using ok by (simp add: reader_ok_def frame_of_schema)
  with cs view obtain t where t: "deliver_all A recorder w ms ?s = Ret 0 t" "reader_ok t"
      "client_view t = foldl (msg_view A) (client_view s) ms" "calls t = calls s @ cs"
    using deliver_all_means [of ?s w ms cs] by auto
  have keep: "callbacks_keep_reader (recorder :: ('y recording_reader_scheme) callbacks)"
    by (simp add: callbacks_keep_reader_def recorder_def keeps_reader_def note_call_def reader_part_def)
  have "has_schema (frame_value s) frame_schema" using ok by (simp add: reader_ok_def)
  with t show ?thesis by (simp add: parse_frame_deliver(1) [OF n _ keep])
qed

end

text \<open>A new reader for this application.\<close>

definition recording_new :: "('z avro_io_scheme) \<Rightarrow> recording_reader option" where
  "recording_new A = map_option (\<lambda>r. frame_reader.extend r (recording_reader.fields [])) (frame_reader_new A)"

lemma recording_new_ok:
  assumes "avro_codec A" and "recording_new A = Some c"
  shows "reader_ok c" and "client_view c = Map.empty" and "calls c = []"
proof -
  obtain r where r: "frame_reader_new A = Some r" "c = frame_reader.extend r (recording_reader.fields [])"
    using assms(2) by (auto simp: recording_new_def)
  then have "reader_part c = reader_part r"
    by (simp add: reader_part_def frame_reader.defs recording_reader.defs)
  with frame_reader_new_ok [OF assms(1) r(1)] show "reader_ok c" "client_view c = Map.empty"
    using reader_ok_part client_view_part by metis+
  show "calls c = []" using r by (simp add: frame_reader.defs recording_reader.defs)
qed

lemma recording_new_Some: "\<exists>c. recording_new A = Some c"
  by (simp add: recording_new_def frame_reader_new_def schema_for_frame_eq)

end
