(* ===== verification/Logdecoder.thy ===== *)
theory Logdecoder
  imports Protocol_Server
begin

text \<open>
  The output plugin, \<open>ext/logdecoder.c\<close>. The server calls it for every transaction it decodes from
  the log: once at the begin and the commit, and once per changed row. Each call writes one frame.
  \<open>plugin_out\<close> is what the plugin has handed to \<open>OutputPluginWrite\<close>, one byte string per frame;
  \<open>plugin_refs\<close> stands for its references to the frame schema, interface and value. Memory
  contexts are not modelled. \<open>elog(ERROR)\<close> is the outcome \<open>Exit ERROR\<close>.
\<close>

section \<open>State\<close>

record plugin_state = server_frame +
  plugin_refs :: "unit ptr"
  plugin_out :: "bytes list"

text \<open>The part of \<open>ReorderBufferChange\<close> that the plugin reads.\<close>

datatype reorder_action =
    REORDER_BUFFER_CHANGE_INSERT
  | REORDER_BUFFER_CHANGE_UPDATE
  | REORDER_BUFFER_CHANGE_DELETE
  | REORDER_BUFFER_CHANGE_INTERNAL

record 't reorder_change =
  change_action :: reorder_action
  change_oldtuple :: "'t option"
  change_newtuple :: "'t option"

section \<open>Frames\<close>

definition reset_frame :: "('z avro_ops_scheme) \<Rightarrow> ('x server_frame_scheme, unit) prog" where
  "reset_frame A s = (case avro_value_reset A (srv_frame s) of
     (err, v) \<Rightarrow> if err \<noteq> 0 then Exit ERROR (s\<lparr>srv_frame := v\<rparr>) else Ret () (s\<lparr>srv_frame := v\<rparr>))"

definition write_frame :: "('z avro_io_scheme) \<Rightarrow> ('x plugin_state_scheme, int) prog" where
  "write_frame A s =
     check_get (try_writing A (write_avro_binary A (srv_frame s))) (\<lambda>output s.
       Ret 0 (s\<lparr>plugin_out := plugin_out s @ [output]\<rparr>)) s"

text \<open>\<open>if (call) { elog(ERROR, ...); }\<close>\<close>

definition or_error :: "('s, int) outcome \<Rightarrow> ('s \<Rightarrow> ('s, unit) outcome) \<Rightarrow> ('s, unit) outcome" where
  "or_error r k = andthen r (\<lambda>err s. if err \<noteq> 0 then Exit ERROR s else k s)"

section \<open>Callbacks\<close>

definition output_avro_startup :: "('z avro_io_scheme) \<Rightarrow> plugin_state option" where
  "output_avro_startup A = map_option (\<lambda>schema.
     \<lparr> srv_frame = snd (avro_generic_value_new A schema), srv_cache = schema_cache_new,
       plugin_refs = Valid (), plugin_out = [] \<rparr>) schema_for_frame"

definition output_avro_shutdown :: "('x plugin_state_scheme, unit) prog" where
  "output_avro_shutdown s =
     andthen (in_cache schema_cache_free s) (\<lambda>_ s. case release (plugin_refs s) of
         None \<Rightarrow> Undef | Some p \<Rightarrow> Ret () (s\<lparr>plugin_refs := p\<rparr>))"

definition output_avro_begin_txn :: "('z avro_io_scheme) \<Rightarrow> u32 \<Rightarrow> ('x plugin_state_scheme, unit) prog" where
  "output_avro_begin_txn A xid s =
     andthen (reset_frame A s) (\<lambda>_ s.
     or_error (in_frame (update_frame_with_begin_txn A xid) s) (\<lambda>s.
     or_error (write_frame A s) (Ret ())))"

definition output_avro_commit_txn :: "('z avro_io_scheme) \<Rightarrow> u32 \<Rightarrow> XLogRecPtr \<Rightarrow> ('x plugin_state_scheme, unit) prog" where
  "output_avro_commit_txn A xid commit_lsn s =
     andthen (reset_frame A s) (\<lambda>_ s.
     or_error (in_frame (update_frame_with_commit_txn A xid commit_lsn) s) (\<lambda>s.
     or_error (write_frame A s) (Ret ())))"

text \<open>The \<open>switch\<close> over the kind of change.\<close>

definition update_frame_with_change :: "('z avro_io_scheme) \<Rightarrow> ('t, 'd) pg_ops \<Rightarrow> relation \<Rightarrow> 't reorder_change \<Rightarrow>
    ('x plugin_state_scheme, int) prog" where
  "update_frame_with_change A P rel change s = (case change_action change of
     REORDER_BUFFER_CHANGE_INSERT \<Rightarrow> (case change_newtuple change of
         None \<Rightarrow> Exit ERROR s
       | Some newtuple \<Rightarrow> update_frame_with_insert A P rel (rd_att rel) newtuple s)
   | REORDER_BUFFER_CHANGE_UPDATE \<Rightarrow> (case change_newtuple change of
         None \<Rightarrow> Exit ERROR s
       | Some newtuple \<Rightarrow> update_frame_with_update A P rel (change_oldtuple change) newtuple s)
   | REORDER_BUFFER_CHANGE_DELETE \<Rightarrow> update_frame_with_delete A P rel (change_oldtuple change) s
   | REORDER_BUFFER_CHANGE_INTERNAL \<Rightarrow> Exit ERROR s)"

definition output_avro_change :: "('z avro_io_scheme) \<Rightarrow> ('t, 'd) pg_ops \<Rightarrow> relation \<Rightarrow> 't reorder_change \<Rightarrow>
    ('x plugin_state_scheme, unit) prog" where
  "output_avro_change A P rel change s =
     andthen (reset_frame A s) (\<lambda>_ s.
     or_error (update_frame_with_change A P rel change s) (\<lambda>s.
     or_error (write_frame A s) (Ret ())))"

end
