(* ===== verification/Plugin_Frames.thy ===== *)
theory Plugin_Frames
  imports Server_Views Logdecoder
begin

text \<open>
  What the output plugin (\<open>Logdecoder\<close>) writes. Every callback either leaves the command with an
  error or writes exactly one frame: the encoding of the messages that \<open>Server_Frames\<close> gives for the
  begin, the commit or the changed row.
\<close>

section \<open>What a call of the plugin writes\<close>

definition server_ok :: "('x server_frame_scheme) \<Rightarrow> bool" where
  "server_ok s \<longleftrightarrow> cache_ok (srv_cache s) \<and> has_schema (srv_frame s) frame_schema"

definition change_msgs :: "('z avro_io_scheme) \<Rightarrow> ('t, 'd) pg_ops \<Rightarrow> relation \<Rightarrow> relation option \<Rightarrow> 't reorder_change \<Rightarrow>
    wire_msg list option" where
  "change_msgs A P rel index change = (case change_action change of
     REORDER_BUFFER_CHANGE_INSERT \<Rightarrow>
       Option.bind (change_newtuple change) (insert_msgs A P rel index (rd_att rel))
   | REORDER_BUFFER_CHANGE_UPDATE \<Rightarrow>
       Option.bind (change_newtuple change) (update_msgs A P rel index (change_oldtuple change))
   | REORDER_BUFFER_CHANGE_DELETE \<Rightarrow> delete_msgs A P rel index (change_oldtuple change)
   | REORDER_BUFFER_CHANGE_INTERNAL \<Rightarrow> None)"

lemma change_msgs_rows:
  "change_msgs A P rel index change = Some ms \<Longrightarrow> m \<in> set ms \<Longrightarrow> row_msg (rd_id rel) (index \<noteq> None) m"
  by (auto simp: change_msgs_def bind_eq_Some_conv split: reorder_action.splits
      dest: insert_msgs_rows update_msgs_rows delete_msgs_rows)

text \<open>The messages of a frame together with its bytes.\<close>

definition framed :: "('z avro_io_scheme) \<Rightarrow> wire_msg list option \<Rightarrow> (wire_msg list \<times> bytes) option" where
  "framed A msgs = Option.bind msgs (\<lambda>ms. map_option (Pair ms) (binary_of A (frame_of ms)))"

text \<open>The plugin wrote the frame, or left the command with an error.\<close>

definition emits :: "(wire_msg list \<times> bytes) option \<Rightarrow> ('x plugin_state_scheme) \<Rightarrow> (wire_msg list \<Rightarrow> ('x plugin_state_scheme) \<Rightarrow> bool) \<Rightarrow>
    ('x plugin_state_scheme, unit) outcome \<Rightarrow> bool" where
  "emits spec s Q r = (case spec of
     None \<Rightarrow> \<exists>t. r = Exit ERROR t
   | Some (ms, b) \<Rightarrow> \<exists>t. r = Ret () t \<and> server_ok t \<and> plugin_out t = plugin_out s @ [b] \<and>
       plugin_refs t = plugin_refs s \<and> Q ms t)"

lemma plugin_fields:
  "server_frame.more t = server_frame.more s \<Longrightarrow>
    plugin_out t = plugin_out s \<and> plugin_refs t = plugin_refs (s :: 'x plugin_state_scheme)"
  by (cases s rule: plugin_state.cases_scheme; cases t rule: plugin_state.cases_scheme) simp

context avro_codec
begin

lemma reset_frame_ok:
  fixes s :: "'x server_frame_scheme"
  shows "has_schema (srv_frame s) frame_schema \<Longrightarrow> reset_frame A s = Ret () (s\<lparr>srv_frame := frame_of []\<rparr>)"
  using reset [of "srv_frame s" frame_schema] by (simp add: reset_frame_def default_frame)

lemma write_frame_ok:
  "write_frame A s = (case try_writing A (write_avro_binary A (srv_frame s)) of (e, b) \<Rightarrow>
     if e = 0 then Ret 0 (s\<lparr>plugin_out := plugin_out s @ [b]\<rparr>) else Ret e s)"
  by (simp add: write_frame_def check_get_def split: prod.split)

lemma write_emits:
  assumes r: "yields msgs (extends (s\<lparr>srv_frame := frame_of []\<rparr>)) r"
    and Q: "\<And>ms t b. r = Ret 0 t \<Longrightarrow> msgs = Some ms \<Longrightarrow> Q ms (t\<lparr>plugin_out := b\<rparr>)"
  shows "emits (framed A msgs) s Q (or_error r (\<lambda>s. or_error (write_frame A s) (Ret ())))"
proof (cases msgs)
  case None
  with r show ?thesis
    by (cases r) (auto simp: yields_def emits_def framed_def or_error_def)
next
  case (Some ms)
  with r obtain t where t: "r = Ret 0 t" "cache_ok (srv_cache t)" "srv_frame t = frame_of ms"
      "server_frame.more t = server_frame.more s"
    by (fastforce simp: yields_def extends_def)
  note f = plugin_fields [OF t(4)]
  obtain e b where b: "try_writing A (write_avro_binary A (frame_of ms)) = (e, b)" by fastforce
  show ?thesis
  proof (cases "e = 0")
    case True
    with t b Some f Q [OF t(1) Some, of "plugin_out s @ [b]"] show ?thesis
      by (simp add: emits_def framed_def or_error_def write_frame_ok binary_of_def written_def server_ok_def
          frame_of_schema)
  next
    case False
    with t b Some show ?thesis
      by (simp add: emits_def framed_def or_error_def write_frame_ok binary_of_def written_def)
  qed
qed

lemma output_avro_begin_txn_ok:
  assumes "server_ok s"
  shows "emits (framed A (Some [BeginTxn xid])) s (\<lambda>_ t. srv_cache t = srv_cache s) (output_avro_begin_txn A xid s)"
  unfolding output_avro_begin_txn_def
  using assms begin_txn_frame [of xid "[]"]
  by (auto simp: server_ok_def reset_frame_ok in_frame_def yields_def extends_def frame_of_def intro!: write_emits)

lemma output_avro_commit_txn_ok:
  assumes "server_ok s"
  shows "emits (framed A (Some [CommitTxn xid lsn])) s (\<lambda>_ t. srv_cache t = srv_cache s) (output_avro_commit_txn A xid lsn s)"
  unfolding output_avro_commit_txn_def
  using assms commit_txn_frame [of xid lsn "[]"]
  by (auto simp: server_ok_def reset_frame_ok in_frame_def yields_def extends_def frame_of_def intro!: write_emits)

lemma update_frame_with_change_ok:
  fixes s :: "'x plugin_state_scheme"
  assumes a: "relation_ok P rel" "tupdescs_compared P" "cache_ok (srv_cache s)"
    "key_index P rel = Some index" "srv_frame s = frame_of ms"
  shows "\<exists>changed. (changed \<or> told P rel index s) \<and>
    yields (due_msgs A P rel index changed (change_msgs A P rel index change)) (announces P rel index s)
      (update_frame_with_change A P rel change s)"
proof -
  have none: "\<exists>changed. (changed \<or> told P rel index s) \<and>
      yields (due_msgs A P rel index changed None) (announces P rel index s) (Exit ERROR s)"
    by (auto simp: due_msgs_def yields_def intro!: exI [of _ True] split: option.split bind_split)
  note defs = change_msgs_def update_frame_with_change_def
  show ?thesis
  proof (cases "change_action change")
    case REORDER_BUFFER_CHANGE_INSERT
    have fmt: "tuple_format rel (rd_att rel)" by (simp add: tuple_format_def)
    have "\<exists>changed. (changed \<or> told P rel index s) \<and>
        yields (due_msgs A P rel index changed (insert_msgs A P rel index (rd_att rel) tuple)) (announces P rel index s)
          (update_frame_with_insert A P rel (rd_att rel) tuple s)" for tuple
      by (rule insert_sends [OF a fmt, where tuple = tuple]) (rule exI, rule conjI)
    with none REORDER_BUFFER_CHANGE_INSERT show ?thesis
      by (cases "change_newtuple change") (simp_all add: defs)
  next
    case REORDER_BUFFER_CHANGE_UPDATE
    have "\<exists>changed. (changed \<or> told P rel index s) \<and>
        yields (due_msgs A P rel index changed (update_msgs A P rel index old new)) (announces P rel index s)
          (update_frame_with_update A P rel old new s)" for old new
      by (rule update_sends [OF a, where old = old and new = new]) (rule exI, rule conjI)
    with none REORDER_BUFFER_CHANGE_UPDATE show ?thesis
      by (cases "change_newtuple change") (simp_all add: defs)
  next
    case REORDER_BUFFER_CHANGE_DELETE
    have "\<exists>changed. (changed \<or> told P rel index s) \<and>
        yields (due_msgs A P rel index changed (delete_msgs A P rel index old)) (announces P rel index s)
          (update_frame_with_delete A P rel old s)" for old
      by (rule delete_sends [OF a, where old = old]) (rule exI, rule conjI)
    with REORDER_BUFFER_CHANGE_DELETE show ?thesis by (simp add: defs)
  next
    case REORDER_BUFFER_CHANGE_INTERNAL
    with none show ?thesis by (simp add: defs)
  qed
qed

lemma output_avro_change_ok:
  fixes s :: "'x plugin_state_scheme"
  assumes s: "server_ok s" and rel: "relation_ok P rel" and P: "tupdescs_compared P" and idx: "key_index P rel = Some index"
  shows "\<exists>changed. (changed \<or> told P rel index s) \<and>
    emits (framed A (due_msgs A P rel index changed (change_msgs A P rel index change))) s
      (\<lambda>_ t. cache_view (srv_cache t) = (cache_view (srv_cache s))(rd_id rel \<mapsto> table_schemas P rel index))
      (output_avro_change A P rel change s)"
proof -
  let ?s = "s\<lparr>srv_frame := frame_of []\<rparr>"
  have hs: "has_schema (srv_frame s) frame_schema" and ok: "cache_ok (srv_cache ?s)" and fr: "srv_frame ?s = frame_of []"
    using s by (simp_all add: server_ok_def)
  obtain changed where c: "(changed \<or> told P rel index ?s) \<and>
      yields (due_msgs A P rel index changed (change_msgs A P rel index change)) (announces P rel index ?s)
        (update_frame_with_change A P rel change ?s)"
    by (rule exE [OF update_frame_with_change_ok [OF rel P ok idx fr, of change]])
  have "emits (framed A (due_msgs A P rel index changed (change_msgs A P rel index change))) s
      (\<lambda>_ t. cache_view (srv_cache t) = (cache_view (srv_cache s))(rd_id rel \<mapsto> table_schemas P rel index))
      (or_error (update_frame_with_change A P rel change ?s) (\<lambda>s. or_error (write_frame A s) (Ret ())))"
  proof (rule write_emits)
    show "yields (due_msgs A P rel index changed (change_msgs A P rel index change)) (extends ?s)
        (update_frame_with_change A P rel change ?s)"
      using c by (auto simp: yields_def announces_def split: option.splits)
    fix ms t b assume "update_frame_with_change A P rel change ?s = Ret 0 t"
      "due_msgs A P rel index changed (change_msgs A P rel index change) = Some ms"
    with c show "cache_view (srv_cache (t\<lparr>plugin_out := b\<rparr>)) = (cache_view (srv_cache s))(rd_id rel \<mapsto> table_schemas P rel index)"
      by (simp add: yields_def announces_def)
  qed
  moreover have "changed \<or> told P rel index s" using c by (simp add: told_def)
  ultimately show ?thesis
    unfolding output_avro_change_def reset_frame_ok [OF hs] andthen.simps by (intro exI conjI)
qed

end

lemma output_avro_startup_ok:
  assumes "avro_codec A" and "output_avro_startup A = Some s"
  shows "server_ok s" and "cache_view (srv_cache s) = Map.empty" and "plugin_out s = []" and "plugin_refs s = Valid ()"
  using assms avro_codec.value_new [OF assms(1), of frame_schema] schema_cache_new_ok
  by (auto simp: output_avro_startup_def schema_for_frame_eq server_ok_def has_schema_default)

lemma output_avro_shutdown_ok:
  "server_ok s \<Longrightarrow> plugin_refs s = Valid () \<Longrightarrow> \<exists>t. output_avro_shutdown s = Ret () t \<and> plugin_out t = plugin_out s"
  by (simp add: server_ok_def output_avro_shutdown_def in_cache_def schema_cache_free_ok)

end
