(* ===== verification/End_To_End.thy ===== *)
theory End_To_End
  imports Client_Calls Plugin_Frames
begin

text \<open>
  From the server to the application. The plugin writes the frames of a sequence of log events, the
  client parses them: server and client stay in step (\<open>in_sync\<close>: the client knows the schemas that
  the server's cache says it has sent), the calls of the application are those of the events, in
  their order and with the rows and keys of the tuples, and the client's data structures stay
  well-formed, whatever happens to the tables' schemas in between.
\<close>

section \<open>The calls for a changed row\<close>

definition row_val :: "('t, 'd) pg_ops \<Rightarrow> relation \<Rightarrow> tupdesc \<Rightarrow> 't \<Rightarrow> avro_val option" where
  "row_val P rel td tuple = row_of_tuple P (schema_for_table_row P rel) td tuple"

definition key_val :: "('t, 'd) pg_ops \<Rightarrow> relation \<Rightarrow> relation option \<Rightarrow> tupdesc \<Rightarrow> 't \<Rightarrow> avro_val option option" where
  "key_val P rel index td tuple =
     if_some (\<lambda>idx. key_of_tuple P (schema_for_table_row P idx) rel idx td tuple) index"

definition old_val :: "('t, 'd) pg_ops \<Rightarrow> relation \<Rightarrow> relation option \<Rightarrow> 't option \<Rightarrow>
    (avro_val option \<times> avro_val option) option" where
  "old_val P rel index old = (case old of
     None \<Rightarrow> Some (None, None)
   | Some tuple \<Rightarrow> Option.bind (key_val P rel index (rd_att rel) tuple) (\<lambda>k.
       map_option (\<lambda>v. (k, Some v)) (row_val P rel (rd_att rel) tuple)))"

text \<open>An update that changes the key is shown as a delete of the old key and an insert of the new one.\<close>

definition update_call :: "u64 \<Rightarrow> Oid \<Rightarrow> avro_val option \<Rightarrow> avro_val option \<Rightarrow> avro_val option \<Rightarrow> avro_val \<Rightarrow> call list" where
  "update_call w r ok l k n =
     (if ok \<noteq> None \<and> ok \<noteq> k then [OnDelete w r ok l, OnInsert w r k n] else [OnUpdate w r k l n])"

definition insert_calls :: "u64 \<Rightarrow> ('t, 'd) pg_ops \<Rightarrow> relation \<Rightarrow> relation option \<Rightarrow> tupdesc \<Rightarrow> 't \<Rightarrow> call list option" where
  "insert_calls w P rel index td tuple =
     Option.bind (key_val P rel index td tuple) (\<lambda>k.
       map_option (\<lambda>n. [OnInsert w (rd_id rel) k n]) (row_val P rel td tuple))"

definition update_calls :: "u64 \<Rightarrow> ('t, 'd) pg_ops \<Rightarrow> relation \<Rightarrow> relation option \<Rightarrow> 't option \<Rightarrow> 't \<Rightarrow> call list option" where
  "update_calls w P rel index old new =
     Option.bind (old_val P rel index old) (\<lambda>(ok, l).
     Option.bind (key_val P rel index (rd_att rel) new) (\<lambda>k.
       map_option (update_call w (rd_id rel) ok l k) (row_val P rel (rd_att rel) new)))"

definition delete_calls :: "u64 \<Rightarrow> ('t, 'd) pg_ops \<Rightarrow> relation \<Rightarrow> relation option \<Rightarrow> 't option \<Rightarrow> call list option" where
  "delete_calls w P rel index old = map_option (\<lambda>(k, l). [OnDelete w (rd_id rel) k l]) (old_val P rel index old)"

definition change_calls :: "u64 \<Rightarrow> ('t, 'd) pg_ops \<Rightarrow> relation \<Rightarrow> relation option \<Rightarrow> 't reorder_change \<Rightarrow> call list option" where
  "change_calls w P rel index change = (case change_action change of
     REORDER_BUFFER_CHANGE_INSERT \<Rightarrow>
       Option.bind (change_newtuple change) (insert_calls w P rel index (rd_att rel))
   | REORDER_BUFFER_CHANGE_UPDATE \<Rightarrow>
       Option.bind (change_newtuple change) (update_calls w P rel index (change_oldtuple change))
   | REORDER_BUFFER_CHANGE_DELETE \<Rightarrow> delete_calls w P rel index (change_oldtuple change)
   | REORDER_BUFFER_CHANGE_INTERNAL \<Rightarrow> None)"

definition schema_calls :: "u64 \<Rightarrow> ('t, 'd) pg_ops \<Rightarrow> relation \<Rightarrow> relation option \<Rightarrow> bool \<Rightarrow> call list" where
  "schema_calls w P rel index changed = (if changed
     then [OnSchema w (rd_id rel) (map_option (schema_for_table_row P) index) (schema_for_table_row P rel)] else [])"

section \<open>The messages mean these calls\<close>

context avro_codec
begin

lemma encodes_inj:
  assumes "encodes A \<sigma> v b" and "encodes A \<sigma> v' b'"
  shows "b = b' \<longleftrightarrow> v = v'"
proof -
  obtain n n' where w: "avro_value_write A v n = (0, b)" "has_schema v \<sigma>" "avro_value_write A v' n' = (0, b')" "has_schema v' \<sigma>"
    using assms by (auto simp: encodes_def)
  show ?thesis
  proof
    assume "b = b'"
    with read_write [OF w(1,2,2), of "[]"] read_write [OF w(3,4,2), of "[]"] show "v = v'" by simp
  next
    assume "v = v'"
    with w(3) have "avro_value_write A v n' = (0, b')" by simp
    with write_room [OF w(1), of n'] show "b = b'" by (simp split: if_splits)
  qed
qed

lemma encodes_opt_inj:
  assumes "encodes_opt A \<sigma> k b" and "encodes_opt A \<sigma> k' b'"
  shows "b = b' \<longleftrightarrow> k = k'" and "b = None \<longleftrightarrow> k = None"
proof -
  show "b = None \<longleftrightarrow> k = None" using assms(1) by (cases k; cases b) simp_all
  show "b = b' \<longleftrightarrow> k = k'"
  proof (cases "k \<noteq> None \<and> k' \<noteq> None")
    case True
    with assms obtain s v c v' c' where "k = Some v" "b = Some c" "k' = Some v'" "b' = Some c'" "encodes A s v c" "encodes A s v' c'"
      by (cases k; cases k'; cases b; cases b') auto
    with encodes_inj [of s v c v' c'] show ?thesis by simp
  next
    case False
    with assms show ?thesis by (cases k; cases k'; cases b; cases b') simp_all
  qed
qed

lemma binary_encodes: "binary_of A v = Some b \<Longrightarrow> has_schema v \<sigma> \<Longrightarrow> encodes A \<sigma> v b"
  by (auto simp: encodes_def dest: binary_of_written)

lemma row_bytes_val:
  assumes b: "row_bytes A P rel td tuple = Some b" and td: "live td = live (rd_att rel)"
  obtains v where "row_val P rel td tuple = Some v" "encodes A (schema_for_table_row P rel) v b"
proof -
  obtain v where v: "row_of_tuple P (schema_for_table_row P rel) td tuple = Some v" "binary_of A v = Some b"
    using b by (auto simp: row_bytes_def bind_eq_Some_conv)
  with tuple_to_avro_row_ok [OF has_schema_default td, of P tuple] have "has_schema v (schema_for_table_row P rel)" by simp
  with v that [of v] show ?thesis by (simp add: row_val_def binary_encodes)
qed

lemma key_bytes_val:
  assumes b: "key_bytes A P rel index td tuple = Some b" and td: "tuple_format rel td" and rel: "relation_ok P rel"
    and idx: "key_index P rel = Some index"
  obtains k where "key_val P rel index td tuple = Some k"
    "encodes_opt A (map_option (schema_for_table_row P) index) k b"
proof (cases index)
  case None
  with b that [of None] show ?thesis by (simp add: key_bytes_def key_val_def)
next
  case (Some i)
  with b obtain v c where v: "key_of_tuple P (schema_for_table_row P i) rel i td tuple = Some v" "binary_of A v = Some c" "b = Some c"
    by (auto simp: key_bytes_def bind_eq_Some_conv)
  have "key_index_ok rel i" using rel idx Some by (simp add: relation_ok_def)
  from tuple_to_avro_key_ok [OF has_schema_default td this, of P tuple] v(1)
  have "has_schema v (schema_for_table_row P i)" by simp
  with v Some that [of "Some v"] show ?thesis by (simp add: key_val_def binary_encodes)
qed

lemma old_bytes_val:
  assumes b: "old_bytes A P rel index old = Some (kb, lb)" and rel: "relation_ok P rel" and idx: "key_index P rel = Some index"
  obtains k l where "old_val P rel index old = Some (k, l)"
    "encodes_opt A (map_option (schema_for_table_row P) index) k kb"
    "encodes_opt A (Some (schema_for_table_row P rel)) l lb"
proof (cases old)
  case None
  with b that [of None None] show ?thesis by (simp add: old_bytes_def old_val_def)
next
  case (Some tuple)
  with b obtain c where c: "key_bytes A P rel index (rd_att rel) tuple = Some kb" "row_bytes A P rel (rd_att rel) tuple = Some c" "lb = Some c"
    by (auto simp: old_bytes_def bind_eq_Some_conv)
  have "tuple_format rel (rd_att rel)" by (simp add: tuple_format_def)
  obtain k where k: "key_val P rel index (rd_att rel) tuple = Some k" "encodes_opt A (map_option (schema_for_table_row P) index) k kb"
    using key_bytes_val [OF c(1) \<open>tuple_format rel (rd_att rel)\<close> rel idx] .
  obtain v where v: "row_val P rel (rd_att rel) tuple = Some v" "encodes A (schema_for_table_row P rel) v c"
    using row_bytes_val [OF c(2) refl] .
  show ?thesis by (rule that [of k "Some v"]) (use Some k v c(3) in \<open>simp_all add: old_val_def\<close>)
qed

text \<open>The rows, for a client that has the table's schemas.\<close>

lemma insert_mean:
  assumes ms: "insert_msgs A P rel index td tuple = Some ms" and td: "tuple_format rel td" and rel: "relation_ok P rel"
    and idx: "key_index P rel = Some index" and V: "V (rd_id rel) = Some (table_schemas P rel index)"
  shows "\<exists>cs. insert_calls w P rel index td tuple = Some cs \<and> all_mean A V w ms cs"
proof -
  obtain kb nb where b: "key_bytes A P rel index td tuple = Some kb" "row_bytes A P rel td tuple = Some nb" "ms = [Insert (rd_id rel) kb nb]"
    using ms by (auto simp: insert_msgs_def bind_eq_Some_conv)
  obtain k where k: "key_val P rel index td tuple = Some k" "encodes_opt A (map_option (schema_for_table_row P) index) k kb"
    using key_bytes_val [OF b(1) td rel idx] .
  obtain n where n: "row_val P rel td tuple = Some n" "encodes A (schema_for_table_row P rel) n nb"
    using row_bytes_val [OF b(2) tuple_format_live [OF td]] .
  show ?thesis using b(3) k n V by (auto simp: insert_calls_def table_schemas_def)
qed

lemma delete_mean:
  assumes ms: "delete_msgs A P rel index old = Some ms" and rel: "relation_ok P rel"
    and idx: "key_index P rel = Some index" and V: "V (rd_id rel) = Some (table_schemas P rel index)"
  shows "\<exists>cs. delete_calls w P rel index old = Some cs \<and> all_mean A V w ms cs"
proof -
  obtain kb lb where b: "old_bytes A P rel index old = Some (kb, lb)" "ms = [Delete (rd_id rel) kb lb]"
    using ms by (auto simp: delete_msgs_def)
  obtain k l where kl: "old_val P rel index old = Some (k, l)"
      "encodes_opt A (map_option (schema_for_table_row P) index) k kb"
      "encodes_opt A (Some (schema_for_table_row P rel)) l lb"
    using old_bytes_val [OF b(1) rel idx] .
  show ?thesis using b(2) kl V by (auto simp: delete_calls_def table_schemas_def)
qed

lemma update_mean:
  assumes ms: "update_msgs A P rel index old new = Some ms" and rel: "relation_ok P rel"
    and idx: "key_index P rel = Some index" and V: "V (rd_id rel) = Some (table_schemas P rel index)"
  shows "\<exists>cs. update_calls w P rel index old new = Some cs \<and> all_mean A V w ms cs"
proof -
  have fmt: "tuple_format rel (rd_att rel)" by (simp add: tuple_format_def)
  obtain okb lb kb nb where b: "old_bytes A P rel index old = Some (okb, lb)"
      "key_bytes A P rel index (rd_att rel) new = Some kb" "row_bytes A P rel (rd_att rel) new = Some nb"
      "ms = update_msg (rd_id rel) okb lb kb nb"
    using ms by (auto simp: update_msgs_def bind_eq_Some_conv)
  obtain ok l where ol: "old_val P rel index old = Some (ok, l)"
      "encodes_opt A (map_option (schema_for_table_row P) index) ok okb"
      "encodes_opt A (Some (schema_for_table_row P rel)) l lb"
    using old_bytes_val [OF b(1) rel idx] .
  obtain k where k: "key_val P rel index (rd_att rel) new = Some k" "encodes_opt A (map_option (schema_for_table_row P) index) k kb"
    using key_bytes_val [OF b(2) fmt rel idx] .
  obtain n where n: "row_val P rel (rd_att rel) new = Some n" "encodes A (schema_for_table_row P rel) n nb"
    using row_bytes_val [OF b(3) refl] .
  have "okb \<noteq> None \<and> okb \<noteq> kb \<longleftrightarrow> ok \<noteq> None \<and> ok \<noteq> k"
    using encodes_opt_inj [OF ol(2) k(2)] by simp
  moreover have "all_mean A V w [Delete (rd_id rel) okb lb, Insert (rd_id rel) kb nb] [OnDelete w (rd_id rel) ok l, OnInsert w (rd_id rel) k n]"
    using ol k n V by (auto simp: table_schemas_def)
  moreover have "all_mean A V w [Update (rd_id rel) kb lb nb] [OnUpdate w (rd_id rel) k l n]"
    using ol k n V by (auto simp: table_schemas_def)
  ultimately have "all_mean A V w ms (update_call w (rd_id rel) ok l k n)"
    unfolding b(4) update_msg_def update_call_def by (cases "ok \<noteq> None \<and> ok \<noteq> k") (simp_all only: if_True if_False not_False_eq_True simp_thms)
  with ol k n show ?thesis by (simp add: update_calls_def)
qed

lemma change_mean:
  assumes ms: "change_msgs A P rel index change = Some ms" and rel: "relation_ok P rel"
    and idx: "key_index P rel = Some index" and V: "V (rd_id rel) = Some (table_schemas P rel index)"
  shows "\<exists>cs. change_calls w P rel index change = Some cs \<and> all_mean A V w ms cs"
proof -
  have fmt: "tuple_format rel (rd_att rel)" by (simp add: tuple_format_def)
  show ?thesis
    using ms insert_mean [where V = V, OF _ fmt rel idx V] update_mean [where V = V, OF _ rel idx V] delete_mean [where V = V, OF _ rel idx V]
    by (cases "change_action change") (auto simp: change_msgs_def change_calls_def bind_eq_Some_conv)
qed

lemma schema_mean:
  assumes "schema_msgs A P rel index changed = Some ms"
  shows "all_mean A V w ms (schema_calls w P rel index changed)"
  using assms
  by (cases index; cases changed) (auto simp: schema_msgs_def schema_calls_def schema_msg_def bind_eq_Some_conv
      dest!: json_of_parsed)

lemma all_mean_append:
  "all_mean A V w a cs \<Longrightarrow> all_mean A (foldl (msg_view A) V a) w b ds \<Longrightarrow> all_mean A V w (a @ b) (cs @ ds)"
  by (induction a arbitrary: V cs) auto

lemma sent_mean:
  assumes sent: "due_msgs A P rel index changed rows = Some ms"
    and told: "changed \<or> V (rd_id rel) = Some (table_schemas P rel index)"
    and rows: "\<And>rs V. rows = Some rs \<Longrightarrow> V (rd_id rel) = Some (table_schemas P rel index) \<Longrightarrow>
      \<exists>cs. spec = Some cs \<and> all_mean A V w rs cs"
  shows "\<exists>cs. spec = Some cs \<and> all_mean A V w ms (schema_calls w P rel index changed @ cs)"
proof -
  obtain a b where ab: "schema_msgs A P rel index changed = Some a" "rows = Some b" "ms = a @ b"
    using sent by (auto simp: due_msgs_def bind_eq_Some_conv)
  let ?V = "foldl (msg_view A) V a"
  have "?V (rd_id rel) = Some (table_schemas P rel index)" using schema_msgs_view(2) [where V = V, OF ab(1) told] by simp
  from rows [where V = ?V, OF ab(2) this] obtain cs where "spec = Some cs" "all_mean A ?V w b cs" by blast
  with all_mean_append [OF schema_mean [OF ab(1)]] ab(3) show ?thesis by blast
qed

end

section \<open>Server and client in step\<close>

text \<open>The client knows of each table what the server's cache says it has been told.\<close>

definition in_sync :: "('x server_frame_scheme) \<Rightarrow> ('y frame_reader_scheme) \<Rightarrow> bool" where
  "in_sync s c \<longleftrightarrow> server_ok s \<and> reader_ok c \<and> cache_view (srv_cache s) \<subseteq>\<^sub>m client_view c"

text \<open>
  What the server decodes from the log: a change comes with the catalog at its time, which may
  differ from one change to the next.
\<close>

datatype ('t, 'd) event =
    Begin u32
  | Change "('t, 'd) pg_ops" relation "'t reorder_change"
  | Commit u32 XLogRecPtr

fun event_ok :: "('t, 'd) event \<Rightarrow> bool" where
  "event_ok (Change P rel change) \<longleftrightarrow> relation_ok P rel \<and> tupdescs_compared P \<and> key_index P rel \<noteq> None"
| "event_ok ev \<longleftrightarrow> True"

fun plugin_event :: "('z avro_io_scheme) \<Rightarrow> ('t, 'd) event \<Rightarrow> ('x plugin_state_scheme, unit) prog" where
  "plugin_event A (Begin xid) s = output_avro_begin_txn A xid s"
| "plugin_event A (Change P rel change) s = output_avro_change A P rel change s"
| "plugin_event A (Commit xid lsn) s = output_avro_commit_txn A xid lsn s"

fun plugin_run :: "('z avro_io_scheme) \<Rightarrow> ('t, 'd) event list \<Rightarrow> ('x plugin_state_scheme, unit) prog" where
  "plugin_run A [] s = Ret () s"
| "plugin_run A (ev # evs) s = andthen (plugin_event A ev s) (\<lambda>_. plugin_run A evs)"

text \<open>The client parses the frames one after the other and stops at an error.\<close>

fun parse_frames :: "('z avro_io_scheme) \<Rightarrow> ('y frame_reader_scheme) callbacks \<Rightarrow> (u64 \<times> bytes) list \<Rightarrow>
    ('y frame_reader_scheme, int) prog" where
  "parse_frames A cb [] c = Ret 0 c"
| "parse_frames A cb ((w, b) # fs) c = check (parse_frame A cb w b c) (parse_frames A cb fs)"

text \<open>The calls for an event. A schema call comes first if the schemas are due.\<close>

fun event_calls :: "u64 \<Rightarrow> ('t, 'd) event \<Rightarrow> call list \<Rightarrow> bool" where
  "event_calls w (Begin xid) cs \<longleftrightarrow> cs = [OnBegin w xid]"
| "event_calls w (Commit xid lsn) cs \<longleftrightarrow> cs = [OnCommit w xid]"
| "event_calls w (Change P rel change) cs \<longleftrightarrow> (\<exists>index changed rows. key_index P rel = Some index \<and>
     change_calls w P rel index change = Some rows \<and> cs = schema_calls w P rel index changed @ rows)"

fun writable :: "('z avro_io_scheme) \<Rightarrow> ('t, 'd) event \<Rightarrow> bool" where
  "writable A (Begin xid) \<longleftrightarrow> framed A (Some [BeginTxn xid]) \<noteq> None"
| "writable A (Commit xid lsn) \<longleftrightarrow> framed A (Some [CommitTxn xid lsn]) \<noteq> None"
| "writable A (Change P rel change) \<longleftrightarrow> (case key_index P rel of
     None \<Rightarrow> False
   | Some index \<Rightarrow> \<forall>changed. framed A (due_msgs A P rel index changed (change_msgs A P rel index change)) \<noteq> None)"

lemma emitsD:
  assumes "emits (framed A msgs) s Q (Ret () t)"
  obtains ms b where "msgs = Some ms" "binary_of A (frame_of ms) = Some b" "server_ok t"
    "plugin_out t = plugin_out s @ [b]" "Q ms t"
  using assms by (auto simp: emits_def framed_def bind_eq_Some_conv split: option.splits)

context avro_codec
begin

lemma change_frame:
  assumes s: "server_ok s" and P: "relation_ok P rel" "tupdescs_compared P" "key_index P rel = Some index"
    and run: "output_avro_change A P rel change s = Ret () t" and V: "cache_view (srv_cache s) \<subseteq>\<^sub>m V"
  obtains changed ms b where "changed \<or> V (rd_id rel) = Some (table_schemas P rel index)"
    "due_msgs A P rel index changed (change_msgs A P rel index change) = Some ms"
    "binary_of A (frame_of ms) = Some b" "server_ok t" "plugin_out t = plugin_out s @ [b]"
    "msgs_ok A V ms" "cache_view (srv_cache t) \<subseteq>\<^sub>m foldl (msg_view A) V ms"
proof -
  obtain changed where ch: "changed \<or> told P rel index s"
      "emits (framed A (due_msgs A P rel index changed (change_msgs A P rel index change))) s
        (\<lambda>_ t. cache_view (srv_cache t) = (cache_view (srv_cache s))(rd_id rel \<mapsto> table_schemas P rel index)) (Ret () t)"
    using output_avro_change_ok [OF s P, of change] run by auto
  obtain ms b where ms: "due_msgs A P rel index changed (change_msgs A P rel index change) = Some ms"
      "binary_of A (frame_of ms) = Some b" "server_ok t" "plugin_out t = plugin_out s @ [b]"
      "cache_view (srv_cache t) = (cache_view (srv_cache s))(rd_id rel \<mapsto> table_schemas P rel index)"
    using emitsD [OF ch(2)] .
  have rows: "row_msg (rd_id rel) (index \<noteq> None) m" if "change_msgs A P rel index change = Some ms'" "m \<in> set ms'" for ms' m
    using that by (rule change_msgs_rows)
  have "changed \<or> V (rd_id rel) = Some (table_schemas P rel index)"
    using ch(1) V by (auto simp: told_def map_le_def dom_def)
  from this ms(1-4) due_msgs_view [OF ms(1) rows ch(1) V ms(5)] show ?thesis by (rule that)
qed

lemma event_frame:
  assumes s: "server_ok s" and ev: "event_ok ev" and run: "plugin_event A ev s = Ret () t"
    and V: "cache_view (srv_cache s) \<subseteq>\<^sub>m V"
  shows "\<exists>ms b. binary_of A (frame_of ms) = Some b \<and> plugin_out t = plugin_out s @ [b] \<and> server_ok t \<and>
      msgs_ok A V ms \<and> cache_view (srv_cache t) \<subseteq>\<^sub>m foldl (msg_view A) V ms"
proof (cases ev)
  case (Begin xid)
  then show ?thesis
    using output_avro_begin_txn_ok [OF s, of xid] run V
    by (auto elim!: emitsD intro!: exI [of _ "[BeginTxn xid]"])
next
  case (Commit xid lsn)
  then show ?thesis
    using output_avro_commit_txn_ok [OF s, of xid lsn] run V
    by (auto elim!: emitsD intro!: exI [of _ "[CommitTxn xid lsn]"])
next
  case (Change P rel change)
  then obtain index where P: "relation_ok P rel" "tupdescs_compared P" "key_index P rel = Some index" using ev by auto
  have "output_avro_change A P rel change s = Ret () t" using run Change by simp
  from change_frame [OF s P this V] show ?thesis by blast
qed

lemma event_delivered:
  fixes c :: "'y recording_reader_scheme"
  assumes sync: "in_sync s c" and ev: "event_ok ev" and run: "plugin_event A ev s = Ret () t"
  obtains b where "plugin_out t = plugin_out s @ [b]"
    "\<forall>w. \<exists>d cs. parse_frame A recorder w b c = Ret 0 d \<and> calls d = calls c @ cs \<and> event_calls w ev cs \<and> in_sync t d"
proof -
  have s: "server_ok s" "reader_ok c" and V: "cache_view (srv_cache s) \<subseteq>\<^sub>m client_view c"
    using sync by (simp_all add: in_sync_def)
  show ?thesis
  proof (cases ev)
    case (Begin xid)
    obtain b where b: "binary_of A (frame_of [BeginTxn xid]) = Some b" "server_ok t"
        "plugin_out t = plugin_out s @ [b]" "srv_cache t = srv_cache s"
      using output_avro_begin_txn_ok [OF s(1), of xid] run Begin by (auto elim!: emitsD)
    have "\<exists>d cs. parse_frame A recorder w b c = Ret 0 d \<and> calls d = calls c @ cs \<and> event_calls w ev cs \<and> in_sync t d" for w
      using parse_frame_means [OF b(1) s(2), of w "[OnBegin w xid]"] b Begin sync by (auto simp: in_sync_def)
    then show ?thesis by (intro that [OF b(3)] allI)
  next
    case (Commit xid lsn)
    obtain b where b: "binary_of A (frame_of [CommitTxn xid lsn]) = Some b" "server_ok t"
        "plugin_out t = plugin_out s @ [b]" "srv_cache t = srv_cache s"
      using output_avro_commit_txn_ok [OF s(1), of xid lsn] run Commit by (auto elim!: emitsD)
    have "\<exists>d cs. parse_frame A recorder w b c = Ret 0 d \<and> calls d = calls c @ cs \<and> event_calls w ev cs \<and> in_sync t d" for w
      using parse_frame_means [OF b(1) s(2), of w "[OnCommit w xid]"] b Commit sync by (auto simp: in_sync_def)
    then show ?thesis by (intro that [OF b(3)] allI)
  next
    case (Change P rel change)
    then obtain index where P: "relation_ok P rel" "tupdescs_compared P" "key_index P rel = Some index" using ev by auto
    have "output_avro_change A P rel change s = Ret () t" using run Change by simp
    then obtain changed ms b where ms: "changed \<or> client_view c (rd_id rel) = Some (table_schemas P rel index)"
        "due_msgs A P rel index changed (change_msgs A P rel index change) = Some ms"
        "binary_of A (frame_of ms) = Some b" "server_ok t" "plugin_out t = plugin_out s @ [b]"
        "msgs_ok A (client_view c) ms" "cache_view (srv_cache t) \<subseteq>\<^sub>m foldl (msg_view A) (client_view c) ms"
      using change_frame [OF s(1) P _ V] by blast
    have "\<exists>d cs. parse_frame A recorder w b c = Ret 0 d \<and> calls d = calls c @ cs \<and> event_calls w ev cs \<and> in_sync t d" for w
    proof -
      obtain rows where rows: "change_calls w P rel index change = Some rows"
          "all_mean A (client_view c) w ms (schema_calls w P rel index changed @ rows)"
        using sent_mean [where V = "client_view c" and w = w, OF ms(2,1) change_mean [OF _ P(1,3)]] by blast
      obtain d where d: "parse_frame A recorder w b c = Ret 0 d" "reader_ok d"
          "client_view d = foldl (msg_view A) (client_view c) ms" "calls d = calls c @ schema_calls w P rel index changed @ rows"
        using parse_frame_means [OF ms(3) s(2) rows(2)] by blast
      have "event_calls w ev (schema_calls w P rel index changed @ rows)" using P(3) rows(1) Change by auto
      moreover have "in_sync t d" using d ms by (simp add: in_sync_def)
      ultimately show ?thesis using d by blast
    qed
    then show ?thesis by (intro that [OF ms(5)] allI)
  qed
qed

lemma run_delivered:
  fixes c :: "'y recording_reader_scheme"
  assumes "in_sync s c" and "\<forall>ev \<in> set evs. event_ok ev" and "plugin_run A evs s = Ret () t"
  shows "\<exists>bs. plugin_out t = plugin_out s @ bs \<and> length bs = length evs \<and>
    (\<forall>ws. length ws = length evs \<longrightarrow> (\<exists>d css. parse_frames A recorder (zip ws bs) c = Ret 0 d \<and>
      calls d = calls c @ concat css \<and> list_all2 (\<lambda>(w, ev). event_calls w ev) (zip ws evs) css \<and> in_sync t d))"
  using assms
proof (induction evs arbitrary: s c)
  case Nil
  then show ?case by simp
next
  case (Cons ev evs)
  obtain u where u: "plugin_event A ev s = Ret () u" "plugin_run A evs u = Ret () t"
    using Cons.prems(3) by (auto simp: andthen_eq_Ret)
  have ev: "event_ok ev" and evs: "\<forall>ev \<in> set evs. event_ok ev" using Cons.prems(2) by simp_all
  obtain b where b: "plugin_out u = plugin_out s @ [b]"
    "\<forall>w. \<exists>d cs. parse_frame A recorder w b c = Ret 0 d \<and> calls d = calls c @ cs \<and> event_calls w ev cs \<and> in_sync u d"
    using event_delivered [OF Cons.prems(1) ev u(1)] .
  note IH = Cons.IH [OF _ evs u(2)]
  obtain d0 :: "'y recording_reader_scheme" where "in_sync u d0" using b(2) by blast
  from IH [OF this] obtain bs where bs: "plugin_out t = plugin_out u @ bs" "length bs = length evs" by blast
  show ?case
  proof (intro exI [of _ "b # bs"] conjI allI impI)
    show "plugin_out t = plugin_out s @ b # bs" using b(1) bs(1) by simp
    show "length (b # bs) = length (ev # evs)" using bs(2) by simp
    fix ws :: "u64 list" assume "length ws = length (ev # evs)"
    then obtain w ws' where ws: "ws = w # ws'" "length ws' = length evs" by (cases ws) auto
    obtain d cs where d: "parse_frame A recorder w b c = Ret 0 d" "calls d = calls c @ cs" "event_calls w ev cs" "in_sync u d"
      using b(2) by blast
    from IH [OF d(4)] bs ws(2) obtain e css where e: "parse_frames A recorder (zip ws' bs) d = Ret 0 e"
        "calls e = calls d @ concat css" "list_all2 (\<lambda>(w, ev). event_calls w ev) (zip ws' evs) css" "in_sync t e"
      by auto
    show "\<exists>e css. parse_frames A recorder (zip ws (b # bs)) c = Ret 0 e \<and> calls e = calls c @ concat css \<and>
        list_all2 (\<lambda>(w, ev). event_calls w ev) (zip ws (ev # evs)) css \<and> in_sync t e"
      by (rule exI [of _ e], rule exI [of _ "cs # css"]) (use d e ws in simp)
  qed
qed

text \<open>
  The plugin does write the frames if they can be written: the frame of each event exists, with and
  without the schema message.
\<close>

lemma run_returns:
  assumes "server_ok s" and "\<forall>ev \<in> set evs. event_ok ev \<and> writable A ev"
  shows "\<exists>t. plugin_run A evs s = Ret () t"
  using assms
proof (induction evs arbitrary: s)
  case (Cons ev evs)
  have ev: "event_ok ev" "writable A ev" using Cons.prems(2) by simp_all
  obtain u where u: "plugin_event A ev s = Ret () u"
  proof (cases ev)
    case (Begin xid)
    with output_avro_begin_txn_ok [OF Cons.prems(1), of xid] ev(2) that show ?thesis by (auto simp: emits_def)
  next
    case (Commit xid lsn)
    with output_avro_commit_txn_ok [OF Cons.prems(1), of xid lsn] ev(2) that show ?thesis by (auto simp: emits_def)
  next
    case (Change P rel change)
    then obtain index where P: "relation_ok P rel" "tupdescs_compared P" "key_index P rel = Some index" using ev(1) by auto
    obtain changed Q where e: "emits (framed A (due_msgs A P rel index changed (change_msgs A P rel index change))) s Q
        (output_avro_change A P rel change s)"
      using output_avro_change_ok [OF Cons.prems(1) P, of change] by blast
    have "framed A (due_msgs A P rel index changed (change_msgs A P rel index change)) \<noteq> None"
      using ev(2) Change P(3) by (cases changed) simp_all
    then obtain f where "framed A (due_msgs A P rel index changed (change_msgs A P rel index change)) = Some f" by blast
    with e Change that show ?thesis by (cases f) (auto simp: emits_def)
  qed
  from event_frame [OF Cons.prems(1) ev(1) u map_le_refl] have "server_ok u" by blast
  from Cons.IH [OF this] Cons.prems(2) u show ?case by simp
qed simp

text \<open>With any callbacks that leave the reader alone, the client never runs into undefined behaviour.\<close>

lemma run_frames:
  assumes "server_ok s" and "\<forall>ev \<in> set evs. event_ok ev" and "plugin_run A evs s = Ret () t"
  shows "\<exists>bs. plugin_out t = plugin_out s @ bs"
  using assms
proof (induction evs arbitrary: s)
  case (Cons ev evs)
  then obtain u where u: "plugin_event A ev s = Ret () u" "plugin_run A evs u = Ret () t"
    by (auto simp: andthen_eq_Ret)
  from event_frame [OF Cons.prems(1) _ u(1) map_le_refl] Cons.prems(2)
  obtain b where "plugin_out u = plugin_out s @ [b]" "server_ok u" by auto
  with Cons.IH [OF _ _ u(2)] Cons.prems(2) show ?case by auto
qed simp

lemma run_safe:
  fixes c :: "'y frame_reader_scheme"
  assumes "in_sync s c" and "\<forall>ev \<in> set evs. event_ok ev" and "plugin_run A evs s = Ret () t"
    and "plugin_out t = plugin_out s @ bs" and cb: "callbacks_ok cb"
  shows "meets (\<lambda>_. reader_ok) (parse_frames A cb (zip ws bs) c)"
  using assms(1-4)
proof (induction evs arbitrary: s c ws bs)
  case Nil
  then show ?case by (simp add: in_sync_def)
next
  case (Cons ev evs)
  obtain u where u: "plugin_event A ev s = Ret () u" "plugin_run A evs u = Ret () t"
    using Cons.prems(3) by (auto simp: andthen_eq_Ret)
  have ev: "event_ok ev" and evs: "\<forall>ev \<in> set evs. event_ok ev" using Cons.prems(2) by simp_all
  have s: "server_ok s" "reader_ok c" "cache_view (srv_cache s) \<subseteq>\<^sub>m client_view c"
    using Cons.prems(1) by (simp_all add: in_sync_def)
  obtain ms b where b: "binary_of A (frame_of ms) = Some b" "plugin_out u = plugin_out s @ [b]" "server_ok u"
      "msgs_ok A (client_view c) ms" "cache_view (srv_cache u) \<subseteq>\<^sub>m foldl (msg_view A) (client_view c) ms"
    using event_frame [OF s(1) ev u(1) s(3)] by blast
  obtain bs' where bs': "plugin_out t = plugin_out u @ bs'" using run_frames [OF b(3) evs u(2)] by blast
  with b(2) Cons.prems(4) have bs: "bs = b # bs'" by simp
  show ?case
  proof (cases ws)
    case Nil
    with s(2) show ?thesis by simp
  next
    case (Cons w ws')
    obtain n where n: "avro_value_write A (frame_of ms) n = (0, b)" using binary_of_written [OF b(1)] by blast
    have "meets (\<lambda>e d. if e \<noteq> 0 then reader_ok d else meets (\<lambda>_. reader_ok) (parse_frames A cb (zip ws' bs') d))
        (parse_frame A cb w b c)"
      using parse_frame_ok [OF n cb s(2) b(4), of w]
    proof (rule meets_mono)
      fix e and d :: "'y frame_reader_scheme" assume d: "reader_ok d \<and> (e = 0 \<longrightarrow> client_view d = foldl (msg_view A) (client_view c) ms)"
      with b(3,5) have "e = 0 \<longrightarrow> in_sync u d" by (simp add: in_sync_def)
      with d show "if e \<noteq> 0 then reader_ok d else meets (\<lambda>_. reader_ok) (parse_frames A cb (zip ws' bs') d)"
        using Cons.IH [OF _ evs u(2) bs', of d ws'] by simp
    qed
    with Cons bs show ?thesis by (simp add: meets_check)
  qed
qed

end

text \<open>The references of the plugin stay as they are.\<close>

lemma emits_refs: "emits spec s Q (Ret () t) \<Longrightarrow> plugin_refs t = plugin_refs s"
  by (auto simp: emits_def split: option.splits)

context avro_codec
begin

lemma event_refs:
  assumes s: "server_ok s" and ev: "event_ok ev" and run: "plugin_event A ev s = Ret () t"
  shows "plugin_refs t = plugin_refs s"
proof (cases ev)
  case (Begin xid)
  with output_avro_begin_txn_ok [OF s, of xid] run show ?thesis by (auto dest: emits_refs)
next
  case (Commit xid lsn)
  with output_avro_commit_txn_ok [OF s, of xid lsn] run show ?thesis by (auto dest: emits_refs)
next
  case (Change P rel change)
  then obtain index where P: "relation_ok P rel" "tupdescs_compared P" "key_index P rel = Some index" using ev by auto
  from output_avro_change_ok [OF s P, of change] run Change show ?thesis by (auto dest: emits_refs)
qed

lemma run_keeps:
  assumes "server_ok s" and "\<forall>ev \<in> set evs. event_ok ev" and "plugin_run A evs s = Ret () t"
  shows "server_ok t \<and> plugin_refs t = plugin_refs s"
  using assms
proof (induction evs arbitrary: s)
  case (Cons ev evs)
  then obtain u where u: "plugin_event A ev s = Ret () u" "plugin_run A evs u = Ret () t"
    by (auto simp: andthen_eq_Ret)
  have ev: "event_ok ev" using Cons.prems(2) by simp
  from event_frame [OF Cons.prems(1) ev u(1) map_le_refl] event_refs [OF Cons.prems(1) ev u(1)] Cons.IH [OF _ _ u(2)] Cons.prems(2)
  show ?case by auto
qed simp

end

end
