(* ===== verification/Snapshot.thy ===== *)
theory Snapshot
  imports Logdecoder
begin

text \<open>
  The initial copy of the tables, \<open>ext/snapshot.c\<close>: the set-returning SQL function
  \<open>bottledwater_export\<close>, which gives one frame per row of the selected tables, and the functions that
  give a schema as JSON. The server's programming interface (SPI) is the parameter record
  \<open>spi_ops\<close>; \<open>'c\<close> is its type of cursors and \<open>'p\<close> that of prepared plans. \<open>SPI_tuptable\<close> after a call
  is the list of tuples with their descriptor, so \<open>SPI_processed\<close> is the length of the list.
\<close>

section \<open>State\<close>

abbreviation (input) SPI_OK_SELECT :: int where "SPI_OK_SELECT \<equiv> 5"

text \<open>
  \<open>relation_openrv\<close> includes the parsing of the qualified name and gives \<open>None\<close> where the server
  raises an error. \<open>SPI_cursor_fetch\<close> asks for one row and gives the tuples, their descriptor and
  the cursor after them. \<open>SPI_execute_table_list\<close> is \<open>SPI_execute_with_args\<close> with the query of
  \<open>get_table_list\<close> on the catalog; its argument is the pattern for table names.
\<close>

record ('t, 'c, 'p) spi_ops =
  SPI_connect :: int
  SPI_execute_table_list :: "bytes \<Rightarrow> int \<times> 't list \<times> tupdesc"
  quote_qualified_identifier :: "bytes \<Rightarrow> bytes \<Rightarrow> bytes"
  SPI_prepare_cursor :: "bytes \<Rightarrow> 'p option"
  SPI_cursor_open :: "'p \<Rightarrow> 'c"
  SPI_cursor_fetch :: "'c \<Rightarrow> 't list \<times> tupdesc \<times> 'c"
  relation_openrv :: "bytes \<Rightarrow> relation option"

record export_table =
  et_relid :: Oid
  et_rel :: relation
  et_namespace :: bytes
  et_rel_name :: bytes
  et_repl_ident :: byte
  et_index_name :: "bytes option"

text \<open>\<open>export_refs\<close>: the references to the frame schema, its interface and its value.\<close>

record 'c export_state = server_frame +
  export_tables :: "export_table list"
  export_num_tables :: nat
  export_current :: nat
  export_cursor :: "'c ptr"
  export_refs :: "unit ptr"

section \<open>Schemas as JSON\<close>

definition schema_for_relname :: "('z avro_io_scheme) \<Rightarrow> ('t, 'd) pg_ops \<Rightarrow> ('t, 'c, 'p) spi_ops \<Rightarrow> bytes \<Rightarrow> bool \<Rightarrow>
    ('s, bytes option) prog" where
  "schema_for_relname A P S name get_key s = (case relation_openrv S name of
     None \<Rightarrow> Exit ERROR s
   | Some rel \<Rightarrow>
       andthen (if get_key then schema_for_table_key P rel s else Ret (Some (schema_for_table_row P rel)) s)
         (\<lambda>schema s. case schema of
             None \<Rightarrow> Ret None s
           | Some schema \<Rightarrow> (case try_writing A (write_schema_json A schema) of
               (err, json) \<Rightarrow> if err \<noteq> 0 then Exit ERROR s else Ret (Some json) s)))"

definition bottledwater_key_schema :: "('z avro_io_scheme) \<Rightarrow> ('t, 'd) pg_ops \<Rightarrow> ('t, 'c, 'p) spi_ops \<Rightarrow> bytes \<Rightarrow>
    ('s, bytes) prog" where
  "bottledwater_key_schema A P S table_name s =
     andthen (schema_for_relname A P S table_name True s) (\<lambda>json s.
       case json of None \<Rightarrow> Exit ERROR s | Some json \<Rightarrow> Ret json s)"

text \<open>\<open>PG_RETURN_TEXT_P\<close> of a null pointer would be undefined behaviour.\<close>

definition bottledwater_row_schema :: "('z avro_io_scheme) \<Rightarrow> ('t, 'd) pg_ops \<Rightarrow> ('t, 'c, 'p) spi_ops \<Rightarrow> bytes \<Rightarrow>
    ('s, bytes) prog" where
  "bottledwater_row_schema A P S table_name s =
     andthen (schema_for_relname A P S table_name False s) (\<lambda>json s.
       case json of None \<Rightarrow> Undef | Some json \<Rightarrow> Ret json s)"

definition bottledwater_frame_schema :: "('z avro_io_scheme) \<Rightarrow> ('s, bytes) prog" where
  "bottledwater_frame_schema A s = (case schema_for_frame of
     None \<Rightarrow> Undef
   | Some schema \<Rightarrow> (case try_writing A (write_schema_json A schema) of
       (err, json) \<Rightarrow> if err \<noteq> 0 then Exit ERROR s else Ret json s))"

section \<open>The list of tables\<close>

text \<open>One row of the query's result: \<open>None\<close> where an error is raised.\<close>

definition list_table :: "('t, 'd) pg_ops \<Rightarrow> tupdesc \<Rightarrow> 't \<Rightarrow> export_table option" where
  "list_table P td tuple =
     Option.bind (heap_getattr P tuple 1 td) (\<lambda>oid_d.
     Option.bind (heap_getattr P tuple 2 td) (\<lambda>namespace_d.
     Option.bind (heap_getattr P tuple 3 td) (\<lambda>relname_d.
     Option.bind (heap_getattr P tuple 4 td) (\<lambda>replident_d.
     Option.bind (relation_open P (DatumGetObjectId P oid_d)) (\<lambda>rel.
       Some \<lparr> et_relid = DatumGetObjectId P oid_d, et_rel = rel, et_namespace = DatumGetName P namespace_d,
         et_rel_name = DatumGetName P relname_d, et_repl_ident = DatumGetChar P replident_d,
         et_index_name = map_option (DatumGetName P) (heap_getattr P tuple 5 td) \<rparr>)))))"

text \<open>
  The loop over the rows. \<open>tables\<close> are those listed so far, \<open>errors\<close> those of them that have no key
  (the text collected in the \<open>StringInfo\<close>). A table listed twice is an error.
\<close>

fun list_tables :: "('t, 'd) pg_ops \<Rightarrow> tupdesc \<Rightarrow> 't list \<Rightarrow> export_table list \<Rightarrow> export_table list \<Rightarrow>
    (export_table list \<times> export_table list) option" where
  "list_tables P td [] tables errors = Some (tables, errors)"
| "list_tables P td (tuple # tuples) tables errors = (case list_table P td tuple of
     None \<Rightarrow> None
   | Some table \<Rightarrow>
       if et_relid table \<in> et_relid ` set tables then None
       else list_tables P td tuples (tables @ [table])
         (if et_index_name table = None then errors @ [table] else errors))"

definition get_table_list :: "('t, 'd) pg_ops \<Rightarrow> ('t, 'c, 'p) spi_ops \<Rightarrow> bytes \<Rightarrow> bool \<Rightarrow> ('c export_state, unit) prog" where
  "get_table_list P S table_pattern allow_unkeyed s =
     (case SPI_execute_table_list S table_pattern of (ret, tuples, td) \<Rightarrow>
        if ret \<noteq> SPI_OK_SELECT then Exit ERROR s
        else (case list_tables P td tuples [] [] of
            None \<Rightarrow> Exit ERROR s
          | Some (tables, errors) \<Rightarrow>
              let s = s\<lparr>export_tables := tables, export_num_tables := length tuples\<rparr> in
              if errors \<noteq> [] \<and> \<not> allow_unkeyed then Exit ERROR s else Ret () s))"

section \<open>The rows of a table\<close>

definition current_table :: "'c export_state \<Rightarrow> export_table option" where
  "current_table s = (if export_current s < length (export_tables s)
     then Some (export_tables s ! export_current s) else None)"

definition select_all :: bytes where
  "select_all = bytes_of ''SELECT * FROM ''"

definition open_next_table :: "('t, 'c, 'p) spi_ops \<Rightarrow> ('c export_state, unit) prog" where
  "open_next_table S s = (case current_table s of
     None \<Rightarrow> Undef
   | Some table \<Rightarrow>
       (case SPI_prepare_cursor S (select_all @ quote_qualified_identifier S (et_namespace table) (et_rel_name table)) of
          None \<Rightarrow> Exit ERROR s
        | Some plan \<Rightarrow> Ret () (s\<lparr>export_cursor := Valid (SPI_cursor_open S plan)\<rparr>)))"

definition close_current_table :: "('c export_state, unit) prog" where
  "close_current_table s = (case (current_table s, release (export_cursor s)) of
     (Some table, Some c) \<Rightarrow> Ret () (s\<lparr>export_cursor := c\<rparr>) | _ \<Rightarrow> Undef)"

definition format_snapshot_row :: "('z avro_io_scheme) \<Rightarrow> ('t, 'd) pg_ops \<Rightarrow> 't list \<Rightarrow> tupdesc \<Rightarrow>
    ('c export_state, bytes) prog" where
  "format_snapshot_row A P tuples td s = (case current_table s of
     None \<Rightarrow> Undef
   | Some table \<Rightarrow>
       if length tuples \<noteq> 1 then Exit ERROR s
       else
         andthen (reset_frame A s) (\<lambda>_ s.
         andthen (update_frame_with_insert A P (et_rel table) td (tuples ! 0) s) (\<lambda>err s.
           if err \<noteq> 0 then Exit ERROR s
           else (case try_writing A (write_avro_binary A (srv_frame s)) of
               (err, output) \<Rightarrow> if err \<noteq> 0 then Exit ERROR s else Ret output s))))"

section \<open>The set-returning function\<close>

text \<open>
  The \<open>while\<close> loop. Its argument is the number of tables left, \<open>num_tables - current_table\<close>: the
  loop condition holds while it is not 0. The result is a row (\<open>SRF_RETURN_NEXT\<close>) or \<open>None\<close> at the
  end of the set.
\<close>

definition export_done :: "('c export_state, bytes option) prog" where
  "export_done s =
     andthen (in_cache schema_cache_free s) (\<lambda>_ s. case release (export_refs s) of
         None \<Rightarrow> Undef | Some p \<Rightarrow> Ret None (s\<lparr>export_refs := p\<rparr>))"

fun export_loop :: "('z avro_io_scheme) \<Rightarrow> ('t, 'd) pg_ops \<Rightarrow> ('t, 'c, 'p) spi_ops \<Rightarrow> nat \<Rightarrow>
    ('c export_state, bytes option) prog" where
  "export_loop A P S 0 s = export_done s"
| "export_loop A P S (Suc n) s = (case export_cursor s of
     Valid c \<Rightarrow> (case SPI_cursor_fetch S c of (tuples, td, c) \<Rightarrow>
       let s = s\<lparr>export_cursor := Valid c\<rparr> in
       if tuples = [] then
         andthen (close_current_table s) (\<lambda>_ s.
           let s = s\<lparr>export_current := export_current s + 1\<rparr> in
           andthen (if export_current s < export_num_tables s then open_next_table S s else Ret () s) (\<lambda>_ s.
             export_loop A P S n s))
       else andthen (format_snapshot_row A P tuples td s) (\<lambda>result s. Ret (Some result) s))
   | _ \<Rightarrow> Undef)"

text \<open>The first call: \<open>palloc\<close> gives a state that is not initialised.\<close>

definition export_unset :: "'c export_state" where
  "export_unset = \<lparr> srv_frame = VNull, srv_cache = [], export_tables = [], export_num_tables = 0,
     export_current = 0, export_cursor = Dangling, export_refs = Dangling \<rparr>"

definition export_firstcall :: "('z avro_io_scheme) \<Rightarrow> ('t, 'd) pg_ops \<Rightarrow> ('t, 'c, 'p) spi_ops \<Rightarrow> bytes \<Rightarrow> bool \<Rightarrow>
    ('c export_state, unit) outcome" where
  "export_firstcall A P S table_pattern allow_unkeyed =
     (if SPI_connect S < 0 then Exit ERROR export_unset
      else (case schema_for_frame of
          None \<Rightarrow> Undef
        | Some schema \<Rightarrow>
            andthen (get_table_list P S table_pattern allow_unkeyed (export_unset\<lparr>export_current := 0,
                srv_frame := snd (avro_generic_value_new A schema), export_refs := Valid (),
                srv_cache := schema_cache_new\<rparr>)) (\<lambda>_ s.
              if 0 < export_num_tables s then open_next_table S s else Ret () s)))"

text \<open>\<open>funcctx->user_fctx\<close> keeps the state between the calls; it is \<open>None\<close> on the first call.\<close>

definition bottledwater_export :: "('z avro_io_scheme) \<Rightarrow> ('t, 'd) pg_ops \<Rightarrow> ('t, 'c, 'p) spi_ops \<Rightarrow> bytes \<Rightarrow> bool \<Rightarrow>
    ('c export_state option, bytes option) prog" where
  "bottledwater_export A P S table_pattern allow_unkeyed user_fctx =
     map_outcome Some id
       (andthen (case user_fctx of None \<Rightarrow> export_firstcall A P S table_pattern allow_unkeyed | Some s \<Rightarrow> Ret () s)
          (\<lambda>_ s. export_loop A P S (export_num_tables s - export_current s) s))"

end
