(* ===== verification/Snapshot_Export.thy ===== *)
theory Snapshot_Export
  imports End_To_End Snapshot
begin

text \<open>
  The snapshot is complete. Under what the server promises of its cursors (\<open>cursor_rows\<close>,
  \<open>table_rows\<close>), the calls of \<open>bottledwater_export\<close> give one frame for every row of every selected
  table, in order, and then the end of the set; the client that parses them makes the calls of an
  insert for each row. The state machine of the calls is \<open>exporting\<close>: the rows still to come are
  those of the open cursor and of the tables after it.
\<close>

section \<open>Cursors\<close>

text \<open>
  What the server promises of a cursor: fetching one row at a time gives the rows of the query and
  then nothing. The result of \<open>SELECT *\<close> has the columns that are not dropped.
\<close>

fun cursor_rows :: "('t, 'c, 'p) spi_ops \<Rightarrow> tupdesc \<Rightarrow> 'c \<Rightarrow> 't list \<Rightarrow> bool" where
  "cursor_rows S td c [] \<longleftrightarrow> fst (SPI_cursor_fetch S c) = []"
| "cursor_rows S td c (row # rows) \<longleftrightarrow> (case SPI_cursor_fetch S c of
     (tuples, td', c') \<Rightarrow> tuples = [row] \<and> td' = td \<and> cursor_rows S td c' rows)"

definition table_rows :: "('t, 'c, 'p) spi_ops \<Rightarrow> export_table \<Rightarrow> 't list \<Rightarrow> bool" where
  "table_rows S table rows \<longleftrightarrow>
     (case SPI_prepare_cursor S (select_all @ quote_qualified_identifier S (et_namespace table) (et_rel_name table)) of
        None \<Rightarrow> False
      | Some plan \<Rightarrow> cursor_rows S (live (rd_att (et_rel table))) (SPI_cursor_open S plan) rows)"

section \<open>What is left to export\<close>

text \<open>The tables from the current one on, each with the rows still to come.\<close>

definition matches :: "('t, 'c, 'p) spi_ops \<Rightarrow> export_table \<Rightarrow> relation \<times> 't list \<Rightarrow> bool" where
  "matches S table w \<longleftrightarrow> fst w = et_rel table \<and> table_rows S table (snd w)"

fun pending :: "('t, 'c, 'p) spi_ops \<Rightarrow> export_table list \<Rightarrow> 'c ptr \<Rightarrow> (relation \<times> 't list) list \<Rightarrow> bool" where
  "pending S tables cursor [] \<longleftrightarrow> tables = []"
| "pending S tables cursor ((rel, rows) # work) \<longleftrightarrow> (\<exists>table rest c. tables = table # rest \<and> rel = et_rel table \<and>
     cursor = Valid c \<and> cursor_rows S (live (rd_att rel)) c rows \<and> list_all2 (matches S) rest work)"

definition rows_left :: "(relation \<times> 't list) list \<Rightarrow> (relation \<times> 't) list" where
  "rows_left work = concat (map (\<lambda>(rel, rows). map (Pair rel) rows) work)"

definition relations_ok :: "('t, 'd) pg_ops \<Rightarrow> (relation \<times> 't list) list \<Rightarrow> bool" where
  "relations_ok P work \<longleftrightarrow> (\<forall>w \<in> set work. relation_ok P (fst w) \<and> key_index P (fst w) \<noteq> None)"

definition exporting :: "('t, 'd) pg_ops \<Rightarrow> ('t, 'c, 'p) spi_ops \<Rightarrow> 'c export_state \<Rightarrow> (relation \<times> 't list) list \<Rightarrow> bool" where
  "exporting P S s work \<longleftrightarrow> server_ok s \<and> export_refs s = Valid () \<and>
     export_num_tables s = length (export_tables s) \<and> export_current s + length work = length (export_tables s) \<and>
     pending S (drop (export_current s) (export_tables s)) (export_cursor s) work \<and> relations_ok P work"

section \<open>One row\<close>

text \<open>
  The bytes are the frame of the row (the schema message if it is due, and the insert message), and
  the server's cache is as a client has it that takes in the frame.
\<close>

definition row_frame :: "('z avro_io_scheme) \<Rightarrow> ('t, 'd) pg_ops \<Rightarrow> schema_view \<Rightarrow> relation \<Rightarrow> 't \<Rightarrow> wire_msg list \<Rightarrow> bool" where
  "row_frame A P V rel tuple ms \<longleftrightarrow> (\<exists>index changed. key_index P rel = Some index \<and>
     (changed \<or> V (rd_id rel) = Some (table_schemas P rel index)) \<and>
     due_msgs A P rel index changed (insert_msgs A P rel index (live (rd_att rel)) tuple) = Some ms)"

definition row_sent :: "('z avro_io_scheme) \<Rightarrow> ('t, 'd) pg_ops \<Rightarrow> relation \<times> 't \<Rightarrow> schema_cache \<Rightarrow> bytes \<Rightarrow> schema_cache \<Rightarrow> bool" where
  "row_sent A P row c b c' \<longleftrightarrow> (\<forall>V. cache_view c \<subseteq>\<^sub>m V \<longrightarrow> (\<exists>ms. row_frame A P V (fst row) (snd row) ms \<and>
     binary_of A (frame_of ms) = Some b \<and> msgs_ok A V ms \<and> cache_view c' \<subseteq>\<^sub>m foldl (msg_view A) V ms))"

text \<open>The frame of the row can be written, with and without the schema message.\<close>

definition row_fits :: "('z avro_io_scheme) \<Rightarrow> ('t, 'd) pg_ops \<Rightarrow> relation \<times> 't \<Rightarrow> bool" where
  "row_fits A P row \<longleftrightarrow> (case key_index P (fst row) of
     None \<Rightarrow> False
   | Some index \<Rightarrow> \<forall>changed.
       framed A (due_msgs A P (fst row) index changed (insert_msgs A P (fst row) index (live (rd_att (fst row))) (snd row))) \<noteq> None)"

context avro_codec
begin

lemma format_snapshot_row_ok:
  assumes s: "server_ok s" and P: "tupdescs_compared P" and table: "current_table s = Some table"
    and rel: "relation_ok P (et_rel table)" "key_index P (et_rel table) \<noteq> None"
  shows "attains (row_fits A P (et_rel table, tuple)) (\<lambda>b t. server_ok t \<and> server_frame.more t = server_frame.more s \<and>
      row_sent A P (et_rel table, tuple) (srv_cache s) b (srv_cache t))
    (format_snapshot_row A P [tuple] (live (rd_att (et_rel table))) s)"
proof -
  let ?rel = "et_rel table" and ?s = "s\<lparr>srv_frame := frame_of []\<rparr>"
  let ?td = "live (rd_att ?rel)"
  obtain index where idx: "key_index P ?rel = Some index" using rel(2) by auto
  have hs: "has_schema (srv_frame s) frame_schema" and ok: "cache_ok (srv_cache ?s)" and fr: "srv_frame ?s = frame_of []"
    using s by (simp_all add: server_ok_def)
  have fmt: "tuple_format ?rel ?td" by (simp add: tuple_format_def)
  obtain changed where c: "changed \<or> told P ?rel index ?s"
      "yields (due_msgs A P ?rel index changed (insert_msgs A P ?rel index ?td tuple)) (announces P ?rel index ?s)
        (update_frame_with_insert A P ?rel ?td tuple ?s)"
    using insert_sends [OF rel(1) P ok idx fr fmt] .
  have fits: "framed A (due_msgs A P ?rel index changed (insert_msgs A P ?rel index ?td tuple)) \<noteq> None"
    if "row_fits A P (?rel, tuple)"
    using that idx by (cases changed) (simp_all add: row_fits_def)
  show ?thesis
  proof (cases "due_msgs A P ?rel index changed (insert_msgs A P ?rel index ?td tuple)")
    case None
    with fits have "\<not> row_fits A P (?rel, tuple)" by (auto simp: framed_def)
    from None c(2) have "failed (update_frame_with_insert A P ?rel ?td tuple ?s)" by (simp add: yields_def)
    with table reset_frame_ok [OF hs] \<open>\<not> row_fits A P (?rel, tuple)\<close> show ?thesis
      by (cases "update_frame_with_insert A P ?rel ?td tuple ?s") (simp_all add: format_snapshot_row_def)
  next
    case (Some ms)
    with c(2) obtain t where t0: "update_frame_with_insert A P ?rel ?td tuple ?s = Ret 0 t" "announces P ?rel index ?s ms t"
      by (auto simp: yields_def)
    then have t: "cache_ok (srv_cache t)" "server_frame.more t = server_frame.more s" "srv_frame t = frame_of ms"
        "cache_view (srv_cache t) = (cache_view (srv_cache s))(rd_id ?rel \<mapsto> table_schemas P ?rel index)"
      using fr by (auto simp: announces_def extends_def)
    have told: "changed \<or> told P ?rel index s" using c(1) by (simp add: told_def)
    have rows: "row_msg (rd_id ?rel) (index \<noteq> None) m"
      if "insert_msgs A P ?rel index ?td tuple = Some ms'" "m \<in> set ms'" for ms' m
      using that by (rule insert_msgs_rows)
    have sent: "row_sent A P (?rel, tuple) (srv_cache s) b (srv_cache t)" if b: "binary_of A (frame_of ms) = Some b" for b
      unfolding row_sent_def row_frame_def fst_conv snd_conv
    proof (intro allI impI exI conjI)
      fix V assume V: "cache_view (srv_cache s) \<subseteq>\<^sub>m V"
      show "key_index P ?rel = Some index" by (fact idx)
      show "due_msgs A P ?rel index changed (insert_msgs A P ?rel index ?td tuple) = Some ms" by (fact Some)
      show "changed \<or> V (rd_id ?rel) = Some (table_schemas P ?rel index)"
        using told V by (auto simp: told_def map_le_def dom_def)
      show "binary_of A (frame_of ms) = Some b" by (fact b)
      show "msgs_ok A V ms" by (rule due_msgs_view(1) [OF Some rows told V t(4)])
      show "cache_view (srv_cache t) \<subseteq>\<^sub>m foldl (msg_view A) V ms" by (rule due_msgs_view(2) [OF Some rows told V t(4)])
    qed
    obtain e b where b: "try_writing A (write_avro_binary A (frame_of ms)) = (e, b)" by fastforce
    have "server_ok t" using t by (simp add: server_ok_def frame_of_schema)
    moreover have "\<not> row_fits A P (?rel, tuple)" if "e \<noteq> 0"
      using fits that b Some by (auto simp: framed_def binary_of_def written_def)
    ultimately show ?thesis
      using table reset_frame_ok [OF hs] t0(1) t b sent [of b]
      by (simp add: format_snapshot_row_def binary_of_def written_def)
  qed
qed

end

text \<open>
  One call of the loop: with rows left it gives the frame of the next one and leaves the others, else
  it frees the state and reports the end.
\<close>

definition next_row :: "('z avro_io_scheme) \<Rightarrow> ('t, 'd) pg_ops \<Rightarrow> ('t, 'c, 'p) spi_ops \<Rightarrow> schema_cache \<Rightarrow> (relation \<times> 't) list \<Rightarrow>
    bytes option \<Rightarrow> 'c export_state \<Rightarrow> bool" where
  "next_row A P S c rows r t \<longleftrightarrow> (case rows of
     [] \<Rightarrow> r = None
   | row # rest \<Rightarrow> \<exists>b work. r = Some b \<and> exporting P S t work \<and> rows_left work = rest \<and> row_sent A P row c b (srv_cache t))"

lemma export_fields:
  assumes "server_frame.more t = server_frame.more (s :: 'c export_state)"
  shows "export_tables t = export_tables s" "export_num_tables t = export_num_tables s"
    "export_current t = export_current s" "export_cursor t = export_cursor s" "export_refs t = export_refs s"
  using assms by (cases s; cases t; simp)+

lemma open_next_table_ok:
  assumes "export_current s < length (export_tables s)" and "table_rows S (export_tables s ! export_current s) rows"
  obtains c where "open_next_table S s = Ret () (s\<lparr>export_cursor := Valid c\<rparr>)"
    "cursor_rows S (live (rd_att (et_rel (export_tables s ! export_current s)))) c rows"
  using assms by (auto simp: open_next_table_def current_table_def table_rows_def split: option.splits)

context avro_codec
begin

lemma export_loop_ok:
  assumes P: "tupdescs_compared P" and s: "exporting P S s work"
  shows "attains (list_all (row_fits A P) (rows_left work)) (next_row A P S (srv_cache s) (rows_left work)) (export_loop A P S (length work) s)"
  using s
proof (induction work arbitrary: s)
  case Nil
  then have "cache_ok (srv_cache s)" "export_refs s = Valid ()" by (simp_all add: exporting_def server_ok_def)
  then show ?case by (simp add: export_done_def in_cache_def schema_cache_free_ok next_row_def rows_left_def)
next
  case (Cons w work)
  obtain rel rows where w: "w = (rel, rows)" by fastforce
  let ?i = "export_current s"
  from Cons.prems w obtain c where s: "server_ok s" "export_refs s = Valid ()" "export_num_tables s = length (export_tables s)"
      "?i + Suc (length work) = length (export_tables s)" "export_cursor s = Valid c" "rel = et_rel (export_tables s ! ?i)"
      "cursor_rows S (live (rd_att rel)) c rows" "list_all2 (matches S) (drop (Suc ?i) (export_tables s)) work"
      "relations_ok P work" "relation_ok P rel" "key_index P rel \<noteq> None"
    by (auto simp: exporting_def relations_ok_def Cons_nth_drop_Suc [symmetric])
  have i: "?i < length (export_tables s)" using s(4) by simp
  obtain tuples td c' where f: "SPI_cursor_fetch S c = (tuples, td, c')" by (cases "SPI_cursor_fetch S c") auto
  let ?s = "s\<lparr>export_cursor := Valid c'\<rparr>"
  show ?case
  proof (cases rows)
    case (Cons tuple rest)
    with f s(7) have f': "tuples = [tuple]" "td = live (rd_att rel)" "cursor_rows S (live (rd_att rel)) c' rest" by simp_all
    have table: "current_table ?s = Some (export_tables s ! ?i)" using i by (simp add: current_table_def)
    have "server_ok ?s" using s(1) by (simp add: server_ok_def)
    from format_snapshot_row_ok [OF this P table, of tuple] s(6,10,11)
    have "attains (row_fits A P (rel, tuple)) (\<lambda>b t. server_ok t \<and> server_frame.more t = server_frame.more ?s \<and>
        row_sent A P (rel, tuple) (srv_cache s) b (srv_cache t)) (format_snapshot_row A P [tuple] (live (rd_att rel)) ?s)"
      by simp
    then have "attains (row_fits A P (rel, tuple)) (\<lambda>b t. next_row A P S (srv_cache s) (rows_left (w # work)) (Some b) t)
        (format_snapshot_row A P [tuple] (live (rd_att rel)) ?s)"
    proof (rule attains_mono)
      fix b t assume t: "server_ok t \<and> server_frame.more t = server_frame.more ?s \<and> row_sent A P (rel, tuple) (srv_cache s) b (srv_cache t)"
      note fields = export_fields [of t ?s]
      have "exporting P S t ((rel, rest) # work)"
        using t fields s f'(3) i by (auto simp: exporting_def relations_ok_def Cons_nth_drop_Suc [symmetric])
      then show "next_row A P S (srv_cache s) (rows_left (w # work)) (Some b) t"
        using t w Cons unfolding next_row_def by (auto simp: rows_left_def intro!: exI [of _ "(rel, rest) # work"])
    qed
    then have "attains (list_all (row_fits A P) (rows_left (w # work)))
        (\<lambda>b t. next_row A P S (srv_cache s) (rows_left (w # work)) (Some b) t)
        (format_snapshot_row A P [tuple] (live (rd_att rel)) ?s)"
      by (rule attains_weaken) (simp add: rows_left_def w Cons)
    then show ?thesis using f f' s(5) by (simp add: Let_def attains_andthen)
  next
    case Nil
    with f s(7) have "tuples = []" by simp
    have close: "close_current_table ?s = Ret () (s\<lparr>export_cursor := Dangling\<rparr>)"
      using i by (simp add: close_current_table_def current_table_def)
    let ?t = "s\<lparr>export_cursor := Dangling, export_current := Suc ?i\<rparr>"
    have left: "rows_left (w # work) = rows_left work" using w Nil by (simp add: rows_left_def)
    show ?thesis
    proof (cases work)
      case Nil
      then have "exporting P S ?t work" using s by (simp add: exporting_def server_ok_def relations_ok_def)
      from Cons.IH [OF this] Nil show ?thesis
        using f \<open>tuples = []\<close> s(3,4,5) close left by (simp add: Let_def)
    next
      case (Cons w2 work2)
      then have i2: "Suc ?i < length (export_tables s)" using s(4) by simp
      with s(8) Cons have m: "matches S (export_tables s ! Suc ?i) w2" "list_all2 (matches S) (drop (Suc (Suc ?i)) (export_tables s)) work2"
        by (simp_all add: Cons_nth_drop_Suc [symmetric])
      obtain d where d: "open_next_table S ?t = Ret () (?t\<lparr>export_cursor := Valid d\<rparr>)"
          "cursor_rows S (live (rd_att (et_rel (export_tables s ! Suc ?i)))) d (snd w2)"
        using open_next_table_ok [of ?t S "snd w2"] i2 m(1) by (auto simp: matches_def)
      have "exporting P S (?t\<lparr>export_cursor := Valid d\<rparr>) work"
        using s i2 d(2) m Cons by (cases w2) (auto simp: exporting_def server_ok_def matches_def Cons_nth_drop_Suc [symmetric])
      from Cons.IH [OF this] show ?thesis
        using f \<open>tuples = []\<close> s(3,5) close left d(1) i2 by (simp add: Let_def)
    qed
  qed
qed

end

section \<open>The list of tables\<close>

lemma list_tables_ok:
  assumes "list_tables P td tuples tables errors = Some (tables', errors')" and "distinct (map et_relid tables)"
    and "errors = filter (\<lambda>t. et_index_name t = None) tables"
  shows "distinct (map et_relid tables') \<and> errors' = filter (\<lambda>t. et_index_name t = None) tables' \<and>
    (\<exists>new. tables' = tables @ new \<and> map (list_table P td) tuples = map Some new)"
  using assms
proof (induction tuples arbitrary: tables errors)
  case (Cons tuple tuples)
  from Cons.prems(1) obtain table where t: "list_table P td tuple = Some table" "et_relid table \<notin> et_relid ` set tables"
      "list_tables P td tuples (tables @ [table]) (if et_index_name table = None then errors @ [table] else errors) = Some (tables', errors')"
    by (auto split: option.splits if_splits)
  have "(if et_index_name table = None then errors @ [table] else errors) = filter (\<lambda>t. et_index_name t = None) (tables @ [table])"
    using Cons.prems(3) by simp
  from Cons.IH [OF t(3) _ this] t(1,2) Cons.prems(2) obtain new
    where "distinct (map et_relid tables')" "errors' = filter (\<lambda>t. et_index_name t = None) tables'"
      "tables' = tables @ table # new" "map (list_table P td) tuples = map Some new"
    by auto
  with t(1) show ?case by (intro conjI exI [of _ "table # new"]) simp_all
qed simp

text \<open>
  The tables are those of the query's result, none of them twice; without \<open>--allow-unkeyed\<close> each
  has a key.
\<close>

lemma get_table_list_ok:
  assumes "get_table_list P S pattern allow s = Ret () t"
  obtains tuples td tables where "SPI_execute_table_list S pattern = (SPI_OK_SELECT, tuples, td)"
    "map (list_table P td) tuples = map Some tables" "distinct (map et_relid tables)"
    "allow \<or> (\<forall>table \<in> set tables. et_index_name table \<noteq> None)"
    "t = s\<lparr>export_tables := tables, export_num_tables := length tables\<rparr>"
proof -
  obtain ret tuples td where q: "SPI_execute_table_list S pattern = (ret, tuples, td)"
    by (cases "SPI_execute_table_list S pattern") auto
  with assms obtain tables errors where l: "ret = SPI_OK_SELECT" "list_tables P td tuples [] [] = Some (tables, errors)"
      "errors = [] \<or> allow" "t = s\<lparr>export_tables := tables, export_num_tables := length tuples\<rparr>"
    by (auto simp: get_table_list_def Let_def split: if_splits option.splits)
  note ok = list_tables_ok [OF l(2)]
  then have tables: "map (list_table P td) tuples = map Some tables" by simp
  then have "length tuples = length tables" by (metis length_map)
  then show ?thesis
    using that [of tuples td tables] q l ok tables by (auto simp: filter_empty_conv)
qed

text \<open>Conversely, these conditions are enough.\<close>

definition selectable :: "('t, 'c, 'p) spi_ops \<Rightarrow> bool \<Rightarrow> int \<Rightarrow> export_table list \<Rightarrow> bool" where
  "selectable S allow ret tables \<longleftrightarrow> 0 \<le> SPI_connect S \<and> ret = SPI_OK_SELECT \<and> distinct (map et_relid tables) \<and>
     (allow \<or> (\<forall>table \<in> set tables. et_index_name table \<noteq> None))"

lemma list_tables_total:
  assumes "map (list_table P td) tuples = map Some new" and "distinct (map et_relid (tables @ new))"
  shows "list_tables P td tuples tables errors = Some (tables @ new, errors @ filter (\<lambda>t. et_index_name t = None) new)"
  using assms
proof (induction tuples arbitrary: tables errors new)
  case (Cons tuple tuples)
  then obtain table rest where new: "new = table # rest" "list_table P td tuple = Some table"
      "map (list_table P td) tuples = map Some rest"
    by (cases new) auto
  with Cons.prems(2) have "distinct (map et_relid ((tables @ [table]) @ rest))" "et_relid table \<notin> et_relid ` set tables" by auto
  with Cons.IH [OF new(3)] new show ?case by simp
qed simp

lemma get_table_list_total:
  assumes "SPI_execute_table_list S pattern = (ret, tuples, td)" and "map (list_table P td) tuples = map Some tables"
    and "ret = SPI_OK_SELECT" and "distinct (map et_relid tables)"
    and "allow \<or> (\<forall>table \<in> set tables. et_index_name table \<noteq> None)"
  shows "get_table_list P S pattern allow s = Ret () (s\<lparr>export_tables := tables, export_num_tables := length tables\<rparr>)"
proof -
  have "length tuples = length tables" using assms(2) by (metis length_map)
  then show ?thesis
    using assms list_tables_total [OF assms(2), of "[]" "[]"]
    by (force simp: get_table_list_def filter_empty_conv Let_def)
qed

section \<open>All calls\<close>

text \<open>The server calls the function until it reports the end of the set, at most \<open>n\<close> times.\<close>

fun export_calls :: "('z avro_io_scheme) \<Rightarrow> ('t, 'd) pg_ops \<Rightarrow> ('t, 'c, 'p) spi_ops \<Rightarrow> bytes \<Rightarrow> bool \<Rightarrow> nat \<Rightarrow>
    ('c export_state option, bytes list) prog" where
  "export_calls A P S pattern allow 0 f = Ret [] f"
| "export_calls A P S pattern allow (Suc n) f =
     andthen (bottledwater_export A P S pattern allow f) (\<lambda>r f. case r of
         None \<Rightarrow> Ret [] f
       | Some b \<Rightarrow> andthen (export_calls A P S pattern allow n f) (\<lambda>bs. Ret (b # bs)))"

text \<open>The calls of the application for a row of the snapshot.\<close>

definition row_calls :: "('t, 'd) pg_ops \<Rightarrow> u64 \<Rightarrow> relation \<times> 't \<Rightarrow> call list \<Rightarrow> bool" where
  "row_calls P w row cs \<longleftrightarrow> (\<exists>index changed rows. key_index P (fst row) = Some index \<and>
     insert_calls w P (fst row) index (live (rd_att (fst row))) (snd row) = Some rows \<and>
     cs = schema_calls w P (fst row) index changed @ rows)"

text \<open>The frames, parsed by the client, lead to the calls of the rows.\<close>

definition rows_arrive :: "('z avro_io_scheme) \<Rightarrow> ('t, 'd) pg_ops \<Rightarrow> schema_cache \<Rightarrow> (relation \<times> 't) list \<Rightarrow> bytes list \<Rightarrow> bool" where
  "rows_arrive A P cache rows bs \<longleftrightarrow> length bs = length rows \<and>
     (\<forall>(c :: recording_reader) ws. reader_ok c \<longrightarrow> cache_view cache \<subseteq>\<^sub>m client_view c \<longrightarrow> length ws = length rows \<longrightarrow>
       (\<exists>d css. parse_frames A recorder (zip ws bs) c = Ret 0 d \<and> reader_ok d \<and> calls d = calls c @ concat css \<and>
         list_all2 (\<lambda>(w, row). row_calls P w row) (zip ws rows) css))"

context avro_codec
begin

lemma row_delivered:
  fixes c :: "'y recording_reader_scheme"
  assumes sent: "row_sent A P row s b t" and rel: "relation_ok P (fst row)" and c: "reader_ok c" "cache_view s \<subseteq>\<^sub>m client_view c"
  obtains d cs where "parse_frame A recorder w b c = Ret 0 d" "calls d = calls c @ cs" "row_calls P w row cs"
    "reader_ok d" "cache_view t \<subseteq>\<^sub>m client_view d"
proof -
  let ?rel = "fst row" and ?td = "live (rd_att (fst row))"
  obtain ms where ms: "row_frame A P (client_view c) ?rel (snd row) ms" "binary_of A (frame_of ms) = Some b"
      "cache_view t \<subseteq>\<^sub>m foldl (msg_view A) (client_view c) ms"
    using sent c(2) by (auto simp: row_sent_def)
  obtain index changed where f: "key_index P ?rel = Some index" "changed \<or> client_view c (rd_id ?rel) = Some (table_schemas P ?rel index)"
      "due_msgs A P ?rel index changed (insert_msgs A P ?rel index ?td (snd row)) = Some ms"
    using ms(1) by (auto simp: row_frame_def)
  have fmt: "tuple_format ?rel ?td" by (simp add: tuple_format_def)
  obtain rows where rows: "insert_calls w P ?rel index ?td (snd row) = Some rows"
      "all_mean A (client_view c) w ms (schema_calls w P ?rel index changed @ rows)"
    using sent_mean [where V = "client_view c" and w = w, OF f(3,2) insert_mean [OF _ fmt rel f(1)]] by blast
  obtain d where d: "parse_frame A recorder w b c = Ret 0 d" "reader_ok d"
      "client_view d = foldl (msg_view A) (client_view c) ms" "calls d = calls c @ schema_calls w P ?rel index changed @ rows"
    using parse_frame_means [OF ms(2) c(1) rows(2)] by blast
  have "row_calls P w row (schema_calls w P ?rel index changed @ rows)"
    using f(1) rows(1) by (auto simp: row_calls_def)
  with d ms(3) that show ?thesis by simp
qed

lemma rows_arrive_Cons:
  assumes "row_sent A P row s b t" and "relation_ok P (fst row)" and "rows_arrive A P t rows bs"
  shows "rows_arrive A P s (row # rows) (b # bs)"
  unfolding rows_arrive_def
proof (intro conjI allI impI)
  show "length (b # bs) = length (row # rows)" using assms(3) by (simp add: rows_arrive_def)
  fix c :: recording_reader and ws :: "u64 list"
  assume c: "reader_ok c" "cache_view s \<subseteq>\<^sub>m client_view c" and "length ws = length (row # rows)"
  then obtain w ws' where ws: "ws = w # ws'" "length ws' = length rows" by (cases ws) auto
  obtain d cs where d: "parse_frame A recorder w b c = Ret 0 d" "calls d = calls c @ cs" "row_calls P w row cs"
      "reader_ok d" "cache_view t \<subseteq>\<^sub>m client_view d"
    using row_delivered [OF assms(1,2) c, of w] .
  obtain e css where e: "parse_frames A recorder (zip ws' bs) d = Ret 0 e" "reader_ok e" "calls e = calls d @ concat css"
      "list_all2 (\<lambda>(w, row). row_calls P w row) (zip ws' rows) css"
    using assms(3) d(4,5) ws(2) unfolding rows_arrive_def by blast
  show "\<exists>d css. parse_frames A recorder (zip ws (b # bs)) c = Ret 0 d \<and> reader_ok d \<and> calls d = calls c @ concat css \<and>
      list_all2 (\<lambda>(w, row). row_calls P w row) (zip ws (row # rows)) css"
    by (rule exI [of _ e], rule exI [of _ "cs # css"]) (use d e ws in simp)
qed

lemma rows_left_relations:
  "relations_ok P work \<Longrightarrow> row \<in> set (rows_left work) \<Longrightarrow> relation_ok P (fst row)"
  by (auto simp: relations_ok_def rows_left_def)

lemma export_calls_ok:
  assumes P: "tupdescs_compared P" and "exporting P S s work" and "length (rows_left work) < n"
  shows "attains (list_all (row_fits A P) (rows_left work)) (\<lambda>bs _. rows_arrive A P (srv_cache s) (rows_left work) bs)
    (export_calls A P S pattern allow n (Some s))"
  using assms(2,3)
proof (induction n arbitrary: s work)
  case (Suc n)
  have n: "export_num_tables s - export_current s = length work" using Suc.prems(1) by (auto simp: exporting_def)
  have loop: "attains (list_all (row_fits A P) (rows_left work)) (next_row A P S (srv_cache s) (rows_left work)) (export_loop A P S (length work) s)"
    by (rule export_loop_ok [OF P Suc.prems(1)])
  show ?case
  proof (cases "rows_left work")
    case Nil
    with loop show ?thesis
      by (cases "export_loop A P S (length work) s") (auto simp: bottledwater_export_def n next_row_def rows_arrive_def)
  next
    case (Cons row rest)
    have rel: "relation_ok P (fst row)"
      using Suc.prems(1) Cons by (intro rows_left_relations [of P work]) (simp_all add: exporting_def)
    have "attains (list_all (row_fits A P) (rows_left work)) (\<lambda>bs _. rows_arrive A P (srv_cache s) (rows_left work) bs)
        (andthen (map_outcome Some id (export_loop A P S (length work) s)) (\<lambda>r f. case r of
          None \<Rightarrow> Ret [] f | Some b \<Rightarrow> andthen (export_calls A P S pattern allow n f) (\<lambda>bs. Ret (b # bs))))"
    proof (cases "export_loop A P S (length work) s")
      case (Ret r t)
      with loop Cons obtain b work' where b: "r = Some b" "exporting P S t work'" "rows_left work' = rest"
          "row_sent A P row (srv_cache s) b (srv_cache t)"
        by (auto simp: next_row_def)
      have "attains (list_all (row_fits A P) rest) (\<lambda>bs _. rows_arrive A P (srv_cache t) rest bs) (export_calls A P S pattern allow n (Some t))"
        using Suc.IH [OF b(2)] b(3) Suc.prems(2) Cons by simp
      then have "attains (list_all (row_fits A P) rest) (\<lambda>bs _. rows_arrive A P (srv_cache s) (row # rest) (b # bs))
          (export_calls A P S pattern allow n (Some t))"
        by (rule attains_mono) (rule rows_arrive_Cons [OF b(4) rel])
      then have "attains (list_all (row_fits A P) (row # rest)) (\<lambda>bs _. rows_arrive A P (srv_cache s) (row # rest) (b # bs))
          (export_calls A P S pattern allow n (Some t))"
        by (rule attains_weaken) simp
      then show ?thesis using Ret b(1) Cons by (simp add: attains_andthen)
    qed (use loop in simp_all)
    then show ?thesis by (simp add: bottledwater_export_def n)
  qed
qed simp

text \<open>From the first call on.\<close>

lemma export_firstcall_ok:
  assumes q: "SPI_execute_table_list S pattern = (ret, tuples, td)" and tables: "map (list_table P td) tuples = map Some tables"
    and m: "list_all2 (matches S) tables work" and rel: "relations_ok P work"
  shows "attains (selectable S allow ret tables) (\<lambda>_ s. exporting P S s work \<and> srv_cache s = schema_cache_new)
    (export_firstcall A P S pattern allow)"
proof -
  let ?s0 = "export_unset\<lparr>export_current := 0, srv_frame := snd (avro_generic_value_new A frame_schema),
    export_refs := Valid (), srv_cache := schema_cache_new\<rparr>"
  have tables': "tables' = tables" if "map (list_table P td) tuples = map Some tables'" for tables'
    using that tables by (auto intro: map_injective)
  have opened: "attains (selectable S allow ret tables) (\<lambda>_ s. exporting P S s work \<and> srv_cache s = schema_cache_new)
      (if 0 < export_num_tables t then open_next_table S t else Ret () t)"
    if t: "t = ?s0\<lparr>export_tables := tables, export_num_tables := length tables\<rparr>" for t
  proof -
    have ok: "server_ok t" using t by (simp add: server_ok_def value_new has_schema_default schema_cache_new_ok)
    show ?thesis
    proof (cases work)
      case Nil
      with m rel ok t show ?thesis by (simp add: exporting_def)
    next
      case (Cons w work2)
      with m obtain table rest where ts: "tables = table # rest" "matches S table w" "list_all2 (matches S) rest work2"
        by (cases tables) auto
      have cur: "export_current t = 0" "export_tables t = tables" using t by simp_all
      with ts obtain c where c: "open_next_table S t = Ret () (t\<lparr>export_cursor := Valid c\<rparr>)"
          "cursor_rows S (live (rd_att (et_rel table))) c (snd w)"
        using open_next_table_ok [of t S "snd w"] by (auto simp: matches_def)
      have "exporting P S (t\<lparr>export_cursor := Valid c\<rparr>) work"
        using ok rel ts c(2) Cons t list_all2_lengthD [OF m]
        by (cases w) (auto simp: exporting_def server_ok_def matches_def)
      with c(1) ts t show ?thesis by simp
    qed
  qed
  have total: "get_table_list P S pattern allow ?s0 =
      Ret () (?s0\<lparr>export_tables := tables, export_num_tables := length tables\<rparr>)" if "selectable S allow ret tables"
    using that by (intro get_table_list_total [OF q tables]) (simp_all add: selectable_def)
  have "attains (selectable S allow ret tables) (\<lambda>_ t. t = ?s0\<lparr>export_tables := tables, export_num_tables := length tables\<rparr>) (get_table_list P S pattern allow ?s0)"
    using total
  proof (cases "get_table_list P S pattern allow ?s0")
    case (Ret u t)
    then have "get_table_list P S pattern allow ?s0 = Ret () t" by simp
    then obtain tuples' td' tables' where "SPI_execute_table_list S pattern = (SPI_OK_SELECT, tuples', td')"
        "map (list_table P td') tuples' = map Some tables'"
        "t = ?s0\<lparr>export_tables := tables', export_num_tables := length tables'\<rparr>"
      by (rule get_table_list_ok)
    with q tables' Ret show ?thesis by simp
  qed (use q in \<open>auto simp: get_table_list_def Let_def split: if_splits option.splits\<close>)
  then have "attains (selectable S allow ret tables) (\<lambda>_ s. exporting P S s work \<and> srv_cache s = schema_cache_new)
      (andthen (get_table_list P S pattern allow ?s0) (\<lambda>_ s. if 0 < export_num_tables s then open_next_table S s else Ret () s))"
    unfolding attains_andthen by (rule attains_mono) (rule opened)
  moreover have "\<not> selectable S allow ret tables" if "SPI_connect S < 0" using that by (simp add: selectable_def)
  ultimately show ?thesis by (simp add: export_firstcall_def schema_for_frame_eq)
qed

lemma export_all_ok:
  assumes P: "tupdescs_compared P" and q: "SPI_execute_table_list S pattern = (ret, tuples, td)"
    and tables: "map (list_table P td) tuples = map Some tables"
    and m: "list_all2 (matches S) tables work" and rel: "relations_ok P work" and n: "length (rows_left work) < n"
  shows "attains (selectable S allow ret tables \<and> list_all (row_fits A P) (rows_left work))
    (\<lambda>bs _. rows_arrive A P schema_cache_new (rows_left work) bs) (export_calls A P S pattern allow n None)"
proof (cases "export_firstcall A P S pattern allow")
  case (Ret u s)
  with export_firstcall_ok [OF q tables m rel, of allow] have s: "exporting P S s work" "srv_cache s = schema_cache_new"
    by simp_all
  obtain k where k: "n = Suc k" using n by (cases n) auto
  have "export_calls A P S pattern allow n None = export_calls A P S pattern allow n (Some s)"
    using Ret k by (simp add: bottledwater_export_def)
  with export_calls_ok [OF P s(1) n, of pattern allow] s(2) show ?thesis by (auto intro: attains_weaken)
next
  case Undef
  with export_firstcall_ok [OF q tables m rel, of allow] show ?thesis by simp
qed (use n export_firstcall_ok [OF q tables m rel, of allow] in \<open>cases n; simp add: bottledwater_export_def\<close>)+

end

end
