(* ===== verification/Sample_Server.thy ===== *)
theory Sample_Server
  imports Sample Mapper_Safety Snapshot_Export "HOL-Library.Code_Target_Nat"
begin

text \<open>
  A concrete server, on which the properties of the extension and of the whole pipeline are
  evaluated: a catalog with the table \<open>points(id, x)\<close> of 32-bit integers, whose primary key is \<open>id\<close>,
  tuples that are lists of datums, and cursors that are lists of tuples.
\<close>

section \<open>The catalog\<close>

datatype sample_datum = IntDatum u32 | NameDatum bytes

type_synonym sample_tuple = "sample_datum option list"

definition column :: "string \<Rightarrow> Oid \<Rightarrow> pg_attribute" where
  "column n ty = \<lparr> attname = n, atttypid = ty, attisdropped = False \<rparr>"

definition points :: relation where
  "points = \<lparr> rd_id = 16384, relnamespace = 2200, relname = ''points'', relreplident = CHR ''d'',
     rd_att = [column ''id'' 23, column ''x'' 23],
     rd_index = \<lparr> indisvalid = False, indisready = False, indisprimary = False, indkey = [] \<rparr> \<rparr>"

definition points_pkey :: relation where
  "points_pkey = \<lparr> rd_id = 16388, relnamespace = 2200, relname = ''points_pkey'', relreplident = CHR ''n'',
     rd_att = [column ''id'' 23],
     rd_index = \<lparr> indisvalid = True, indisready = True, indisprimary = True, indkey = [1] \<rparr> \<rparr>"

definition datum_int :: "sample_datum \<Rightarrow> u32" where
  "datum_int d = (case d of IntDatum n \<Rightarrow> n | NameDatum b \<Rightarrow> 0)"

definition datum_name :: "sample_datum \<Rightarrow> bytes" where
  "datum_name d = (case d of IntDatum n \<Rightarrow> [] | NameDatum b \<Rightarrow> b)"

definition sample_pg :: "(sample_tuple, sample_datum) pg_ops" where
  "sample_pg = \<lparr>
     RelationGetReplicaIndex = (\<lambda>rel. if rd_id rel = 16384 then 16388 else 0),
     RelationGetIndexList = (\<lambda>rel. if rd_id rel = 16384 then [16388] else []),
     relation_open = (\<lambda>oid. if oid = 16384 then Some points else if oid = 16388 then Some points_pkey else None),
     get_namespace_name = (\<lambda>oid. if oid = 2200 then Some ''public'' else None),
     equalTupleDescs = (\<lambda>a b. a = b),
     heap_getattr = (\<lambda>t n td. if 1 \<le> n \<and> n \<le> length t then t ! (n - 1) else None),
     DatumGetBool = (\<lambda>d. datum_int d \<noteq> 0),
     DatumGetFloat4 = (\<lambda>d. 0),
     DatumGetFloat8 = (\<lambda>d. 0),
     DatumGetInt16 = (\<lambda>d. ucast (datum_int d)),
     DatumGetInt32 = datum_int,
     DatumGetInt64 = (\<lambda>d. ucast (datum_int d)),
     DatumGetCash = (\<lambda>d. ucast (datum_int d)),
     DatumGetObjectId = datum_int,
     DatumGetTransactionId = datum_int,
     DatumGetCommandId = datum_int,
     DatumGetDateADT = datum_int,
     DatumGetTimeADT = (\<lambda>d. ucast (datum_int d)),
     DatumGetTimeTzADTP = (\<lambda>d. (ucast (datum_int d), 0)),
     DatumGetTimestamp = (\<lambda>d. ucast (datum_int d)),
     DatumGetByteaP = datum_name,
     DatumGetChar = (\<lambda>d. ucast (datum_int d)),
     DatumGetName = datum_name,
     TextDatumGetCString = datum_name,
     j2date = (\<lambda>n. (2000, 1, 1)),
     timestamp2tm = (\<lambda>tz n. None),
     interval2tm = (\<lambda>d. (\<lparr> tm_year = 0, tm_mon = 0, tm_mday = 0, tm_hour = 0, tm_min = 0, tm_sec = 0 \<rparr>, 0)),
     getTypeOutputInfo = (\<lambda>oid. (0, False)),
     PG_DETOAST_DATUM = (\<lambda>d. d),
     OidOutputFunctionCall = (\<lambda>oid d. datum_name d) \<rparr>"

abbreviation point :: "u32 \<Rightarrow> u32 \<Rightarrow> sample_tuple" where
  "point i x \<equiv> [Some (IntDatum i), Some (IntDatum x)]"


definition sample_spi :: "(sample_tuple, sample_tuple list, unit) spi_ops" where
  "sample_spi = \<lparr>
     SPI_connect = 1,
     SPI_execute_table_list = (\<lambda>pattern. (SPI_OK_SELECT,
        [[Some (IntDatum 16384), Some (NameDatum (bytes_of ''public'')), Some (NameDatum (bytes_of ''points'')),
          Some (IntDatum 100), Some (NameDatum (bytes_of ''points_pkey''))]], [])),
     quote_qualified_identifier = (\<lambda>n t. n @ bytes_of ''.'' @ t),
     SPI_prepare_cursor = (\<lambda>query. Some ()),
     SPI_cursor_open = (\<lambda>plan. [point 1 7, point 2 8]),
     SPI_cursor_fetch = (\<lambda>c. case c of
         [] \<Rightarrow> ([], rd_att points, []) | row # rows \<Rightarrow> ([row], rd_att points, rows)),
     relation_openrv = (\<lambda>name. if name = bytes_of ''points'' then Some points else None) \<rparr>"

lemma points_key: "key_index sample_pg points = Some (Some points_pkey)"
  by code_simp

lemma sample_compared: "tupdescs_compared sample_pg"
  by (simp add: tupdescs_compared_def sample_pg_def)

lemma points_relation_ok: "relation_ok sample_pg points"
  unfolding relation_ok_def points_key by (simp add: sample_pg_def points_def points_pkey_def column_def
    key_index_ok_def live_def key_attr_def)

section \<open>A log\<close>

definition sample_insert :: "sample_tuple reorder_change" where
  "sample_insert = \<lparr> change_action = REORDER_BUFFER_CHANGE_INSERT, change_oldtuple = None,
     change_newtuple = Some (point 1 7) \<rparr>"

text \<open>The key changes from 1 to 2.\<close>

definition sample_update :: "sample_tuple reorder_change" where
  "sample_update = \<lparr> change_action = REORDER_BUFFER_CHANGE_UPDATE, change_oldtuple = Some (point 1 7),
     change_newtuple = Some (point 2 7) \<rparr>"

definition sample_events :: "(sample_tuple, sample_datum) event list" where
  "sample_events = [Begin 7, Change sample_pg points sample_insert, Change sample_pg points sample_update, Commit 7 120]"

lemma sample_events_writable: "list_all (writable avro_codec_ref) sample_events"
  by code_simp

lemma sample_events_ok: "\<forall>ev \<in> set sample_events. event_ok ev \<and> writable avro_codec_ref ev"
  using sample_events_writable
  by (simp add: sample_events_def points_relation_ok sample_compared points_key)

section \<open>A snapshot\<close>

definition sample_export_table :: export_table where
  "sample_export_table = \<lparr> et_relid = 16384, et_rel = points, et_namespace = bytes_of ''public'',
     et_rel_name = bytes_of ''points'', et_repl_ident = 100, et_index_name = Some (bytes_of ''points_pkey'') \<rparr>"

abbreviation sample_work :: "(relation \<times> sample_tuple list) list" where
  "sample_work \<equiv> [(points, [point 1 7, point 2 8])]"

lemma sample_listed:
  "SPI_execute_table_list sample_spi pattern = (SPI_OK_SELECT, fst (snd (SPI_execute_table_list sample_spi [])), [])"
  "map (list_table sample_pg []) (fst (snd (SPI_execute_table_list sample_spi []))) = map Some [sample_export_table]"
  "selectable sample_spi False SPI_OK_SELECT [sample_export_table]"
  by (simp_all add: sample_spi_def list_table_def sample_pg_def datum_int_def datum_name_def sample_export_table_def
      selectable_def)

lemma live_points: "live (rd_att points) = rd_att points"
  by (simp add: live_def points_def column_def)

lemma sample_matches: "list_all2 (matches sample_spi) [sample_export_table] sample_work"
  by (simp add: matches_def table_rows_def sample_spi_def sample_export_table_def live_points)

lemma sample_relations: "relations_ok sample_pg sample_work"
  by (simp add: relations_ok_def points_relation_ok points_key)

lemma sample_rows_fit: "list_all (row_fits avro_codec_ref sample_pg) (rows_left sample_work)"
  by code_simp

section \<open>Clients\<close>

lemma sample_run_returns: "\<exists>s t. output_avro_startup avro_codec_ref = Some s \<and> plugin_run avro_codec_ref sample_events s = Ret () t"
proof -
  obtain s where s: "output_avro_startup avro_codec_ref = Some s" by (auto simp: output_avro_startup_def schema_for_frame_eq)
  with avro_codec.run_returns [OF cref.avro_codec_axioms output_avro_startup_ok(1) [OF cref.avro_codec_axioms s] sample_events_ok] show ?thesis by blast
qed

text \<open>An application without callbacks, and readers that know one table.\<close>

definition quiet :: "'s callbacks" where
  "quiet = \<lparr> cb_begin_txn = None, cb_commit_txn = None, cb_table_schema = None, cb_insert_row = None,
     cb_update_row = None, cb_delete_row = None \<rparr>"

lemma quiet_ok: "callbacks_ok quiet" "callbacks_keep_reader quiet"
  by (simp_all add: callbacks_ok_def callbacks_keep_reader_def quiet_def)

definition sample_reader :: "schema_list_entry \<Rightarrow> frame_reader" where
  "sample_reader e = \<lparr> num_schemas = 1, capacity = 16, schemas = [e], frame_value = default_val frame_schema,
     reader_refs = Valid () \<rparr>"

definition sample_keyed_entry :: schema_list_entry where
  "sample_keyed_entry = sample_entry\<lparr>key_schema := Valid SLong, key_iface := Valid SLong, key_value := Valid (VLong 0)\<rparr>"

lemma sample_reader_ok: "reader_ok (sample_reader sample_entry)" "reader_ok (sample_reader sample_keyed_entry)"
  by (simp_all add: reader_ok_def sample_reader_def table_invar_def has_schema_default entry_ok_def sample_entry_def
      sample_keyed_entry_def)

lemma sample_frame: "avro_value_write avro_codec_ref (frame_of [BeginTxn 7]) 100 = (0, [2, 0, 14, 0])"
  by code_simp

text \<open>A mapper whose topic prefix is too long for any table.\<close>

definition sample_mapper :: table_mapper where
  "sample_mapper = \<lparr> mapper_errbuf = ([], []), mapper_registry = None, mapper_topic_prefix = Some (replicate 300 (CHR ''p'')),
     num_tables = 1, mapper_capacity = 16, tables = [sample_table] \<rparr>"

lemma sample_mapper_inv: "mapper_inv sample_mapper"
  by (simp add: mapper_inv_def sample_mapper_def table_invar_def table_inv_def sample_table_def)

end
