(* ===== verification/Getopt.thy ===== *)
theory Getopt
  imports BW_Prelude
begin

text \<open>
  The command line parser of the C library, \<open>getopt_long\<close>, as far as the two programs use it: an
  option string without the prefix characters \<open>+\<close>, \<open>-\<close> and \<open>:\<close>, and long options with no
  argument or a required one. Arguments that are not options are moved behind the options, as the
  library does by default, so a program sees the options first (\<open>option_event\<close>, in their order),
  and \<open>optind < argc\<close> afterwards means that other arguments are left.
\<close>

section \<open>Tables of options\<close>

datatype has_arg = no_argument | required_argument

type_synonym short_table = "(char \<times> has_arg) list"
type_synonym long_table = "(string \<times> has_arg \<times> int) list"

text \<open>The option string: a character, followed by a colon if it takes an argument.\<close>

fun short_options :: "string \<Rightarrow> short_table" where
  "short_options [] = []"
| "short_options [c] = [(c, no_argument)]"
| "short_options (c # d # cs) =
     (if d = CHR '':'' then (c, required_argument) # short_options cs
      else (c, no_argument) # short_options (d # cs))"

text \<open>
  What one call returns: the value of an option, with \<open>optarg\<close>, or \<open>'?'\<close> for an unknown or
  ambiguous option, a missing argument and an argument that is not allowed.
\<close>

datatype option_event = Opt int "string option" | Unknown

definition short_val :: "char \<Rightarrow> int" where
  "short_val c = int (of_char c)"

section \<open>Parsing\<close>

text \<open>An argument with one dash: options without argument may be followed by others.\<close>

fun short_cluster :: "short_table \<Rightarrow> string \<Rightarrow> string list \<Rightarrow> option_event list \<times> string list" where
  "short_cluster sh [] args = ([], args)"
| "short_cluster sh (c # cs) args = (case map_of sh c of
     None \<Rightarrow> apfst (Cons Unknown) (short_cluster sh cs args)
   | Some no_argument \<Rightarrow> apfst (Cons (Opt (short_val c) None)) (short_cluster sh cs args)
   | Some required_argument \<Rightarrow>
       if cs \<noteq> [] then ([Opt (short_val c) (Some cs)], args)
       else (case args of
           [] \<Rightarrow> ([Unknown], [])
         | a # args \<Rightarrow> ([Opt (short_val c) (Some a)], args)))"

text \<open>The long option of a name: an exact match, or the only option that the name abbreviates.\<close>

definition find_long :: "long_table \<Rightarrow> string \<Rightarrow> (has_arg \<times> int) option" where
  "find_long longs name = (case map_of longs name of
     Some opt \<Rightarrow> Some opt
   | None \<Rightarrow> (case remdups (map snd (filter (\<lambda>opt. take (length name) (fst opt) = name) longs)) of
       [opt] \<Rightarrow> Some opt
     | _ \<Rightarrow> None))"

definition split_eq :: "string \<Rightarrow> string \<times> string option" where
  "split_eq cs = (let name = takeWhile (\<lambda>c. c \<noteq> CHR ''='') cs in
     (name, if length name < length cs then Some (drop (length name + 1) cs) else None))"

definition long_option :: "long_table \<Rightarrow> string \<Rightarrow> string list \<Rightarrow> option_event \<times> string list" where
  "long_option longs cs args = (case split_eq cs of (name, val) \<Rightarrow>
     (case find_long longs name of
        None \<Rightarrow> (Unknown, args)
      | Some (no_argument, v) \<Rightarrow> (if val = None then Opt v None else Unknown, args)
      | Some (required_argument, v) \<Rightarrow> (case (val, args) of
            (Some x, _) \<Rightarrow> (Opt v (Some x), args)
          | (None, a # args) \<Rightarrow> (Opt v (Some a), args)
          | (None, []) \<Rightarrow> (Unknown, []))))"

lemma short_cluster_shorter: "length (snd (short_cluster sh cs args)) \<le> length args"
  by (induction sh cs args rule: short_cluster.induct) (auto split: option.split has_arg.split list.split)

lemma long_option_shorter: "length (snd (long_option longs cs args)) \<le> length args"
  by (auto simp: long_option_def split: prod.split option.split has_arg.split list.split)

text \<open>All calls until the result \<open>-1\<close>: the options, and the arguments left over.\<close>

function getopt_long :: "short_table \<Rightarrow> long_table \<Rightarrow> string list \<Rightarrow> option_event list \<times> string list" where
  "getopt_long sh longs [] = ([], [])"
| "getopt_long sh longs (a # args) =
     (if a = ''--'' then ([], args)
      else if take 2 a = ''--'' then
        (case long_option longs (drop 2 a) args of
           (e, args) \<Rightarrow> apfst (Cons e) (getopt_long sh longs args))
      else if take 1 a = ''-'' \<and> 1 < length a then
        (case short_cluster sh (drop 1 a) args of
           (es, args) \<Rightarrow> apfst (append es) (getopt_long sh longs args))
      else apsnd (Cons a) (getopt_long sh longs args))"
  by pat_completeness auto
termination
  by (relation "measure (\<lambda>(sh, longs, args). length args)")
    (use long_option_shorter short_cluster_shorter in \<open>auto simp: less_Suc_eq_le, (metis snd_conv)+\<close>)

declare getopt_long.simps(2) [simp del]

section \<open>The ways to write an option\<close>

text \<open>
  \<open>-cvalue\<close>, \<open>-c value\<close>, \<open>--name=value\<close> and \<open>--name value\<close>, and \<open>-c\<close> and \<open>--name\<close> for an
  option without argument.
\<close>

datatype spelling = Attached char | Separate char | LongEq string | LongSeparate string

fun spell :: "spelling \<Rightarrow> string option \<Rightarrow> string list" where
  "spell (Attached c) val = [CHR ''-'' # c # (case val of None \<Rightarrow> [] | Some v \<Rightarrow> v)]"
| "spell (Separate c) val = [CHR ''-'', c] # (case val of None \<Rightarrow> [] | Some v \<Rightarrow> [v])"
| "spell (LongEq name) val = [''--'' @ name @ (case val of None \<Rightarrow> [] | Some v \<Rightarrow> ''='' @ v)]"
| "spell (LongSeparate name) val = (''--'' @ name) # (case val of None \<Rightarrow> [] | Some v \<Rightarrow> [v])"

text \<open>A spelling of the option with value \<open>v\<close>; an attached value is not empty.\<close>

fun spells :: "short_table \<Rightarrow> long_table \<Rightarrow> spelling \<Rightarrow> int \<Rightarrow> string option \<Rightarrow> bool" where
  "spells sh longs (Attached c) v val =
     (c \<noteq> CHR ''-'' \<and> v = short_val c \<and> val \<noteq> Some [] \<and>
      map_of sh c = Some (if val = None then no_argument else required_argument))"
| "spells sh longs (Separate c) v val =
     (c \<noteq> CHR ''-'' \<and> v = short_val c \<and>
      map_of sh c = Some (if val = None then no_argument else required_argument))"
| "spells sh longs (LongEq name) v val =
     (name \<noteq> [] \<and> CHR ''='' \<notin> set name \<and>
      find_long longs name = Some (if val = None then no_argument else required_argument, v))"
| "spells sh longs (LongSeparate name) v val =
     (name \<noteq> [] \<and> CHR ''='' \<notin> set name \<and>
      find_long longs name = Some (if val = None then no_argument else required_argument, v))"

lemma takeWhile_neq_all: "x \<notin> set xs \<Longrightarrow> takeWhile (\<lambda>y. y \<noteq> x) xs = xs"
  by (auto simp: takeWhile_eq_all_conv)

lemma takeWhile_neq_append: "x \<notin> set xs \<Longrightarrow> takeWhile (\<lambda>y. y \<noteq> x) (xs @ x # ys) = xs"
  by (induction xs) auto

lemma split_eq_name:
  "CHR ''='' \<notin> set name \<Longrightarrow> split_eq name = (name, None)"
  "CHR ''='' \<notin> set name \<Longrightarrow> split_eq (name @ CHR ''='' # v) = (name, Some v)"
  by (simp_all add: split_eq_def takeWhile_neq_all takeWhile_neq_append Let_def)

lemma getopt_spell:
  assumes "spells sh longs sp v val"
  shows "getopt_long sh longs (spell sp val @ args) = apfst (Cons (Opt v val)) (getopt_long sh longs args)"
proof (cases sp)
  case (Attached c)
  with assms show ?thesis
    by (cases val) (auto simp: getopt_long.simps(2) numeral_2_eq_2)
next
  case (Separate c)
  with assms show ?thesis
    by (cases val) (auto simp: getopt_long.simps(2) numeral_2_eq_2)
next
  case (LongEq name)
  with assms show ?thesis
    by (cases val) (auto simp: getopt_long.simps(2) long_option_def split_eq_name numeral_2_eq_2)
next
  case (LongSeparate name)
  with assms show ?thesis
    by (cases val) (auto simp: getopt_long.simps(2) long_option_def split_eq_name numeral_2_eq_2)
qed

lemma getopt_spellings:
  assumes "\<forall>(sp, v, val) \<in> set settings. spells sh longs sp v val"
  shows "getopt_long sh longs (concat (map (\<lambda>(sp, v, val). spell sp val) settings)) =
      (map (\<lambda>(sp, v, val). Opt v val) settings, [])"
  using assms by (induction settings) (auto simp: getopt_spell)

end
