(* ===== verification/Producer_Main.thy ===== *)
theory Producer_Main
  imports Getopt Mapper_Safety Producer_Run Reader_Safety
begin

text \<open>
  The program \<open>bottledwater\<close> around the callbacks of \<open>Producer\<close>: the command line, the
  configuration of Kafka, the start of the producer and of the client, and the main loop, all of
  \<open>kafka/bottledwater.c\<close>.

  The configuration objects of librdkafka are values of types \<open>'c\<close> (global) and \<open>'t\<close> (topics),
  which only the library looks into. \<open>malloc\<close> gives memory of arbitrary contents: the functions that
  allocate and clear a structure start from any state. Texts written to \<open>stderr\<close> are not modelled.
\<close>

section \<open>State and libraries\<close>

record ('w, 'c, 't) main_context = "'w producer_context" +
  kafka_conf :: 'c
  topic_conf :: 't
  producer_errbuf :: string

text \<open>
  A failing call gives the text that the library writes into the error buffer. \<open>rd_kafka_new\<close> and
  \<open>rd_kafka_brokers_add\<close> work on the outside world; the latter gives the number of brokers added.
\<close>

record ('w, 'c, 't) conf_ops =
  rd_kafka_conf_new :: 'c
  rd_kafka_topic_conf_new :: 't
  rd_kafka_topic_conf_set_partitioner_cb :: "'t \<Rightarrow> 't"
  rd_kafka_conf_set_dr_msg_cb :: "'c \<Rightarrow> 'c"
  rd_kafka_conf_set :: "'c \<Rightarrow> string \<Rightarrow> string \<Rightarrow> string + 'c"
  rd_kafka_topic_conf_set :: "'t \<Rightarrow> string \<Rightarrow> string \<Rightarrow> string + 't"
  rd_kafka_new :: "'c \<Rightarrow> 'w \<Rightarrow> (string + unit) \<times> 'w"
  rd_kafka_brokers_add :: "string \<Rightarrow> 'w \<Rightarrow> nat \<times> 'w"

section \<open>Configuration\<close>

definition set_kafka_config :: "('w, 'c, 't) conf_ops \<Rightarrow> string \<Rightarrow> string \<Rightarrow>
    (('w, 'c, 't) main_context, unit) prog" where
  "set_kafka_config C property val context =
     (case rd_kafka_conf_set C (kafka_conf context) property val of
        Inl err \<Rightarrow> Exit 1 (context\<lparr>producer_errbuf := err\<rparr>)
      | Inr conf \<Rightarrow> Ret () (context\<lparr>kafka_conf := conf\<rparr>))"

definition set_topic_config :: "('w, 'c, 't) conf_ops \<Rightarrow> string \<Rightarrow> string \<Rightarrow>
    (('w, 'c, 't) main_context, unit) prog" where
  "set_topic_config C property val context =
     (case rd_kafka_topic_conf_set C (topic_conf context) property val of
        Inl err \<Rightarrow> Exit 1 (context\<lparr>producer_errbuf := err\<rparr>)
      | Inr conf \<Rightarrow> Ret () (context\<lparr>topic_conf := conf\<rparr>))"

text \<open>\<open>schema_registry_new\<close> does not return a null pointer.\<close>

definition init_schema_registry :: "string \<Rightarrow> (('w, 'c, 't) main_context, unit) prog" where
  "init_schema_registry url context = Ret () (context\<lparr>registry := Some (schema_registry_new url)\<rparr>)"

definition set_output_format :: "string \<Rightarrow> (('w, 'c, 't) main_context, unit) prog" where
  "set_output_format format context =
     (if ''avro'' = format then Ret () (context\<lparr>output_format := OUTPUT_FORMAT_AVRO\<rparr>)
      else if ''json'' = format then Ret () (context\<lparr>output_format := OUTPUT_FORMAT_JSON\<rparr>)
      else Exit 1 context)"

text \<open>The parts of an option before and after the first equals sign.\<close>

definition parse_config_option :: "string \<Rightarrow> (string \<times> string) option" where
  "parse_config_option opt = (case split_eq opt of
     (property, Some val) \<Rightarrow> Some (property, val)
   | (_, None) \<Rightarrow> None)"

section \<open>The command line\<close>

definition producer_longs :: long_table where
  "producer_longs =
     [(''postgres'', required_argument, short_val (CHR ''d'')),
      (''slot'', required_argument, short_val (CHR ''s'')),
      (''broker'', required_argument, short_val (CHR ''b'')),
      (''schema-registry'', required_argument, short_val (CHR ''r'')),
      (''output-format'', required_argument, short_val (CHR ''f'')),
      (''allow-unkeyed'', no_argument, short_val (CHR ''u'')),
      (''topic-prefix'', required_argument, short_val (CHR ''p'')),
      (''kafka-config'', required_argument, short_val (CHR ''C'')),
      (''topic-config'', required_argument, short_val (CHR ''T'')),
      (''config-help'', no_argument, 1)]"

definition producer_shorts :: short_table where
  "producer_shorts = short_options ''d:s:b:r:f:up:C:T:''"

definition usage :: "('s, 'a) prog" where
  "usage context = Exit 1 context"

text \<open>The \<open>switch\<close> on the result of one call of \<open>getopt_long\<close>.\<close>

fun parse_option :: "('w, 'c, 't) conf_ops \<Rightarrow> option_event \<Rightarrow> (('w, 'c, 't) main_context, unit) prog" where
  "parse_option C (Opt c (Some optarg)) context =
     (if c = short_val (CHR ''d'') then Ret () (context\<lparr>conninfo := Some optarg\<rparr>)
      else if c = short_val (CHR ''s'') then Ret () (context\<lparr>slot_name := Some optarg\<rparr>)
      else if c = short_val (CHR ''b'') then Ret () (context\<lparr>brokers := optarg\<rparr>)
      else if c = short_val (CHR ''r'') then init_schema_registry optarg context
      else if c = short_val (CHR ''f'') then set_output_format optarg context
      else if c = short_val (CHR ''p'') then Ret () (context\<lparr>topic_prefix := Some optarg\<rparr>)
      else if c = short_val (CHR ''C'') then (case parse_config_option optarg of
          None \<Rightarrow> Exit 1 context
        | Some (property, val) \<Rightarrow> set_kafka_config C property val context)
      else if c = short_val (CHR ''T'') then (case parse_config_option optarg of
          None \<Rightarrow> Exit 1 context
        | Some (property, val) \<Rightarrow> set_topic_config C property val context)
      else usage context)"
| "parse_option C (Opt c None) context =
     (if c = short_val (CHR ''u'') then Ret () (context\<lparr>allow_unkeyed := True\<rparr>)
      else if c = 1 then Exit 1 context
      else usage context)"
| "parse_option C Unknown context = usage context"

fun parse_each :: "('w, 'c, 't) conf_ops \<Rightarrow> option_event list \<Rightarrow> (('w, 'c, 't) main_context, unit) prog" where
  "parse_each C [] context = Ret () context"
| "parse_each C (e # es) context = andthen (parse_option C e context) (\<lambda>_. parse_each C es)"

text \<open>What is done after the loop; \<open>others\<close> are the arguments that are not options.\<close>

definition check_options :: "string list \<Rightarrow> (('w, 'c, 't) main_context, unit) prog" where
  "check_options others context =
     (if conninfo context = None \<or> others \<noteq> [] then usage context
      else if output_format context = OUTPUT_FORMAT_AVRO \<and> registry context = None then
        init_schema_registry ''http://localhost:8081'' context
      else if output_format context = OUTPUT_FORMAT_JSON \<and> registry context \<noteq> None then usage context
      else Ret () context)"

definition parse_options :: "('w, 'c, 't) conf_ops \<Rightarrow> string list \<Rightarrow> (('w, 'c, 't) main_context, unit) prog" where
  "parse_options C argv context =
     (case getopt_long producer_shorts producer_longs (tl argv) of (events, others) \<Rightarrow>
        andthen (parse_each C events context) (\<lambda>_. check_options others))"

section \<open>Initialisation\<close>

text \<open>The callbacks that \<open>init_client\<close> installs are \<open>producer_callbacks\<close>.\<close>

definition init_client :: "('y avro_io_scheme) \<Rightarrow> (('w, 'z) client_context_scheme, unit) prog" where
  "init_client A context = (case frame_reader_new A of
     None \<Rightarrow> Undef
   | Some frame_reader \<Rightarrow> Ret () (set_frame_reader frame_reader ((db_client_new context)
       \<lparr>app_name := Some ''bottledwater'', allow_unkeyed := False, slot_name := Some ''bottledwater'',
        output_plugin := Some ''bottledwater''\<rparr>)))"

definition init_producer :: "('w, 'c, 't) conf_ops \<Rightarrow> (('w, 'c, 't) main_context, unit) prog" where
  "init_producer C context =
     (let context = context\<lparr>registry := None,
            xact_list := (\<lambda>_. \<lparr> xid = 0, recvd_events = 0, pending_events = 0, commit_lsn = 0 \<rparr>),
            xact_head := 0, xact_tail := 0, mapper := None, topic_prefix := None, kafka_outq := [],
            producer_errbuf := []\<rparr>;
          context = context\<lparr>output_format := OUTPUT_FORMAT_AVRO, brokers := ''localhost:9092'',
            kafka_conf := rd_kafka_conf_new C,
            topic_conf := rd_kafka_topic_conf_set_partitioner_cb C (rd_kafka_topic_conf_new C)\<rparr>
      in andthen (set_topic_config C ''produce.offset.report'' ''true'' context) (\<lambda>_ context.
           Ret () (context\<lparr>kafka_conf := rd_kafka_conf_set_dr_msg_cb C (kafka_conf context)\<rparr>)))"

definition start_producer :: "('w, 'c, 't) conf_ops \<Rightarrow> (('w, 'c, 't) main_context, unit) prog" where
  "start_producer C context =
     (case rd_kafka_new C (kafka_conf context) (world context) of (kafka, w) \<Rightarrow>
        let context = context\<lparr>world := w\<rparr> in
        case kafka of
          Inl err \<Rightarrow> Exit 1 (context\<lparr>producer_errbuf := err\<rparr>)
        | Inr _ \<Rightarrow> (case rd_kafka_brokers_add C (brokers context) w of (added, w) \<Rightarrow>
            let context = context\<lparr>world := w\<rparr> in
            if added = 0 then Exit 1 context
            else Ret () (context\<lparr>mapper := Some (table_mapper_new (registry context) (topic_prefix context))\<rparr>)))"

section \<open>The main program\<close>

text \<open>The macro \<open>ensure\<close>: an error of the client ends the program.\<close>

definition ensure :: "'w pq_ops \<Rightarrow> (('w, 'z) producer_context_scheme, int) outcome \<Rightarrow>
    (('w, 'z) producer_context_scheme, 'a) prog \<Rightarrow> (('w, 'z) producer_context_scheme, 'a) outcome" where
  "ensure L r k = andthen r (\<lambda>err context. if err \<noteq> 0 then exit_nicely L 1 context else k context)"

definition initialise :: "('y avro_io_scheme) \<Rightarrow> ('w, 'c, 't) conf_ops \<Rightarrow> string list \<Rightarrow>
    (('w, 'c, 't) main_context, unit) prog" where
  "initialise A C argv context =
     andthen (init_client A context) (\<lambda>_ context.
     andthen (init_producer C context) (\<lambda>_ context.
     andthen (parse_options C argv context) (\<lambda>_.
     start_producer C)))"

text \<open>One round of the \<open>while\<close> loop; the budget \<open>n\<close> is that of the waits inside the callbacks.\<close>

definition main_round :: "('y avro_io_scheme) \<Rightarrow> 'w http_ops \<Rightarrow> 'w kafka_ops \<Rightarrow> 'w pq_ops \<Rightarrow> nat \<Rightarrow>
    (('w, 'z) producer_context_scheme, unit) prog" where
  "main_round A R K L n context =
     ensure L (db_client_poll A L (producer_callbacks A R K L n) context) (\<lambda>context.
     ensure L (if client_status context = 0 then db_client_wait L context else Ret 0 context) (
     kafka_poll K L 0))"

text \<open>The loop with a budget of rounds, and what follows it.\<close>

fun main_loop :: "('y avro_io_scheme) \<Rightarrow> 'w http_ops \<Rightarrow> 'w kafka_ops \<Rightarrow> 'w pq_ops \<Rightarrow> nat \<Rightarrow> nat \<Rightarrow>
    (('w, 'z) producer_context_scheme, unit) prog" where
  "main_loop A R K L n 0 context = Stuck context"
| "main_loop A R K L n (Suc m) context =
     (if 0 \<le> client_status context \<and> \<not> shutdown_signal K (world context)
      then andthen (main_round A R K L n context) (\<lambda>_. main_loop A R K L n m)
      else exit_nicely L 0 context)"

definition main :: "('y avro_io_scheme) \<Rightarrow> 'w http_ops \<Rightarrow> 'w kafka_ops \<Rightarrow> 'w pq_ops \<Rightarrow> ('w, 'c, 't) conf_ops \<Rightarrow>
    nat \<Rightarrow> nat \<Rightarrow> string list \<Rightarrow> (('w, 'c, 't) main_context, unit) prog" where
  "main A R K L C n m argv context =
     andthen (initialise A C argv context) (\<lambda>_ context.
     ensure L (db_client_start L (producer_callbacks A R K L n) context) (main_loop A R K L n m))"

section \<open>The options leave the rest of the state alone\<close>

text \<open>What the command line does not set.\<close>

definition other_part :: "('w, 'c, 't) main_context \<Rightarrow> _" where
  "other_part s = (reader_part s, (output_plugin s, repl_conn s, fsync_lsn s, recvd_lsn s, app_name s, sql_conn s, taking_snapshot s),
     (xact_list s, xact_head s, xact_tail s, mapper s, kafka_outq s), world s)"

definition configured :: "('w, 'c, 't) main_context \<Rightarrow> ('w, 'c, 't) main_context \<Rightarrow> bool" where
  "configured s t \<longleftrightarrow> other_part t = other_part s \<and> (slot_name s \<noteq> None \<longrightarrow> slot_name t \<noteq> None) \<and>
     (output_format s \<in> {OUTPUT_FORMAT_AVRO, OUTPUT_FORMAT_JSON} \<longrightarrow>
      output_format t \<in> {OUTPUT_FORMAT_AVRO, OUTPUT_FORMAT_JSON})"

lemma other_part_upds [simp]:
  "other_part (s\<lparr>conninfo := a\<rparr>) = other_part s" "other_part (s\<lparr>slot_name := a\<rparr>) = other_part s" "other_part (s\<lparr>brokers := b\<rparr>) = other_part s"
  "other_part (s\<lparr>registry := r\<rparr>) = other_part s" "other_part (s\<lparr>output_format := i\<rparr>) = other_part s"
  "other_part (s\<lparr>allow_unkeyed := u\<rparr>) = other_part s" "other_part (s\<lparr>topic_prefix := a\<rparr>) = other_part s"
  "other_part (s\<lparr>kafka_conf := k\<rparr>) = other_part s" "other_part (s\<lparr>topic_conf := t\<rparr>) = other_part s"
  "other_part (s\<lparr>producer_errbuf := e\<rparr>) = other_part s"
  by (simp_all add: other_part_def reader_part_def)

lemma configured_trans: "configured s t \<Longrightarrow> configured t u \<Longrightarrow> configured s u"
  by (auto simp: configured_def)

text \<open>A function of the option parser: it changes the configuration or ends the program with status 1.\<close>

definition configures :: "(('w, 'c, 't) main_context, unit) prog \<Rightarrow> bool" where
  "configures f \<longleftrightarrow> (\<forall>s. case f s of Ret _ t \<Rightarrow> configured s t | Exit n _ \<Rightarrow> n = 1 | _ \<Rightarrow> False)"

lemma configures_andthen:
  assumes "configures f" and "configures g"
  shows "configures (\<lambda>s. andthen (f s) (\<lambda>_. g))"
  unfolding configures_def
proof
  fix s
  have f: "case f s of Ret _ t \<Rightarrow> configured s t | Exit n _ \<Rightarrow> n = 1 | _ \<Rightarrow> False"
    using assms(1) by (simp add: configures_def)
  have g: "case g t of Ret _ u \<Rightarrow> configured t u | Exit n _ \<Rightarrow> n = 1 | _ \<Rightarrow> False" for t
    using assms(2) by (simp add: configures_def)
  show "case andthen (f s) (\<lambda>_. g) of Ret _ t \<Rightarrow> configured s t | Exit n _ \<Rightarrow> n = 1 | _ \<Rightarrow> False"
  proof (cases "f s")
    case (Ret a t)
    with f g [of t] show ?thesis by (cases "g t") (auto intro: configured_trans)
  qed (use f in simp_all)
qed

lemma configures_Ret: "configures (Ret ())"
  by (simp add: configures_def configured_def)

lemma configures_option: "configures (parse_option C e)"
proof -
  have "case parse_option C e s of Ret _ t \<Rightarrow> configured s t | Exit n _ \<Rightarrow> n = 1 | _ \<Rightarrow> False" for s
    by (induction C e s rule: parse_option.induct)
      (auto simp: init_schema_registry_def set_output_format_def set_kafka_config_def set_topic_config_def
        usage_def configured_def split: option.split sum.split prod.split)
  then show ?thesis by (simp add: configures_def)
qed

lemma configures_each: "configures (parse_each C es)"
proof (induction es)
  case Nil
  show ?case using configures_Ret by (simp add: configures_def)
next
  case (Cons e es)
  from configures_andthen [OF configures_option this] show ?case by (simp add: configures_def)
qed

lemma configures_check: "configures (check_options others)"
  unfolding configures_def
  by (auto simp: check_options_def init_schema_registry_def usage_def configured_def)

lemma configures_options: "configures (parse_options C argv)"
proof -
  obtain es others where g: "getopt_long producer_shorts producer_longs (tl argv) = (es, others)" by fastforce
  from configures_andthen [OF configures_each configures_check, of C es others] show ?thesis
    unfolding configures_def parse_options_def g prod.case .
qed

definition options_ok :: "('w, 'c, 't) main_context \<Rightarrow> bool" where
  "options_ok s \<longleftrightarrow> conninfo s \<noteq> None \<and>
     (output_format s = OUTPUT_FORMAT_AVRO \<and> registry s \<noteq> None \<or>
      output_format s = OUTPUT_FORMAT_JSON \<and> registry s = None)"

lemma check_options_ok:
  assumes "output_format s \<in> {OUTPUT_FORMAT_AVRO, OUTPUT_FORMAT_JSON}"
  shows "post (\<lambda>_ t. options_ok t) (check_options others s)"
  using assms by (auto simp: check_options_def init_schema_registry_def usage_def options_ok_def)

lemma parse_options_ok:
  assumes "output_format s \<in> {OUTPUT_FORMAT_AVRO, OUTPUT_FORMAT_JSON}"
  shows "post (\<lambda>_ t. options_ok t) (parse_options C argv s)"
proof -
  obtain es others where g: "getopt_long producer_shorts producer_longs (tl argv) = (es, others)" by fastforce
  have "post (\<lambda>_ t. configured s t) (parse_each C es s)"
    using spec [OF configures_each [of C es, unfolded configures_def], of s] by (cases "parse_each C es s") simp_all
  then have "post (\<lambda>_ t. output_format t \<in> {OUTPUT_FORMAT_AVRO, OUTPUT_FORMAT_JSON}) (parse_each C es s)"
    by (rule post_mono) (use assms in \<open>auto simp: configured_def\<close>)
  then show ?thesis
    unfolding parse_options_def g prod.case by (rule post_andthenI) (rule check_options_ok)
qed

section \<open>A fresh program\<close>

text \<open>The state after clearing, and the state in which the client is started.\<close>

definition cleared :: "('w, 'c, 't) main_context \<Rightarrow> bool" where
  "cleared s \<longleftrightarrow> fresh_producer s \<and> reader_ok s \<and> schemas s = [] \<and>
     app_name s = Some ''bottledwater'' \<and> slot_name s \<noteq> None \<and> output_plugin s = Some ''bottledwater'' \<and>
     sql_conn s = None \<and> repl_conn s = None \<and> recvd_lsn s = 0 \<and> \<not> taking_snapshot s"

definition initialised :: "('w, 'c, 't) main_context \<Rightarrow> bool" where
  "initialised s \<longleftrightarrow> cleared s \<and> options_ok s \<and>
     mapper s = Some (table_mapper_new (registry s) (topic_prefix s))"

lemma cleared_configured: "cleared s \<Longrightarrow> configured s t \<Longrightarrow> cleared t"
  by (auto simp: cleared_def configured_def other_part_def fresh_producer_def reader_ok_def reader_part_def)

lemma init_client_client:
  assumes "init_client A s = Ret u t"
  shows "app_name t = Some ''bottledwater''" "slot_name t = Some ''bottledwater''"
    "output_plugin t = Some ''bottledwater''" "sql_conn t = None" "repl_conn t = None" "recvd_lsn t = 0"
    "fsync_lsn t = 0" "\<not> taking_snapshot t" "schemas t = []" "start_lsn t = 0"
  using assms
  by (auto simp: init_client_def frame_reader_new_def set_frame_reader_def db_client_new_def split: option.splits)

lemma init_client_reader:
  assumes "avro_codec A" and "init_client A s = Ret u t"
  shows "reader_ok t"
  using assms avro_codec.value_new [OF assms(1)]
  by (auto simp: init_client_def frame_reader_new_def schema_for_frame_eq set_frame_reader_def reader_ok_def
      table_invar_def has_schema_default)

lemma init_client_returns: "\<exists>t. init_client A s = Ret () t"
  by (simp add: init_client_def frame_reader_new_def schema_for_frame_eq)

lemma init_producer_cleared:
  assumes "avro_codec A" and "init_client A s = Ret u t"
  shows "case init_producer C t of Ret _ v \<Rightarrow> cleared v \<and> output_format v = OUTPUT_FORMAT_AVRO | Exit n _ \<Rightarrow> n = 1 | _ \<Rightarrow> False"
proof -
  note i = init_client_client [OF assms(2)] init_client_reader [OF assms]
  show ?thesis
    using i by (simp add: init_producer_def set_topic_config_def Let_def cleared_def fresh_producer_def
        reader_ok_def split: sum.split)
qed

lemma start_producer_initialised:
  assumes "cleared s" and "options_ok s"
  shows "case start_producer C s of Ret _ t \<Rightarrow> initialised t | Exit n _ \<Rightarrow> n = 1 | _ \<Rightarrow> False"
  using assms
  by (auto simp: start_producer_def Let_def initialised_def cleared_def options_ok_def fresh_producer_def
      reader_ok_def split: prod.split sum.split)

theorem initialise_ok:
  assumes "avro_codec A"
  shows "case initialise A C argv s of Ret _ t \<Rightarrow> initialised t | Exit n _ \<Rightarrow> n = 1 | _ \<Rightarrow> False"
proof -
  obtain s1 where s1: "init_client A s = Ret () s1" using init_client_returns by blast
  note p = init_producer_cleared [OF assms s1, of C]
  show ?thesis
  proof (cases "init_producer C s1")
    case (Ret a s2)
    then have s2: "cleared s2" "output_format s2 = OUTPUT_FORMAT_AVRO" using p by simp_all
    have c: "case parse_options C argv s2 of Ret _ t \<Rightarrow> configured s2 t | Exit n _ \<Rightarrow> n = 1 | _ \<Rightarrow> False"
      by (rule spec [OF configures_options [unfolded configures_def]])
    have ok: "post (\<lambda>_ t. options_ok t) (parse_options C argv s2)"
      using s2(2) by (intro parse_options_ok) simp
    show ?thesis
    proof (cases "parse_options C argv s2")
      case r: (Ret b s3)
      with c ok s2(1) have "cleared s3" "options_ok s3" by (auto intro: cleared_configured)
      from start_producer_initialised [OF this, of C] show ?thesis
        by (simp add: initialise_def s1 Ret r)
    qed (use c in \<open>simp_all add: initialise_def s1 Ret\<close>)
  qed (use p in \<open>simp_all add: initialise_def s1\<close>)
qed

end
