(* ===== verification/Main_Run.thy ===== *)
theory Main_Run
  imports Producer_Main
begin

text \<open>
  The main loop of \<open>bottledwater\<close> as a run of the producer: the client's own functions (connecting,
  polling, waiting, status updates) leave the producer's part of the state alone, and the frames they
  receive are handed to the callbacks message by message. So every state of the main loop
  (\<open>main_state\<close>) is a state of \<open>producer_run\<close>, if the server sends the messages of the protocol in
  their order, and what holds of runs holds of the program.
\<close>

section \<open>The client's own part\<close>

text \<open>Steps of the client that leave the producer's part and the frame reader alone.\<close>

definition client_only :: "('w, 'z) producer_context_scheme \<Rightarrow> ('w, 'z) producer_context_scheme \<Rightarrow> bool" where
  "client_only s t \<longleftrightarrow> core t = core s \<and> reader_part t = reader_part s"

lemma client_only_refl [simp]: "client_only s s"
  by (simp add: client_only_def)

lemma client_only_trans: "client_only s t \<Longrightarrow> client_only t u \<Longrightarrow> client_only s u"
  by (simp add: client_only_def)

lemma client_only_upds [simp]:
  "client_only s (t\<lparr>world := w\<rparr>) = client_only s t"
  "client_only s (t\<lparr>repl_errbuf := e\<rparr>) = client_only s t"
  "client_only s (t\<lparr>client_errbuf := e\<rparr>) = client_only s t"
  "client_only s (t\<lparr>sql_conn := c\<rparr>) = client_only s t"
  "client_only s (t\<lparr>repl_conn := c\<rparr>) = client_only s t"
  "client_only s (t\<lparr>start_lsn := l\<rparr>) = client_only s t"
  "client_only s (t\<lparr>recvd_lsn := l\<rparr>) = client_only s t"
  "client_only s (t\<lparr>snapshot_name := n\<rparr>) = client_only s t"
  "client_only s (t\<lparr>taking_snapshot := b\<rparr>) = client_only s t"
  "client_only s (t\<lparr>client_status := i\<rparr>) = client_only s t"
  "client_only s (t\<lparr>repl_status := i\<rparr>) = client_only s t"
  "client_only s (t\<lparr>last_checkpoint := i\<rparr>) = client_only s t"
  by (simp_all add: client_only_def core_def reader_part_def)

lemma client_only_errors [simp]:
  "client_only s (repl_error f a t) = client_only s t"
  "client_only s (client_error f a t) = client_only s t"
  by (simp_all add: repl_error_def client_error_def)

lemma checkRepl_wp:
  assumes "post (\<lambda>_ t. client_only s t) r" and "\<And>t. client_only s t \<Longrightarrow> post (\<lambda>_ t. client_only s t) (k t)"
  shows "post (\<lambda>_ t. client_only s t) (checkRepl r k)"
  using assms by (cases r) (auto simp: checkRepl_def)

lemma check_wp:
  assumes "post (\<lambda>_ t. client_only s t) r" and "\<And>t. client_only s t \<Longrightarrow> post (\<lambda>_ t. client_only s t) (k t)"
  shows "post (\<lambda>_ t. client_only s t) (check r k)"
  using assms by (cases r) (auto simp: check_def)

named_theorems client_steps "steps of the client that leave the producer alone"

lemma exec_sql_client [client_steps]: "client_only s c \<Longrightarrow> post (\<lambda>_ t. client_only s t) (exec_sql L q c)"
  by (auto simp: exec_sql_def client_fail_def Let_def split: prod.split)

lemma client_connect_client [client_steps]: "client_only s c \<Longrightarrow> post (\<lambda>_ t. client_only s t) (client_connect L c)"
  by (auto simp: client_connect_def client_fail_def Let_def split: prod.split sum.split)

lemma stream_check_client [client_steps]: "client_only s c \<Longrightarrow> post (\<lambda>_ t. client_only s t) (replication_stream_check L c)"
  by (auto simp: replication_stream_check_def repl_fail_def Let_def split: prod.split)

lemma stream_start_client [client_steps]: "client_only s c \<Longrightarrow> post (\<lambda>_ t. client_only s t) (replication_stream_start L c)"
  by (auto simp: replication_stream_start_def repl_fail_def Let_def split: prod.split)

lemma stream_finish_client [client_steps]: "client_only s c \<Longrightarrow> post (\<lambda>_ t. client_only s t) (replication_stream_finish L c)"
  by (auto simp: replication_stream_finish_def repl_fail_def Let_def split: prod.split option.split)

lemma slot_create_client [client_steps]: "client_only s c \<Longrightarrow> post (\<lambda>_ t. client_only s t) (replication_slot_create L c)"
  by (auto simp: replication_slot_create_def repl_fail_def Let_def split: prod.split option.split)

lemma slot_exists_client [client_steps]:
  assumes "client_only s c" and "\<And>b t. client_only s t \<Longrightarrow> post (\<lambda>_ t. client_only s t) (k b t)"
  shows "post (\<lambda>_ t. client_only s t) (replication_slot_exists L k c)"
  using assms by (auto simp: replication_slot_exists_def client_fail_def Let_def split: prod.split option.split)

lemma wait_client [client_steps]: "client_only s c \<Longrightarrow> post (\<lambda>_ t. client_only s t) (db_client_wait L c)"
  by (auto simp: db_client_wait_def client_fail_def Let_def split: prod.split)

lemma status_client: "client_only s c \<Longrightarrow> status_sent c t \<Longrightarrow> client_only s t"
  by (auto simp: status_sent_def)

lemma keepalive_client [client_steps]: "client_only s c \<Longrightarrow> post (\<lambda>_ t. client_only s t) (replication_stream_keepalive L c)"
  by (rule post_mono [OF keepalive_only]) (rule status_client)

lemma parse_keepalive_client [client_steps]: "client_only s c \<Longrightarrow> post (\<lambda>_ t. client_only s t) (parse_keepalive_message L b c)"
  by (auto simp: parse_keepalive_message_def repl_fail_def Let_def split: prod.split
      intro!: post_mono [OF send_checkpoint_only] elim: status_client [rotated])

lemma snapshot_start_client [client_steps]:
  assumes "client_only s c" and "fresh_producer s"
  shows "post (\<lambda>_ t. client_only s t) (snapshot_start L (producer_callbacks A R K L n) c)"
proof -
  have b: "post (\<lambda>_ t. client_only s t) (call_back (cb_begin_txn (producer_callbacks A R K L n)) (\<lambda>f. f w 0) t)"
    if "client_only s t" for t w
    using that assms(2)
    by (auto simp: producer_callbacks_def call_back_Some on_begin_txn_def fresh_producer_def client_only_def core_def)
  show ?thesis
    unfolding snapshot_start_def
    using assms(1) by (auto simp: client_fail_def Let_def split: prod.split intro!: check_wp exec_sql_client b)
qed

lemma db_client_start_client:
  assumes "fresh_producer s"
  shows "post (\<lambda>_ t. client_only s t) (db_client_start L (producer_callbacks A R K L n) s)"
  unfolding db_client_start_def
  by (intro check_wp checkRepl_wp client_steps client_only_refl) (auto simp: Let_def split: option.split intro!: check_wp checkRepl_wp client_steps assms)


section \<open>What the server sends\<close>

text \<open>
  The state of the protocol: whether a transaction is open, and the position of the last commit. The
  messages that may come next, and the state after them (compare \<open>in_order\<close>).
\<close>

fun msg_fits :: "bool \<times> u64 \<Rightarrow> u64 \<Rightarrow> wire_msg \<Rightarrow> bool" where
  "msg_fits (op, lsn) wal (BeginTxn x) = (\<not> op \<and> x \<noteq> 0)"
| "msg_fits (op, lsn) wal (CommitTxn x l) = (op \<and> lsn < wal)"
| "msg_fits (op, lsn) wal (TableSchema r k j) = True"
| "msg_fits (op, lsn) wal m = op"

fun msg_after :: "bool \<times> u64 \<Rightarrow> u64 \<Rightarrow> wire_msg \<Rightarrow> bool \<times> u64" where
  "msg_after (op, lsn) wal (BeginTxn x) = (True, lsn)"
| "msg_after (op, lsn) wal (CommitTxn x l) = (False, wal)"
| "msg_after st wal m = st"

fun msgs_fit :: "bool \<times> u64 \<Rightarrow> u64 \<Rightarrow> wire_msg list \<Rightarrow> bool" where
  "msgs_fit st wal [] = True"
| "msgs_fit st wal (m # ms) = (msg_fits st wal m \<and> msgs_fit (msg_after st wal m) wal ms)"

fun msgs_after :: "bool \<times> u64 \<Rightarrow> u64 \<Rightarrow> wire_msg list \<Rightarrow> bool \<times> u64" where
  "msgs_after st wal [] = st"
| "msgs_after st wal (m # ms) = msgs_after (msg_after st wal m) wal ms"

lemma msgs_append [simp]:
  "msgs_fit st wal (ms @ ms') = (msgs_fit st wal ms \<and> msgs_fit (msgs_after st wal ms) wal ms')"
  "msgs_after st wal (ms @ ms') = msgs_after (msgs_after st wal ms) wal ms'"
  by (induction ms arbitrary: st) auto

definition frame_bytes :: "('y avro_io_scheme) \<Rightarrow> wire_msg list \<Rightarrow> bytes \<Rightarrow> bool" where
  "frame_bytes A ms b \<longleftrightarrow> (\<exists>k. avro_value_write A (frame_of ms) k = (0, b))"

definition xlogdata :: "int \<Rightarrow> bytes \<Rightarrow> bool" where
  "xlogdata ret buf \<longleftrightarrow> 0 < ret \<and> buf \<noteq> [] \<and> hd buf = word_of_nat (of_char (CHR ''w'')) \<and> 26 \<le> length buf"

text \<open>
  \<open>polled A L s wal ms\<close>: the messages that the next call of \<open>db_client_poll\<close> finds, all with position
  \<open>wal\<close>. During a snapshot they come from the rows of the result, each a frame, and the end of the
  result stands for the commit of the snapshot; while streaming, from the frame of an XLogData message.
\<close>

definition polled :: "('y avro_io_scheme) \<Rightarrow> 'w pq_ops \<Rightarrow> ('w, 'z) client_context_scheme \<Rightarrow> u64 \<Rightarrow> wire_msg list \<Rightarrow> bool" where
  "polled A L s wal ms \<longleftrightarrow>
     (if sql_conn s \<noteq> None then
        if PQisBusy L (sql_conn s) (world s) then ms = []
        else (case fst (PQgetResult L (sql_conn s) (world s)) of
            None \<Rightarrow> wal = start_lsn s \<and> (\<exists>l. ms = [CommitTxn 0 l])
          | Some res \<Rightarrow> wal = 0 \<and> (\<exists>mss. ms = concat mss \<and>
              list_all2 (\<lambda>i ms. frame_bytes A ms (PQgetvalue res i 0)) [0..<PQntuples res] mss))
      else (case PQgetCopyData L (repl_conn s) (world s) of (ret, buf, w) \<Rightarrow>
          let buf = take (nat ret) buf in
          if xlogdata ret buf then wal = recvint64 (drop 1 buf) \<and> frame_bytes A ms (drop 25 buf)
          else ms = []))"

section \<open>Rounds are steps of the producer\<close>

definition in_run :: "('y avro_io_scheme) \<Rightarrow> 'w http_ops \<Rightarrow> 'w kafka_ops \<Rightarrow> 'w pq_ops \<Rightarrow> nat \<Rightarrow> bool \<times> u64 \<Rightarrow>
    ('w, 'z) producer_context_scheme \<Rightarrow> bool" where
  "in_run A R K L n st s \<longleftrightarrow> has_schema (frame_value s) frame_schema \<and>
     (\<exists>log cur. producer_run A R K L n (fst st) log cur s \<and> last_lsn log = snd st)"

lemma in_run_client: "in_run A R K L n st s \<Longrightarrow> client_only s t \<Longrightarrow> in_run A R K L n st t"
  unfolding in_run_def client_only_def reader_part_def using run_client by fastforce

lemma in_run_upds:
  assumes "in_run A R K L n st t"
  shows "in_run A R K L n st (t\<lparr>client_status := i\<rparr>)" "in_run A R K L n st (t\<lparr>repl_status := i\<rparr>)"
    "in_run A R K L n st (t\<lparr>recvd_lsn := l\<rparr>)" "in_run A R K L n st (t\<lparr>world := w\<rparr>)"
  by (rule in_run_client [OF assms], simp)+

lemma in_run_frame:
  "in_run A R K L n st s \<Longrightarrow> has_schema v frame_schema \<Longrightarrow> in_run A R K L n st (s\<lparr>frame_value := v\<rparr>)"
  unfolding in_run_def using run_client [of A R K L n _ _ _ s "s\<lparr>frame_value := v\<rparr>"]
  by (fastforce simp: core_def)

lemma deliver_run:
  assumes A: "avro_codec A" and run: "in_run A R K L n st s" and fits: "msg_fits st wal m"
  shows "post (\<lambda>e t. e = 0 \<longrightarrow> in_run A R K L n (msg_after st wal m) t)
      (deliver_msg A (producer_callbacks A R K L n) wal m s)"
proof -
  let ?cb = "producer_callbacks A R K L n"
  obtain op lsn where st: "st = (op, lsn)" by (cases st)
  from run obtain log cur where r: "producer_run A R K L n op log cur s" "last_lsn log = lsn"
    and v: "has_schema (frame_value s) frame_schema" by (auto simp: in_run_def st)
  have fr: "post (\<lambda>_ t. frame_value t = frame_value s) (deliver_msg A ?cb wal m s)"
    by (rule avro_codec.deliver_msg_frame [OF A producer_keeps_reader refl])
  have "in_run A R K L n (msg_after st wal m) t" if d: "deliver_msg A ?cb wal m s = Ret 0 t" for t
  proof -
    have vt: "has_schema (frame_value t) frame_schema" using fr d v by simp
    have row: "in_run A R K L n st t" if "is_row m" op
      using run_row [of A R K L n log cur s m wal t] r d that vt by (auto simp: in_run_def st)
    show ?thesis
    proof (cases m)
      case (BeginTxn x)
      with run_begin [of A R K L n log cur s x wal t] r d fits vt show ?thesis by (auto simp: in_run_def st)
    next
      case (CommitTxn x l)
      have "on_commit_txn L wal x s = Ret 0 t"
        using d CommitTxn by (cases "on_commit_txn L wal x s") (auto simp: producer_callbacks_def call_back_Some check_def split: if_splits)
      with run_commit [of A R K L n log cur s wal x t] r fits vt CommitTxn show ?thesis
        by (auto simp: in_run_def st last_lsn_def)
    next
      case (TableSchema rid kj rj)
      with run_schema [of A R K L n op log cur s wal rid kj rj t] r d vt show ?thesis by (auto simp: in_run_def st)
    qed (use row fits in \<open>auto simp: st\<close>)
  qed
  then show ?thesis by (simp add: post_conv)
qed

text \<open>Calls that succeed establish the next condition.\<close>

lemma ok_check:
  assumes "post (\<lambda>e t. e = 0 \<longrightarrow> P t) r" and "\<And>t. P t \<Longrightarrow> post (\<lambda>e t. e = 0 \<longrightarrow> Q t) (k t)"
  shows "post (\<lambda>e t. e = 0 \<longrightarrow> Q t) (check r k)"
  using assms by (cases r) (auto simp: check_def)

lemma ok_checkRepl:
  assumes "post (\<lambda>e t. e = 0 \<longrightarrow> P t) r" and "\<And>t. P t \<Longrightarrow> post (\<lambda>e t. e = 0 \<longrightarrow> Q t) (k t)"
  shows "post (\<lambda>e t. e = 0 \<longrightarrow> Q t) (checkRepl r k)"
  using assms by (cases r) (auto simp: checkRepl_def)

lemma ok_client:
  assumes "in_run A R K L n st s" and "post (\<lambda>_ t. client_only s t) r"
  shows "post (\<lambda>e t. e = 0 \<longrightarrow> in_run A R K L n st t) r"
  using assms(2) by (rule post_mono) (use in_run_client [OF assms(1)] in blast)

lemma deliver_all_run:
  assumes A: "avro_codec A"
  shows "in_run A R K L n st s \<Longrightarrow> msgs_fit st wal ms \<Longrightarrow>
    post (\<lambda>e t. e = 0 \<longrightarrow> in_run A R K L n (msgs_after st wal ms) t)
      (deliver_all A (producer_callbacks A R K L n) wal ms s)"
proof (induction ms arbitrary: st s)
  case (Cons m ms)
  then have "post (\<lambda>e t. e = 0 \<longrightarrow> in_run A R K L n (msg_after st wal m) t)
      (deliver_msg A (producer_callbacks A R K L n) wal m s)"
    by (intro deliver_run [OF A]) simp_all
  then show ?case
    unfolding deliver_all.simps msgs_after.simps by (rule ok_check) (use Cons in auto)
qed simp


lemma parse_frame_run:
  assumes A: "avro_codec A" and run: "in_run A R K L n st s" and b: "frame_bytes A ms b" and fit: "msgs_fit st wal ms"
  shows "post (\<lambda>e t. e = 0 \<longrightarrow> in_run A R K L n (msgs_after st wal ms) t)
      (parse_frame A (producer_callbacks A R K L n) wal b s)"
proof -
  from b obtain k where k: "avro_value_write A (frame_of ms) k = (0, b)" by (auto simp: frame_bytes_def)
  have v: "has_schema (frame_value s) frame_schema" using run by (simp add: in_run_def)
  have "in_run A R K L n st (s\<lparr>frame_value := frame_of ms\<rparr>)" using run frame_of_schema by (rule in_run_frame)
  from deliver_all_run [OF A this fit] show ?thesis
    unfolding avro_codec.parse_frame_deliver(1) [OF A k v producer_keeps_reader] by (rule ok_check) simp
qed

lemma snapshot_tuple_run:
  assumes A: "avro_codec A" and run: "in_run A R K L n st s" and b: "frame_bytes A ms (PQgetvalue res i 0)"
    and fit: "msgs_fit st 0 ms"
  shows "post (\<lambda>e t. e = 0 \<longrightarrow> in_run A R K L n (msgs_after st 0 ms) t)
      (snapshot_tuple A (producer_callbacks A R K L n) res i s)"
proof -
  have "post (\<lambda>e t. e = 0 \<longrightarrow> in_run A R K L n (msgs_after st 0 ms) t)
      (andthen (parse_frame A (producer_callbacks A R K L n) 0 (PQgetvalue res i 0) s) (\<lambda>err context.
        if err \<noteq> 0 then client_fail err ''Error parsing frame data: %s'' [FStr []] context else Ret 0 context))"
    by (rule post_andthenI [OF parse_frame_run [OF A run b fit]]) (simp add: client_fail_def)
  then show ?thesis by (simp add: snapshot_tuple_def client_fail_def)
qed

lemma snapshot_tuples_run:
  assumes A: "avro_codec A" and "list_all2 (\<lambda>i ms. frame_bytes A ms (PQgetvalue res i 0)) is mss"
    and "in_run A R K L n st s" and "msgs_fit st 0 (concat mss)"
  shows "post (\<lambda>e t. e = 0 \<longrightarrow> in_run A R K L n (msgs_after st 0 (concat mss)) t)
      (snapshot_tuples A (producer_callbacks A R K L n) res is s)"
  using assms(2-)
proof (induction arbitrary: st s rule: list_all2_induct)
  case (Cons i "is" ms mss)
  then show ?case
    by (auto intro!: ok_check [OF snapshot_tuple_run [OF A]] Cons.IH)
qed simp

lemma snapshot_poll_run:
  assumes A: "avro_codec A" and run: "in_run A R K L n st s" and sql: "sql_conn s \<noteq> None"
    and nb: "\<not> PQisBusy L (sql_conn s) (world s)" and ms: "polled A L s wal ms" "msgs_fit st wal ms"
  shows "post (\<lambda>e t. e = 0 \<longrightarrow> in_run A R K L n (msgs_after st wal ms) t)
      (snapshot_poll A L (producer_callbacks A R K L n) s)"
proof -
  let ?cb = "producer_callbacks A R K L n"
  obtain res w where g: "PQgetResult L (sql_conn s) (world s) = (res, w)" by fastforce
  have s': "in_run A R K L n st (s\<lparr>world := w\<rparr>)" by (rule in_run_client [OF run]) simp
  show ?thesis
  proof (cases res)
    case None
    with ms sql nb g obtain l where m: "wal = start_lsn s" "ms = [CommitTxn 0 l]" by (auto simp: polled_def)
    have e: "post (\<lambda>e t. e = 0 \<longrightarrow> in_run A R K L n st t \<and> start_lsn t = wal) (exec_sql L ''COMMIT'' (s\<lparr>world := w\<rparr>))"
      using ok_client [OF s' exec_sql_client [where L = L and q = "''COMMIT''", OF client_only_refl]] m(1)
      by (auto simp: exec_sql_def client_fail_def client_error_def Let_def split: prod.split)
    have c: "post (\<lambda>e t. e = 0 \<longrightarrow> in_run A R K L n (msgs_after st wal ms) t)
        (let w = (case sql_conn t of Some c \<Rightarrow> PQfinish L c (world t) | None \<Rightarrow> world t);
             context = t\<lparr>world := w, sql_conn := None\<rparr>
         in call_back (cb_commit_txn ?cb) (\<lambda>f. f (start_lsn context) 0) context)"
      if "in_run A R K L n st t \<and> start_lsn t = wal" for t
    proof -
      have "in_run A R K L n st (t\<lparr>world := w, sql_conn := None\<rparr>)" for w
        by (rule in_run_client [of _ _ _ _ _ _ t]) (use that in simp_all)
      from deliver_run [OF A this, of wal "CommitTxn 0 l"] ms(2) m that show ?thesis by (simp add: Let_def)
    qed
    show ?thesis unfolding snapshot_poll_def g Let_def prod.case None option.case
      by (rule ok_check [OF e]) (rule c [unfolded Let_def])
  next
    case (Some r)
    with ms sql nb g obtain mss where m: "wal = 0" "ms = concat mss"
        "list_all2 (\<lambda>i ms. frame_bytes A ms (PQgetvalue r i 0)) [0..<PQntuples r] mss"
      by (auto simp: polled_def)
    from snapshot_tuples_run [OF A m(3) s'] ms(2) m(1,2) show ?thesis
      by (simp add: snapshot_poll_def g Some client_fail_def Let_def)
  qed
qed


lemma xlogdata_run:
  assumes A: "avro_codec A" and run: "in_run A R K L n st s" and buf: "26 \<le> length buf"
    and b: "frame_bytes A ms (drop 25 buf)" and fit: "msgs_fit st (recvint64 (drop 1 buf)) ms"
  shows "post (\<lambda>e t. e = 0 \<longrightarrow> in_run A R K L n (msgs_after st (recvint64 (drop 1 buf)) ms) t)
      (parse_xlogdata_message A (producer_callbacks A R K L n) buf s)"
proof -
  have "post (\<lambda>e t. e = 0 \<longrightarrow> in_run A R K L n (msgs_after st (recvint64 (drop 1 buf)) ms) t)
      (andthen (parse_frame A (producer_callbacks A R K L n) (recvint64 (drop 1 buf)) (drop 25 buf) s) (\<lambda>err stream.
        let stream = (if err \<noteq> 0 then repl_error ''Error parsing frame data: %s'' [FStr []] stream else stream)
        in Ret err (stream\<lparr>recvd_lsn := max (recvint64 (drop 1 buf)) (recvd_lsn stream)\<rparr>)))"
    by (rule post_andthenI [OF parse_frame_run [OF A run b fit]]) (auto simp: Let_def in_run_upds)
  with buf show ?thesis by (simp add: parse_xlogdata_message_def Let_def)
qed

lemma short_xlogdata: "length buf < 26 \<Longrightarrow> post (\<lambda>e t. e \<noteq> 0) (parse_xlogdata_message A cb buf s)"
  by (simp add: parse_xlogdata_message_def repl_fail_def)

lemma stream_poll_run:
  assumes A: "avro_codec A" and run: "in_run A R K L n st s" and sql: "sql_conn s = None"
    and ms: "polled A L s wal ms" "msgs_fit st wal ms"
  shows "post (\<lambda>e t. e = 0 \<longrightarrow> in_run A R K L n (msgs_after st wal ms) t)
      (replication_stream_poll A L (producer_callbacks A R K L n) s)"
proof -
  let ?cb = "producer_callbacks A R K L n"
  let ?P = "\<lambda>e t. e = 0 \<longrightarrow> in_run A R K L n (msgs_after st wal ms) t"
  obtain ret buf w where g: "PQgetCopyData L (repl_conn s) (world s) = (ret, buf, w)" by (metis prod_cases3)
  let ?b = "take (nat ret) buf"
  let ?s = "s\<lparr>world := w, repl_status := 1\<rparr>"
  have s': "in_run A R K L n st (s\<lparr>world := w\<rparr>)" "in_run A R K L n st (s\<lparr>world := w, repl_status := i\<rparr>)" for i
    by (rule in_run_client [OF run], simp)+
  have none: "ms = []" if "\<not> xlogdata ret ?b" using ms(1) sql g that by (simp add: polled_def Let_def)
  have ka: "post ?P (replication_stream_keepalive L t)" if "in_run A R K L n (msgs_after st wal ms) t" for t
    by (rule ok_client [OF that keepalive_client]) simp
  have msg: "post ?P (case ?b of
      c # _ \<Rightarrow>
        if c = word_of_nat (of_char (CHR ''k'')) then parse_keepalive_message L ?b ?s
        else if c = word_of_nat (of_char (CHR ''w'')) then parse_xlogdata_message A ?cb ?b ?s
        else repl_fail EIO ''Unknown streaming message type: \"%c\"'' [FInt (uint c)] ?s
    | [] \<Rightarrow> Undef)" if "0 < ret"
  proof (cases "xlogdata ret ?b")
    case True
    then have x: "wal = recvint64 (drop 1 ?b)" "frame_bytes A ms (drop 25 ?b)"
      using ms(1) sql g by (simp_all add: polled_def Let_def)
    have "26 \<le> length ?b" and h: "?b \<noteq> []" "hd ?b = word_of_nat (of_char (CHR ''w''))" using True by (simp_all add: xlogdata_def)
    with xlogdata_run [OF A s'(2) [of 1] _ x(2)] ms(2) x(1)
    have p: "post ?P (parse_xlogdata_message A ?cb ?b ?s)" by simp
    have "(word_of_nat (of_char (CHR ''w'')) :: byte) \<noteq> word_of_nat (of_char (CHR ''k''))" by simp
    with h p show ?thesis by (cases ?b) simp_all
  next
    case False
    have k: "post ?P (parse_keepalive_message L ?b ?s)"
      using none [OF False] ok_client [OF s'(2) [of 1] parse_keepalive_client [OF client_only_refl]] by simp
    have x: "post ?P (parse_xlogdata_message A ?cb ?b ?s)" if "hd ?b = word_of_nat (of_char (CHR ''w''))" "?b \<noteq> []"
      using False \<open>0 < ret\<close> that by (intro post_mono [OF short_xlogdata]) (auto simp: xlogdata_def)
    show ?thesis
    proof (cases "?b = []")
      case True
      then show ?thesis by (simp only: list.case post.simps)
    next
      case ne: False
      then obtain c cs where c: "?b = c # cs" by (meson list.exhaust)
      show ?thesis using k x unfolding c by (auto simp: repl_fail_def)
    qed
  qed
  show ?thesis
  proof (cases "0 < ret")
    case True
    have "post ?P (andthen (case ?b of
          c # _ \<Rightarrow>
            if c = word_of_nat (of_char (CHR ''k'')) then parse_keepalive_message L ?b ?s
            else if c = word_of_nat (of_char (CHR ''w'')) then parse_xlogdata_message A ?cb ?b ?s
            else repl_fail EIO ''Unknown streaming message type: \"%c\"'' [FInt (uint c)] ?s
        | [] \<Rightarrow> Undef) (\<lambda>err stream. if err = 0 then replication_stream_keepalive L stream else Ret err stream))"
      by (rule post_andthenI [OF msg [OF True]]) (auto intro: ka)
    with True show ?thesis by (simp add: replication_stream_poll_def g Let_def)
  next
    case False
    then have "ms = []" by (intro none) (simp add: xlogdata_def)
    moreover have "post (\<lambda>e t. e = 0 \<longrightarrow> in_run A R K L n st t) (andthen (if ret = -1 then replication_stream_finish L (s\<lparr>world := w\<rparr>)
           else repl_fail EIO ''Could not read from replication stream: %s''
             [FStr (PQerrorMessage L (repl_conn s) w)] (s\<lparr>world := w\<rparr>))
             (\<lambda>err stream. Ret err (stream\<lparr>repl_status := ret\<rparr>)))"
    proof (rule post_andthenI)
      show "post (\<lambda>e t. e = 0 \<longrightarrow> in_run A R K L n st t) (if ret = -1 then replication_stream_finish L (s\<lparr>world := w\<rparr>)
           else repl_fail EIO ''Could not read from replication stream: %s''
             [FStr (PQerrorMessage L (repl_conn s) w)] (s\<lparr>world := w\<rparr>))"
        using ok_client [OF s'(1) stream_finish_client] by (simp add: repl_fail_def)
    qed (auto simp: in_run_upds)
    ultimately show ?thesis using False ka [of "s\<lparr>world := w, repl_status := 0\<rparr>"] s'(2) [of 0]
      by (auto simp: replication_stream_poll_def g Let_def)
  qed
qed

lemma db_client_poll_run:
  assumes A: "avro_codec A" and run: "in_run A R K L n st s"
    and ms: "polled A L s wal ms" "msgs_fit st wal ms"
  shows "post (\<lambda>e t. e = 0 \<longrightarrow> in_run A R K L n (msgs_after st wal ms) t)
      (db_client_poll A L (producer_callbacks A R K L n) s)"
proof (cases "sql_conn s")
  case None
  show ?thesis
    unfolding db_client_poll_def using None
    by (auto intro!: ok_checkRepl [OF stream_poll_run [OF A run None ms]] simp: in_run_upds)
next
  case (Some c)
  show ?thesis
  proof (cases "PQisBusy L (sql_conn s) (world s)")
    case True
    with Some ms(1) have "ms = []" by (simp add: polled_def)
    with True Some show ?thesis by (auto simp: db_client_poll_def in_run_upds [OF run])
  next
    case False
    have sql: "sql_conn s \<noteq> None" using Some by simp
    have t: "post (\<lambda>e t. e = 0 \<longrightarrow> in_run A R K L n (msgs_after st wal ms) t)
        (let context = t\<lparr>client_status := 1\<rparr> in
         if sql_conn context = None then checkRepl (replication_stream_start L context) (Ret 0)
         else Ret 0 context)" if "in_run A R K L n (msgs_after st wal ms) t" for t
    proof -
      have t': "in_run A R K L n (msgs_after st wal ms) (t\<lparr>client_status := 1\<rparr>)"
        by (rule in_run_client [OF that]) simp
      then show ?thesis
        by (auto simp: Let_def intro!: ok_checkRepl [OF ok_client [OF t' stream_start_client]])
    qed
    have "db_client_poll A L (producer_callbacks A R K L n) s =
        check (snapshot_poll A L (producer_callbacks A R K L n) s) (\<lambda>t.
          let context = t\<lparr>client_status := 1\<rparr> in
          if sql_conn context = None then checkRepl (replication_stream_start L context) (Ret 0)
          else Ret 0 context)"
      using False sql by (simp add: db_client_poll_def)
    then show ?thesis by (simp only:) (rule ok_check [OF snapshot_poll_run [OF A run sql False ms]], rule t)
  qed
qed


lemma ensure_wp:
  assumes "post (\<lambda>e t. e = 0 \<longrightarrow> P t) r" and "\<And>t. P t \<Longrightarrow> post Q (k t)"
  shows "post Q (ensure L r k)"
  unfolding ensure_def by (rule post_andthenI [OF assms(1)]) (use assms(2) in auto)

lemma main_round_run:
  assumes A: "avro_codec A" and run: "in_run A R K L n st s"
    and ms: "polled A L s wal ms" "msgs_fit st wal ms"
  shows "post (\<lambda>_ t. in_run A R K L n (msgs_after st wal ms) t) (main_round A R K L n s)"
proof -
  have w: "post (\<lambda>e t. e = 0 \<longrightarrow> in_run A R K L n st' t) (if client_status c = 0 then db_client_wait L c else Ret 0 c)"
    if "in_run A R K L n st' c" for st' c
    using that ok_client [OF that wait_client] by simp
  have p: "post (\<lambda>_ t. in_run A R K L n st' t) (kafka_poll K L 0 c)" if "in_run A R K L n st' c" for st' c
  proof -
    have "post (\<lambda>_ t. reader_part t = reader_part c) (kafka_poll K L 0 c)" by (rule keeps_readerD [OF keeps_poll refl])
    then have "frame_value t = frame_value c" if "kafka_poll K L 0 c = Ret () t" for t
      using that by (simp add: reader_part_def)
    with that show ?thesis by (auto simp: in_run_def post_conv intro: run_poll)
  qed
  show ?thesis
    unfolding main_round_def
    by (rule ensure_wp [OF db_client_poll_run [OF A run ms]], rule ensure_wp [OF w], assumption, rule p)
qed

text \<open>
  The states of the main loop, for a server that sends the messages of the protocol in their order:
  the state after the start, and after each round, with the state of the protocol.
\<close>

inductive main_state :: "('y avro_io_scheme) \<Rightarrow> 'w http_ops \<Rightarrow> 'w kafka_ops \<Rightarrow> 'w pq_ops \<Rightarrow> ('w, 'c, 't) conf_ops \<Rightarrow>
    nat \<Rightarrow> string list \<Rightarrow> bool \<times> u64 \<Rightarrow> ('w, 'c, 't) main_context \<Rightarrow> bool"
  for A R K L C n argv where
  main_started: "initialise A C argv m = Ret () s \<Longrightarrow>
    db_client_start L (producer_callbacks A R K L n) s = Ret 0 t \<Longrightarrow>
    main_state A R K L C n argv (taking_snapshot t, 0) t"
| main_continues: "main_state A R K L C n argv st s \<Longrightarrow>
    0 \<le> client_status s \<Longrightarrow> \<not> shutdown_signal K (world s) \<Longrightarrow>
    polled A L s wal ms \<Longrightarrow> msgs_fit st wal ms \<Longrightarrow> main_round A R K L n s = Ret () t \<Longrightarrow>
    main_state A R K L C n argv (msgs_after st wal ms) t"

lemma main_state_run:
  assumes A: "avro_codec A" and "main_state A R K L C n argv st s"
  shows "in_run A R K L n st s"
  using assms(2)
proof induction
  case (main_started m s t)
  from initialise_ok [OF A, of C argv m] main_started(1) have i: "fresh_producer s" "reader_ok s"
    by (simp_all add: initialised_def cleared_def)
  have "producer_run A R K L n b (if b then [] else [(0, [])]) [] s" for b
    using run_stream [OF i(1)] run_snapshot [OF i(1)] by (cases b) simp_all
  moreover have "last_lsn (if b then [] else [(0, [])]) = 0" for b by (simp add: last_lsn_def)
  ultimately have r: "in_run A R K L n (b, 0) s" for b
    using i(2) unfolding in_run_def reader_ok_def fst_conv snd_conv by blast
  have "client_only s t" using db_client_start_client [OF i(1), of L A R K n] main_started(2) by simp
  with r show ?case by (rule in_run_client)
next
  case (main_continues st s wal ms t)
  from main_round_run [OF A main_continues.IH main_continues.hyps(4,5)] main_continues.hyps(6)
  show ?case by simp
qed

end
