(* ===== verification/Producer_Safety.thy ===== *)
theory Producer_Safety
  imports Main_Run
begin

text \<open>
  The producer's callbacks are free of undefined behaviour: \<open>tied\<close> says that the frame reader and
  the table mapper are in good order and every topic is open. Every callback keeps it, and from a state
  with it \<open>exit_nicely\<close> frees everything once.
\<close>

section \<open>Exit\<close>

lemma exit_nicely_exits:
  assumes "reader_ok s" and "mapper s = Some m" and "mapper_inv m"
  shows "\<exists>t. exit_nicely L status s = Exit status t \<and>
    world t = world (db_client_free L (if taking_snapshot s \<and> status \<noteq> 0
      then s\<lparr>world := snd (PQexec L (repl_conn s) (drop_slot_query (cstr_arg (slot_name s))) (world s))\<rparr> else s))"
proof -
  obtain m' where m': "table_mapper_free m = Ret () m'" using table_mapper_free_ok [OF assms(3)] by blast
  have free: "\<exists>u. frame_reader_free t = Ret () u \<and> world u = world t \<and> sql_conn u = sql_conn t \<and> repl_conn u = repl_conn t"
    if "reader_part t = reader_part s" for t :: "('a, 'b) producer_context_scheme"
  proof -
    have "reader_ok t" using assms(1) reader_ok_part [OF that] by simp
    with frame_reader_free_ok obtain u where "frame_reader_free t = Ret () u" by blast
    then show ?thesis by (auto simp: frame_reader_free_def split: option.splits)
  qed
  have drop: "\<exists>e b. replication_slot_drop L s =
      Ret e (s\<lparr>world := snd (PQexec L (repl_conn s) (drop_slot_query (cstr_arg (slot_name s))) (world s)), repl_errbuf := b\<rparr>)"
  proof -
    obtain res w where q: "PQexec L (repl_conn s) (drop_slot_query (cstr_arg (slot_name s))) (world s) = (res, w)" by fastforce
    show ?thesis
    proof (cases "PQresultStatus res = PGRES_COMMAND_OK")
      case True
      have "s\<lparr>world := w, repl_errbuf := repl_errbuf s\<rparr> = s\<lparr>world := w\<rparr>" by simp
      with True q show ?thesis by (intro exI [of _ 0] exI [of _ "repl_errbuf s"]) (simp add: replication_slot_drop_def)
    next
      case False
      with q show ?thesis by (simp add: replication_slot_drop_def repl_fail_def repl_error_def) blast
    qed
  qed
  have exit: "\<exists>t. (case mapper u of None \<Rightarrow> Undef | Some m \<Rightarrow> (case table_mapper_free m of
        Ret _ m \<Rightarrow> andthen (frame_reader_free (u\<lparr>mapper := Some m\<rparr>)) (\<lambda>_ context. Exit status (db_client_free L context))
      | _ \<Rightarrow> Undef)) = Exit status t \<and> world t = world (db_client_free L u)"
    if "reader_part u = reader_part s" "mapper u = Some m" for u :: "('a, 'b) producer_context_scheme"
  proof -
    have "reader_part (u\<lparr>mapper := Some m'\<rparr>) = reader_part s" using that(1) by (simp add: reader_part_def)
    from free [OF this] obtain v where v: "frame_reader_free (u\<lparr>mapper := Some m'\<rparr>) = Ret () v"
        "world v = world u" "sql_conn v = sql_conn u" "repl_conn v = repl_conn u" by auto
    with that(2) m' show ?thesis by (simp add: db_client_free_def Let_def split: option.split)
  qed
  show ?thesis
  proof (cases "taking_snapshot s \<and> status \<noteq> 0")
    case True
    obtain e b where d: "replication_slot_drop L s =
        Ret e (s\<lparr>world := snd (PQexec L (repl_conn s) (drop_slot_query (cstr_arg (slot_name s))) (world s)), repl_errbuf := b\<rparr>)"
      using drop by blast
    from exit [of "s\<lparr>world := snd (PQexec L (repl_conn s) (drop_slot_query (cstr_arg (slot_name s))) (world s)), repl_errbuf := b\<rparr>"]
      True assms(2) show ?thesis
      by (simp add: exit_nicely_def d reader_part_def db_client_free_errbuf)
  next
    case False
    with exit [of s] assms(2) show ?thesis by (auto simp: exit_nicely_def)
  qed
qed

definition tied :: "('w, 'z) producer_context_scheme \<Rightarrow> bool" where
  "tied s \<longleftrightarrow> reader_ok s \<and> (\<exists>m. mapper s = Some m \<and> mapper_inv m \<and> topics_open m)"

lemma tied_same: "reader_part t = reader_part s \<Longrightarrow> mapper t = mapper s \<Longrightarrow> tied t = tied s"
  using reader_ok_part [of t s] by (simp add: tied_def)

lemma tied_progress: "tied s \<Longrightarrow> progress s t \<Longrightarrow> tied t"
  using tied_same [of t s] by (simp add: progress_def calm_def)

lemma exit_meets:
  fixes Q :: "'r \<Rightarrow> ('w, 'z) producer_context_scheme \<Rightarrow> bool"
  assumes "reader_ok s" and "mapper s = Some m" and "mapper_inv m"
  shows "meets Q (exit_nicely L n s)"
proof -
  obtain t where "(exit_nicely L n s :: (('w, 'z) producer_context_scheme, 'r) outcome) = Exit n t"
    using exit_nicely_exits [OF assms, of L n] by blast
  then show ?thesis by simp
qed

lemma exit_safe:
  assumes "tied s"
  shows "safe (exit_nicely L n s :: (_, 'r) outcome)"
proof -
  have "meets (\<lambda>(_ :: 'r) _. True) (exit_nicely L n s)"
    using assms unfolding tied_def by (blast intro: exit_meets)
  then show ?thesis by (simp add: meets_conv)
qed

lemma exit_tied:
  fixes Q :: "'r \<Rightarrow> ('w, 'z) producer_context_scheme \<Rightarrow> bool"
  shows "tied s \<Longrightarrow> meets Q (exit_nicely L n s)"
  unfolding tied_def by (blast intro: exit_meets)

section \<open>Waiting for Kafka\<close>

lemma keepalive_safe: "safe (replication_stream_keepalive L s)"
  by (auto simp: replication_stream_keepalive_def send_checkpoint_def repl_fail_def Let_def split: prod.split)

lemma report_step:
  assumes "state_inv op log cur M s" and m: "m \<in># M" and "tied s"
  shows "\<exists>t. on_deliver_msg L m 0 s = Ret () t \<and> state_inv op log cur (M - {#m#}) t \<and> tied t"
proof -
  have p: "\<not> pending_events (xact_list s (slot_of m)) \<le> - INT_MAX - 1"
    using pending_pos [OF assms(1) m] by simp
  let ?s = "upd_xact (slot_of m) (\<lambda>x. x\<lparr>pending_events := pending_events x - 1\<rparr>) s"
  obtain t where t: "maybe_checkpoint ?s = Ret () t" "state_inv op log cur (M - {#m#}) t" "checkpointed ?s t"
    using maybe_checkpoint_inv [OF ack_inv [OF assms(1) m]] .
  have "progress s t" using checkpointed_progress [OF t(3)] upd_xact_progress(1) progress_trans by blast
  then have "tied t" by (rule tied_progress [OF assms(3)])
  with p t show ?thesis by (simp add: on_deliver_msg_def slot_of_def Let_def)
qed

lemma deliver_reports_safe:
  assumes "state_inv op log cur M s" and "mset (map fst reports) \<subseteq># M" and "tied s"
  shows "safe (deliver_reports L reports s)"
  using assms
proof (induction reports arbitrary: s M)
  case (Cons r reports)
  obtain m e where r: "r = (m, e)" by (cases r)
  with Cons.prems have m: "m \<in># M" and sub: "mset (map fst reports) \<subseteq># M - {#m#}"
    by (auto simp: insert_subset_eq_iff)
  show ?case
  proof (cases "e = 0")
    case True
    obtain t where "on_deliver_msg L m 0 s = Ret () t" "state_inv op log cur (M - {#m#}) t" "tied t"
      using report_step [OF Cons.prems(1) m Cons.prems(3)] by blast
    with Cons.IH [OF _ sub] True r show ?thesis by simp
  next
    case False
    with r show ?thesis by (simp add: on_deliver_msg_def safe_andthen exit_safe [OF Cons.prems(3)])
  qed
qed simp

lemma kafka_poll_safe:
  assumes ok: "producer_ok op log cur H s" and K: "reports_once K" and "tied s"
  shows "meets (\<lambda>_ t. producer_ok op log cur H t \<and> progress s t) (kafka_poll K L timeout s)"
proof -
  obtain reports rest w where p: "rd_kafka_poll K (kafka_outq s) timeout (world s) = (reports, rest, w)"
    by (metis prod.collapse)
  with K have q: "mset (kafka_outq s) = mset (map fst reports) + mset rest"
    unfolding reports_once_def by blast
  let ?s = "s\<lparr>kafka_outq := rest, world := w\<rparr>"
  have "tied ?s" using tied_same [of ?s s] assms(3) by (simp add: reader_part_def)
  then have "safe (deliver_reports L reports ?s)"
    using ok q by (intro deliver_reports_safe [where M = "mset (kafka_outq s) + H" and op = op and log = log and cur = cur])
      (simp_all add: producer_ok_def)
  then have "safe (kafka_poll K L timeout s)" by (simp add: kafka_poll_def p)
  with kafka_poll_ok [OF ok K] show ?thesis by (simp add: meets_conv)
qed

lemma backpressure_safe:
  assumes ok: "producer_ok op log cur H s" and K: "reports_once K" and t: "tied s"
  shows "meets (\<lambda>_ t. producer_ok op log cur H t \<and> progress s t) (backpressure K L s)"
proof -
  have "safe (if shutdown_signal K (world t) then exit_nicely L 0 t
       else andthen (replication_stream_keepalive L t) (\<lambda>err context.
         if err \<noteq> 0 then exit_nicely L 1 context else Ret () context))" if "progress s t" for t
  proof -
    have "tied t" using t that by (rule tied_progress)
    moreover have "tied u" if "status_sent t u" for u
      using tied_same [of u t] \<open>tied t\<close> that by (auto simp: status_sent_def reader_part_def)
    then have "post (\<lambda>e u. safe (if e \<noteq> 0 then exit_nicely L 1 u else Ret () u)) (replication_stream_keepalive L t)"
      by (intro post_mono [OF keepalive_only]) (simp add: exit_safe)
    ultimately show ?thesis by (simp add: exit_safe safe_andthen keepalive_safe)
  qed
  then have "post (\<lambda>_ t. safe (if shutdown_signal K (world t) then exit_nicely L 0 t
       else andthen (replication_stream_keepalive L t) (\<lambda>err context.
         if err \<noteq> 0 then exit_nicely L 1 context else Ret () context))) (kafka_poll K L 200 s)"
    by (intro post_mono [OF kafka_poll_ok [OF ok K]]) blast
  with kafka_poll_safe [OF ok K t, of L 200] have "safe (backpressure K L s)"
    by (simp add: backpressure_def safe_andthen meets_conv)
  with backpressure_ok [OF ok K] show ?thesis by (simp add: meets_conv)
qed

lemma wait_safe:
  assumes "producer_ok op log cur H s" and K: "reports_once K" and "tied s"
  shows "safe (wait_not_full K L n s)"
  using assms(1,3)
proof (induction n arbitrary: s)
  case (Suc n)
  have "meets (\<lambda>_ t. safe (wait_not_full K L n t)) (backpressure K L s)"
    by (rule meets_mono [OF backpressure_safe [OF Suc.prems(1) K Suc.prems(2)]])
      (use Suc.IH tied_progress [OF Suc.prems(2)] in blast)
  then show ?case by (simp add: safe_andthen meets_conv)
qed simp

lemma produce_safe:
  assumes "producer_ok op log cur {#m#} s" and K: "reports_once K" and "tied s"
  shows "safe (produce_loop K L n m s)"
  using assms(1,3)
proof (induction n arbitrary: s)
  case (Suc n)
  obtain err full w where p: "rd_kafka_produce K m (kafka_outq s) (world s) = ((err, full), w)"
    by (metis prod.collapse)
  let ?s = "s\<lparr>world := w, kafka_outq := (if err = 0 then kafka_outq s @ [m] else kafka_outq s)\<rparr>"
  let ?H = "if err = 0 then {#} else {#m#}"
  have ok: "producer_ok op log cur ?H ?s" using Suc.prems(1) by (auto simp: producer_ok_def)
  have t: "tied ?s" using tied_same [of ?s s] Suc.prems(2) by (simp add: reader_part_def)
  have "meets (\<lambda>_ u. safe (if err = 0 then Ret 0 u else produce_loop K L n m u)) (backpressure K L ?s)"
    by (rule meets_mono [OF backpressure_safe [OF ok K t]]) (use Suc.IH tied_progress [OF t] in auto)
  then have "safe (andthen (backpressure K L ?s) (\<lambda>_ u. if err = 0 then Ret 0 u else produce_loop K L n m u))"
    by (simp add: safe_andthen meets_conv)
  moreover have "safe (exit_nicely L 1 ?s :: (_, int) outcome)" using t by (rule exit_safe)
  ultimately show ?case by (cases "err = 0") (simp_all add: p Let_def)
qed simp


section \<open>The callbacks\<close>

lemma checkpoint_loop_safe:
  "meets (\<lambda>_ t. reader_part t = reader_part s \<and> mapper t = mapper s) (checkpoint_loop n s) \<or> (\<exists>t. checkpoint_loop n s = Stuck t)"
  by (induction n s rule: checkpoint_loop.induct) (auto simp: Let_def reader_part_def)

lemma begin_safe:
  assumes ok: "producer_ok op log cur {#} s" and K: "reports_once K" and t: "tied s"
  shows "meets (\<lambda>_ t. tied t) (on_begin_txn K L n wal x s)"
proof -
  have moved: "tied (upd_xact i f (u\<lparr>xact_head := j\<rparr>))" if "tied u" for i f j u
    using that tied_same [of "upd_xact i f (u\<lparr>xact_head := j\<rparr>)" u] by (simp add: upd_xact_def reader_part_def)
  have "post (\<lambda>_ u. tied u) (wait_not_full K L n s)"
    by (rule post_mono [OF wait_not_full_ok [OF ok K]]) (use t tied_progress in blast)
  with wait_safe [OF assms] have "meets (\<lambda>_ u. tied u) (wait_not_full K L n s)" by (simp add: meets_conv)
  then have "meets (\<lambda>_ u. tied u) (andthen (wait_not_full K L n s) (\<lambda>_ context.
        let context = context\<lparr>xact_head := (xact_head context + 1) mod MAX_IN_FLIGHT_TRANSACTIONS\<rparr>
        in Ret (0 :: int) (upd_xact (xact_head context)
             (\<lambda>_. \<lparr> xid = x, recvd_events = 0, pending_events = 0, commit_lsn = 0 \<rparr>) context)))"
    unfolding meets_andthen by (rule meets_mono) (simp add: Let_def moved)
  then show ?thesis by (simp add: on_begin_txn_def exit_tied t)
qed

lemma commit_safe:
  assumes "tied s"
  shows "meets (\<lambda>_ t. tied t) (on_commit_txn L wal x s)"
proof -
  let ?s = "upd_xact (xact_head s) (\<lambda>xact. xact\<lparr>commit_lsn := wal\<rparr>) s"
  have "tied ?s" using assms tied_same [of ?s s] by (simp add: upd_xact_def reader_part_def)
  then have "meets (\<lambda>_ t. tied t) (maybe_checkpoint ?s)"
    using checkpoint_loop_safe [of ?s MAX_IN_FLIGHT_TRANSACTIONS] tied_same [of _ ?s]
    by (cases "maybe_checkpoint ?s") (auto simp: maybe_checkpoint_def)
  then show ?thesis by (simp add: on_commit_txn_def meets_andthen exit_tied assms)
qed

lemma encode_safe:
  assumes "table_inv t"
  shows "\<exists>r. encode_msg A fmt t k v s = Ret r s"
proof -
  have j: "sch \<noteq> Dangling \<Longrightarrow> \<exists>r. avro_bin_to_json A sch b s = Ret r s" for sch b s
    by (auto simp: avro_bin_to_json_def split: option.split ptr.split prod.split)
  from j [of "table_key_schema t" k s] j [of "table_row_schema t" v s] assms
  have "\<exists>r. json_encode_msg A t k v s = Ret r s"
    by (cases "avro_bin_to_json A (table_key_schema t) k s"; cases "avro_bin_to_json A (table_row_schema t) v s")
      (auto simp: json_encode_msg_def table_inv_def split: prod.split)
  then show ?thesis by (auto simp: encode_msg_def split: prod.split)
qed

lemma send_safe:
  assumes ok: "producer_ok True log cur {#} s" and K: "reports_once K" and t: "tied s"
    and room: "recvd_events (xact_list s (xact_head s)) < INT_MAX" "pending_events (xact_list s (xact_head s)) < INT_MAX"
  shows "meets (\<lambda>_ t. tied t) (send_kafka_msg A K L n wal rid k v s)"
proof -
  let ?h = "xact_head s"
  let ?s = "upd_xact ?h (\<lambda>x. x\<lparr>recvd_events := recvd_events x + 1, pending_events := pending_events x + 1\<rparr>) s"
  obtain mp where mp: "mapper s = Some mp" "mapper_inv mp" "topics_open mp" using t by (auto simp: tied_def)
  have [simp]: "mapper ?s = mapper s" "output_format ?s = output_format s" by (simp_all add: upd_xact_def)
  have ts: "tied ?s" using tied_same [of ?s s] t by (simp add: upd_xact_def reader_part_def)
  have "safe (send_kafka_msg A K L n wal rid k v s)"
  proof (cases "table_mapper_lookup mp rid")
    case None
    with room mp show ?thesis by (simp add: send_kafka_msg_def Let_def exit_safe [OF ts])
  next
    case (Some i)
    with tm.lookup_iff [OF tm_invar [OF mp(2)]] have "i < length (tables mp)" by simp
    then have tab: "tables mp ! i \<in> set (tables mp)" by simp
    with mp obtain topic where topic: "table_topic (tables mp ! i) = Valid topic"
      by (auto simp: topics_open_def is_valid_conv)
    have "table_inv (tables mp ! i)" using tab mp(2) by (simp add: mapper_inv_def)
    from encode_safe [OF this, of A "output_format s" k v ?s] obtain r where r: "encode_msg A (output_format s) (tables mp ! i) k v ?s = Ret r ?s" by blast
    have "safe (produce_loop K L n m ?s)" if "slot_of m = ?h" for m
    proof -
      have "producer_ok True log (cur @ [m]) {#m#} ?s"
        using ok that send_inv [of log cur "mset (kafka_outq s)" "xact_list s" "xact_tail s" ?h "fsync_lsn s" m]
        by (simp add: producer_ok_def upd_xact_def)
      then show ?thesis using K ts by (rule produce_safe)
    qed
    with Some room mp topic r show ?thesis
      by (auto simp: send_kafka_msg_def Let_def slot_of_def exit_safe [OF ts] split: sum.split prod.split)
  qed
  moreover have "post (\<lambda>_ t. tied t) (send_kafka_msg A K L n wal rid k v s)"
    by (rule post_mono [OF send_kafka_msg_ok [OF ok K]]) (use t tied_progress in blast)
  ultimately show ?thesis by (simp add: meets_conv)
qed

lemma table_schema_safe:
  assumes t: "tied s" and name: "avro_schema_name rs = Some name" "name_fits (the (mapper s)) name"
  shows "meets (\<lambda>_ t. tied t) (on_table_schema A R K L wal rid kj kl ks rj rl rs s)"
proof -
  obtain m where m: "mapper s = Some m" "mapper_inv m" "topics_open m" "reader_ok s" using t by (auto simp: tied_def)
  have ok: "reader_ok (s\<lparr>mapper := Some u, world := w\<rparr>)" for u w
    using m(4) reader_ok_part [of "s\<lparr>mapper := Some u, world := w\<rparr>" s] by (simp add: reader_part_def)
  have "meets (\<lambda>r u. reader_ok u \<and> (\<exists>m. mapper u = Some m \<and> mapper_inv m \<and> (r \<noteq> None \<longrightarrow> topics_open m)))
      (with_mapper (table_mapper_update A R K rid name kj rj) s)"
    using table_mapper_update_topics [OF m(2) _ m(3), of name A R K rid kj rj "world s"] name m(1) ok
    by (cases "table_mapper_update A R K rid name kj rj (m, world s)") (auto simp: with_mapper_def)
  then have "meets (\<lambda>r u. meets (\<lambda>_ t. tied t) (if r = None then exit_nicely L 1 u else Ret 0 u))
      (with_mapper (table_mapper_update A R K rid name kj rj) s)"
    by (rule meets_mono) (auto simp: tied_def intro!: exit_meets)
  with name(1) show ?thesis by (simp add: on_table_schema_def meets_andthen)
qed

section \<open>Messages\<close>

text \<open>
  What a message needs besides \<open>msg_ok\<close>: a row is counted in the open transaction without passing
  \<open>INT_MAX\<close>, and the name of a table fits into the buffer of the mapper.
\<close>

definition countable :: "('w, 'z) producer_context_scheme \<Rightarrow> bool" where
  "countable s \<longleftrightarrow> recvd_events (xact_list s (xact_head s)) < INT_MAX \<and>
     pending_events (xact_list s (xact_head s)) < INT_MAX"

fun producible :: "('y avro_io_scheme) \<Rightarrow> bool \<Rightarrow> ('w, 'z) producer_context_scheme \<Rightarrow> wire_msg \<Rightarrow> bool" where
  "producible A op s (TableSchema r kj rj) \<longleftrightarrow> (case json_schema A rj of None \<Rightarrow> True
     | Some rs \<Rightarrow> (case avro_schema_name rs of None \<Rightarrow> False | Some name \<Rightarrow> name_fits (the (mapper s)) name))"
| "producible A op s (BeginTxn x) \<longleftrightarrow> True"
| "producible A op s (CommitTxn x l) \<longleftrightarrow> True"
| "producible A op s m \<longleftrightarrow> op \<and> countable s"

lemma deliver_msg_safe:
  fixes s :: "('w, 'z) producer_context_scheme"
  assumes A: "avro_codec A" and K: "reports_once K" and ok: "producer_ok op log cur {#} s" and t: "tied s"
    and m: "msg_ok A (client_view s) m" "producible A op s m"
  shows "meets (\<lambda>_ t. tied t) (deliver_msg A (producer_callbacks A R K L n) wal m s)"
proof -
  let ?cb = "producer_callbacks A R K L n :: (('w, 'z) producer_context_scheme) callbacks"
  have r: "reader_ok s" using t by (simp add: tied_def)
  note cbs = producer_callbacks_def call_back_Some
  have dec: "tied u \<and> core u = core s" if "decoded i s u" for i u
  proof -
    from that obtain e where "u = s\<lparr>schemas := e\<rparr>" "reader_ok u" unfolding decoded_def by blast
    with t show ?thesis by (simp add: tied_def core_def)
  qed
  have sent: "meets (\<lambda>_ t. tied t) (check (send_kafka_msg A K L n wal i k v u) (Ret 0))"
    if d: "decoded j s u" and o: "op \<and> countable s" for i k v u j
  proof -
    have c: "core u = core s" "tied u" using dec [OF d] by simp_all
    have "producer_ok True log cur {#} u" using ok o by (simp add: core_ok [OF c(1)])
    moreover have "countable u" using c(1) o by (simp add: core_def countable_def)
    ultimately have "meets (\<lambda>_ t. tied t) (send_kafka_msg A K L n wal i k v u)"
      using K c(2) by (intro send_safe) (simp_all add: countable_def)
    then show ?thesis unfolding meets_check by (rule meets_mono) simp
  qed
  note rows = avro_codec.deliver_row_meets [where Q = "\<lambda>_ t. tied t" and cb = ?cb, OF A r]
  show ?thesis
  proof (cases m)
    case (BeginTxn x)
    have "meets (\<lambda>_ t. tied t) (check (on_begin_txn K L n wal x s) (Ret 0))"
      unfolding meets_check by (rule meets_mono [OF begin_safe [OF ok K t]]) simp
    with BeginTxn show ?thesis by (simp add: producer_callbacks_def call_back_Some)
  next
    case (CommitTxn x l)
    have "meets (\<lambda>_ t. tied t) (check (on_commit_txn L wal x s) (Ret 0))"
      unfolding meets_check by (rule meets_mono [OF commit_safe [OF t]]) simp
    with CommitTxn show ?thesis by (simp add: producer_callbacks_def call_back_Some)
  next
    case (TableSchema i kj rj)
    have "meets (\<lambda>_ t. tied t) (install_schema A ?cb wal i kj rj s)"
    proof (rule avro_codec.install_schema_meets [OF A r])
      show "msg_ok A (client_view s) (TableSchema i kj rj)" using m(1) TableSchema by simp
    next
      fix rs kl ks u
      assume rs: "json_schema A rj = Some rs" and u: "reader_ok u"
        "u = s\<lparr>num_schemas := num_schemas u, capacity := capacity u, schemas := schemas u\<rparr>"
      from u(2) obtain a b c where "u = s\<lparr>num_schemas := a, capacity := b, schemas := c\<rparr>" by (rule that)
      then have "mapper u = mapper s" by simp
      with u(1) t have tu: "tied u" by (simp add: tied_def)
      from m(2) TableSchema rs \<open>mapper u = mapper s\<close> obtain name
        where "avro_schema_name rs = Some name" "name_fits (the (mapper u)) name" by (auto split: option.splits)
      from table_schema_safe [OF tu this]
      have "meets (\<lambda>_ t. tied t) (check (on_table_schema A R K L wal i kj kl ks rj (length rj) rs u) (Ret 0))"
        unfolding meets_check by (rule meets_mono) simp
      then show "meets (\<lambda>_ t. tied t) (call_back (cb_table_schema ?cb) (\<lambda>f. f wal i kj kl ks rj (length rj) rs) u)"
        by (simp add: cbs)
    qed (use t in simp)
    with TableSchema show ?thesis by simp
  next
    case (Insert i k v)
    have op: "op \<and> countable s" using m(2) Insert by simp
    show ?thesis unfolding Insert
    proof (rule rows(1))
      show "k \<noteq> None \<longrightarrow> (\<forall>rs. client_view s i \<noteq> Some (rs, None))" using m(1) Insert by simp
    qed (use dec in blast, use sent [OF _ op] dec in \<open>force simp: cbs on_insert_row_def check_def\<close>)
  next
    case (Update i k l v)
    have op: "op \<and> countable s" using m(2) Update by simp
    show ?thesis unfolding Update
    proof (rule rows(2))
      show "k \<noteq> None \<longrightarrow> (\<forall>rs. client_view s i \<noteq> Some (rs, None))" using m(1) Update by simp
    qed (use dec in blast, use sent [OF _ op] dec in \<open>force simp: cbs on_update_row_def check_def\<close>)
  next
    case (Delete i k l)
    have op: "op \<and> countable s" using m(2) Delete by simp
    show ?thesis unfolding Delete
    proof (rule rows(3))
      show "k \<noteq> None \<longrightarrow> (\<forall>rs. client_view s i \<noteq> Some (rs, None))" using m(1) Delete by simp
    qed (use dec in blast, use sent [OF _ op] dec in \<open>force simp: cbs on_delete_row_def check_def\<close>)
  qed
qed

section \<open>Failed deliveries\<close>

lemma failed_report_exits:
  assumes "state_inv op log cur M s" and "mset (map fst reports) \<subseteq># M" and "tied s"
    and "\<exists>r \<in> set reports. snd r \<noteq> 0"
  shows "\<exists>t. deliver_reports L reports s = Exit 1 t"
  using assms
proof (induction reports arbitrary: s M)
  case (Cons r reports)
  obtain m e where r: "r = (m, e)" by (cases r)
  with Cons.prems have m: "m \<in># M" and sub: "mset (map fst reports) \<subseteq># M - {#m#}"
    by (auto simp: insert_subset_eq_iff)
  show ?case
  proof (cases "e = 0")
    case True
    obtain t where t: "on_deliver_msg L m e s = Ret () t" "state_inv op log cur (M - {#m#}) t" "tied t"
      using report_step [OF Cons.prems(1) m Cons.prems(3)] True by blast
    from Cons.IH [OF t(2) sub t(3)] Cons.prems(4) True t(1) r show ?thesis by simp
  next
    case False
    obtain mp where "mapper s = Some mp" "mapper_inv mp" "reader_ok s" using Cons.prems(3) by (auto simp: tied_def)
    then obtain t where "(exit_nicely L 1 s :: (_, unit) outcome) = Exit 1 t"
      using exit_nicely_exits [of s mp L 1] by blast
    with False r show ?thesis by (simp add: on_deliver_msg_def)
  qed
qed simp

section \<open>Start\<close>

lemma initialised_tied: "initialised s \<Longrightarrow> tied s"
  using mapper_new_inv [of "registry s" "topic_prefix s"]
  by (simp add: initialised_def cleared_def tied_def topics_open_def table_mapper_new_def)

end
