(* ===== verification/Test_Client.thy ===== *)
theory Test_Client
  imports Getopt Connect Frame_Delivery
begin

text \<open>
  The test client, \<open>client/bwtest.c\<close>: it prints every message of the stream and acknowledges it at
  once. \<open>printed\<close> is what went to \<open>stdout\<close>, each call of \<open>printf\<close> as its format and arguments; texts
  written to \<open>stderr\<close> are not modelled.
\<close>

section \<open>Output\<close>

record 'w test_context = "'w client_context" +
  printed :: "errmsg list"

abbreviation (input) newline :: string where "newline \<equiv> [CHR 0x0A]"

definition printf :: "string \<Rightarrow> farg list \<Rightarrow> 'w test_context \<Rightarrow> 'w test_context" where
  "printf fmt args context = context\<lparr>printed := printed context @ [(fmt, args)]\<rparr>"

text \<open>The arguments of \<open>%X/%X\<close>, and a text that the Avro library allocated.\<close>

definition lsn_args :: "u64 \<Rightarrow> farg list" where
  "lsn_args wal_pos = [FInt (uint (ucast (drop_bit 32 wal_pos) :: u32)), FInt (uint (ucast wal_pos :: u32))]"

definition text_arg :: "bytes \<Rightarrow> farg" where
  "text_arg json = FStr (cstr_of json)"

text \<open>
  \<open>avro_schema_name(avro_value_get_schema(val))\<close> for a row value of the entry of table \<open>rid\<close>: both of
  them were created from the row schema of the entry.
\<close>

definition table_name_arg :: "Oid \<Rightarrow> ('z frame_reader_scheme) \<Rightarrow> farg" where
  "table_name_arg rid context = FStr (cstr_arg (case schema_list_lookup context (ucast rid) of
     None \<Rightarrow> None
   | Some i \<Rightarrow> Option.bind (ptr_option (row_schema (schemas context ! i))) avro_schema_name))"

section \<open>The callbacks\<close>

definition checkpoint :: "u64 \<Rightarrow> ('w, 'z) replication_stream_scheme \<Rightarrow> ('w, 'z) replication_stream_scheme" where
  "checkpoint wal_pos stream = stream\<lparr>fsync_lsn := max wal_pos (fsync_lsn stream)\<rparr>"

definition print_begin_txn :: "u64 \<Rightarrow> u32 \<Rightarrow> ('w test_context, int) prog" where
  "print_begin_txn wal_pos x context =
     (if x = 0 then Ret 0 context
      else Ret 0 (checkpoint wal_pos (printf (''begin xid=%u wal_pos=%X/%X'' @ newline)
             (FInt (uint x) # lsn_args wal_pos) context)))"

definition print_commit_txn :: "u64 \<Rightarrow> u32 \<Rightarrow> ('w test_context, int) prog" where
  "print_commit_txn wal_pos x context =
     (if x = 0 then Ret 0 (context\<lparr>taking_snapshot := False\<rparr>)
      else Ret 0 (checkpoint wal_pos (printf (''commit xid=%u wal_pos=%X/%X'' @ newline)
             (FInt (uint x) # lsn_args wal_pos) context)))"

text \<open>A null schema comes with length 0 and prints nothing.\<close>

definition print_table_schema :: "u64 \<Rightarrow> Oid \<Rightarrow> bytes option \<Rightarrow> nat \<Rightarrow> avro_schema option \<Rightarrow>
    bytes \<Rightarrow> nat \<Rightarrow> avro_schema \<Rightarrow> ('w test_context, int) prog" where
  "print_table_schema wal_pos rid key_schema_json key_schema_len key_sch row_schema_json row_schema_len row_sch context =
     Ret 0 (printf (''new schema for relid=%u'' @ newline @ [CHR 0x09] @ ''key = %.*s'' @ newline @ [CHR 0x09] @
         ''row = %.*s'' @ newline)
       [FInt (uint rid), text_arg (case key_schema_json of None \<Rightarrow> [] | Some json \<Rightarrow> take key_schema_len json),
        text_arg (take row_schema_len row_schema_json)] context)"

definition print_insert_row :: "('y avro_io_scheme) \<Rightarrow> u64 \<Rightarrow> Oid \<Rightarrow> bytes option \<Rightarrow> avro_val option \<Rightarrow>
    bytes \<Rightarrow> avro_val \<Rightarrow> ('w test_context, int) prog" where
  "print_insert_row A wal_pos rid key_bin key_val new_bin new_val context =
     (let table_name = table_name_arg rid context in
      check_get (avro_value_to_json A new_val) (\<lambda>new_json.
        case key_val of
          Some k \<Rightarrow> check_get (avro_value_to_json A k) (\<lambda>key_json context.
            Ret 0 (checkpoint wal_pos (printf (''insert to %s: %s --> %s'' @ newline)
              [table_name, text_arg key_json, text_arg new_json] context)))
        | None \<Rightarrow> (\<lambda>context. Ret 0 (checkpoint wal_pos (printf (''insert to %s: %s'' @ newline)
              [table_name, text_arg new_json] context)))) context)"

text \<open>\<open>if (val) check(err, avro_value_to_json(val, 1, &json))\<close> with \<open>json\<close> a null pointer before.\<close>

definition json_if :: "('y avro_io_scheme) \<Rightarrow> avro_val option \<Rightarrow> (bytes option \<Rightarrow> ('s, int) prog) \<Rightarrow> ('s, int) prog" where
  "json_if A val k context = (case val of
     None \<Rightarrow> k None context
   | Some v \<Rightarrow> check_get (avro_value_to_json A v) (\<lambda>json. k (Some json)) context)"

definition print_update_row :: "('y avro_io_scheme) \<Rightarrow> u64 \<Rightarrow> Oid \<Rightarrow> bytes option \<Rightarrow> avro_val option \<Rightarrow>
    bytes option \<Rightarrow> avro_val option \<Rightarrow> bytes \<Rightarrow> avro_val \<Rightarrow> ('w test_context, int) prog" where
  "print_update_row A wal_pos rid key_bin key_val old_bin old_val new_bin new_val context =
     (let table_name = table_name_arg rid context in
      check_get (avro_value_to_json A new_val) (\<lambda>new_json.
      json_if A old_val (\<lambda>old_json.
      json_if A key_val (\<lambda>key_json context.
        Ret 0 (checkpoint wal_pos (case (key_json, old_json) of
            (Some key, Some old) \<Rightarrow> printf (''update to %s: key %s: %s --> %s'' @ newline)
              [table_name, text_arg key, text_arg old, text_arg new_json] context
          | (None, Some old) \<Rightarrow> printf (''update to %s: %s --> %s'' @ newline)
              [table_name, text_arg old, text_arg new_json] context
          | (Some key, None) \<Rightarrow> printf (''update to %s: key %s: %s'' @ newline)
              [table_name, text_arg key, text_arg new_json] context
          | (None, None) \<Rightarrow> printf (''update to %s: (?) --> %s'' @ newline)
              [table_name, text_arg new_json] context))))) context)"

definition print_delete_row :: "('y avro_io_scheme) \<Rightarrow> u64 \<Rightarrow> Oid \<Rightarrow> bytes option \<Rightarrow> avro_val option \<Rightarrow>
    bytes option \<Rightarrow> avro_val option \<Rightarrow> ('w test_context, int) prog" where
  "print_delete_row A wal_pos rid key_bin key_val old_bin old_val context =
     (let table_name = table_name_arg rid context in
      json_if A key_val (\<lambda>key_json.
      json_if A old_val (\<lambda>old_json context.
        Ret 0 (checkpoint wal_pos (case (key_json, old_json) of
            (Some key, Some old) \<Rightarrow> printf (''delete from %s: %s (was: %s)'' @ newline)
              [table_name, text_arg key, text_arg old] context
          | (None, Some old) \<Rightarrow> printf (''delete from %s: %s'' @ newline) [table_name, text_arg old] context
          | (Some key, None) \<Rightarrow> printf (''delete from relid %u: %s'' @ newline)
              [FInt (uint rid), text_arg key] context
          | (None, None) \<Rightarrow> printf (''delete to relid %u (?)'' @ newline) [FInt (uint rid)] context)))) context)"

definition test_callbacks :: "('y avro_io_scheme) \<Rightarrow> ('w test_context) callbacks" where
  "test_callbacks A = \<lparr>
     cb_begin_txn = Some print_begin_txn,
     cb_commit_txn = Some print_commit_txn,
     cb_table_schema = Some print_table_schema,
     cb_insert_row = Some (print_insert_row A),
     cb_update_row = Some (print_update_row A),
     cb_delete_row = Some (print_delete_row A) \<rparr>"

section \<open>The program\<close>

definition test_longs :: long_table where
  "test_longs =
     [(''postgres'', required_argument, short_val (CHR ''d'')),
      (''slot'', required_argument, short_val (CHR ''s'')),
      (''allow-unkeyed'', no_argument, short_val (CHR ''u''))]"

definition test_shorts :: short_table where
  "test_shorts = short_options ''d:s:u''"

definition test_usage :: "('w test_context, 'a) prog" where
  "test_usage context = Exit 1 context"

fun test_option :: "option_event \<Rightarrow> ('w test_context, unit) prog" where
  "test_option (Opt c (Some optarg)) context =
     (if c = short_val (CHR ''d'') then Ret () (context\<lparr>conninfo := Some optarg\<rparr>)
      else if c = short_val (CHR ''s'') then Ret () (context\<lparr>slot_name := Some optarg\<rparr>)
      else test_usage context)"
| "test_option (Opt c None) context =
     (if c = short_val (CHR ''u'') then Ret () (context\<lparr>allow_unkeyed := True\<rparr>)
      else test_usage context)"
| "test_option Unknown context = test_usage context"

fun test_option_each :: "option_event list \<Rightarrow> ('w test_context, unit) prog" where
  "test_option_each [] context = Ret () context"
| "test_option_each (e # es) context = andthen (test_option e context) (\<lambda>_. test_option_each es)"

definition test_parse_options :: "string list \<Rightarrow> ('w test_context, unit) prog" where
  "test_parse_options argv context =
     (case getopt_long test_shorts test_longs (tl argv) of (events, others) \<Rightarrow>
        andthen (test_option_each events context) (\<lambda>_ context.
          if conninfo context = None \<or> others \<noteq> [] then test_usage context else Ret () context))"

text \<open>The callbacks that \<open>init_client\<close> installs are \<open>test_callbacks\<close>.\<close>

definition test_init_client :: "('y avro_io_scheme) \<Rightarrow> ('w test_context, unit) prog" where
  "test_init_client A context = (case frame_reader_new A of
     None \<Rightarrow> Undef
   | Some frame_reader \<Rightarrow> Ret () (set_frame_reader frame_reader ((db_client_new context)
       \<lparr>app_name := Some ''bottledwater'', allow_unkeyed := False, slot_name := Some ''bottledwater'',
        output_plugin := Some ''bottledwater''\<rparr>)))"

definition test_exit_nicely :: "'w pq_ops \<Rightarrow> ('w test_context, 'a) prog" where
  "test_exit_nicely L context =
     andthen (if taking_snapshot context then replication_slot_drop L context else Ret 0 context) (\<lambda>_ context.
     andthen (frame_reader_free context) (\<lambda>_ context. Exit 1 (db_client_free L context)))"

definition test_ensure :: "'w pq_ops \<Rightarrow> ('w test_context, int) outcome \<Rightarrow> ('w test_context, 'a) prog \<Rightarrow>
    ('w test_context, 'a) outcome" where
  "test_ensure L r k = andthen r (\<lambda>err context. if err \<noteq> 0 then test_exit_nicely L context else k context)"

text \<open>The \<open>while\<close> loop with a budget of rounds, and what follows it.\<close>

fun test_loop :: "('y avro_io_scheme) \<Rightarrow> 'w pq_ops \<Rightarrow> nat \<Rightarrow> ('w test_context, int) prog" where
  "test_loop A L 0 context = Stuck context"
| "test_loop A L (Suc m) context =
     (if 0 \<le> client_status context then
        test_ensure L (db_client_poll A L (test_callbacks A) context) (\<lambda>context.
        test_ensure L (if client_status context = 0 then db_client_wait L context else Ret 0 context) (
        test_loop A L m))
      else andthen (frame_reader_free context) (\<lambda>_ context. Ret 0 (db_client_free L context)))"

definition test_main :: "('y avro_io_scheme) \<Rightarrow> 'w pq_ops \<Rightarrow> nat \<Rightarrow> string list \<Rightarrow> ('w test_context, int) prog" where
  "test_main A L m argv context =
     andthen (test_init_client A context) (\<lambda>_ context.
     andthen (test_parse_options argv context) (\<lambda>_ context.
     test_ensure L (db_client_start L (test_callbacks A) context) (test_loop A L m)))"

section \<open>Every message is printed and acknowledged\<close>

text \<open>The messages that give a line of output, and those that move the acknowledged position.\<close>

fun prints :: "wire_msg \<Rightarrow> bool" where
  "prints (BeginTxn x) = (x \<noteq> 0)"
| "prints (CommitTxn x l) = (x \<noteq> 0)"
| "prints m = True"

fun acknowledges :: "wire_msg \<Rightarrow> bool" where
  "acknowledges (BeginTxn x) = (x \<noteq> 0)"
| "acknowledges (CommitTxn x l) = (x \<noteq> 0)"
| "acknowledges (TableSchema r k j) = False"
| "acknowledges m = True"

definition output_of :: "'w test_context \<Rightarrow> nat \<times> u64" where
  "output_of s = (length (printed s), fsync_lsn s)"

text \<open>
  \<open>shown p ack wal s e t\<close>: a call that succeeded printed a line if \<open>p\<close> and acknowledged \<open>wal\<close> if
  \<open>ack\<close>; a call that failed did neither.
\<close>

definition shown :: "bool \<Rightarrow> bool \<Rightarrow> u64 \<Rightarrow> 'w test_context \<Rightarrow> int \<Rightarrow> 'w test_context \<Rightarrow> bool" where
  "shown p ack wal s e t \<longleftrightarrow> output_of t = (if e \<noteq> 0 then output_of s
     else (length (printed s) + of_bool p, if ack then max wal (fsync_lsn s) else fsync_lsn s))"

lemma print_row_shown:
  assumes "output_of t = output_of s"
  shows "post (shown True True wal s) (print_insert_row A wal r kb k nb v t)"
    and "post (shown True True wal s) (print_update_row A wal r kb k ob l nb v t)"
    and "post (shown True True wal s) (print_delete_row A wal r kb k ob l t)"
  using assms
  by (auto simp: print_insert_row_def print_update_row_def print_delete_row_def check_get_def json_if_def Let_def
      shown_def output_of_def checkpoint_def printf_def split: option.split)

lemma read_entry_output: "output_of t = output_of s \<Longrightarrow> post (\<lambda>_ t. output_of t = output_of s) (read_entry A f i b t)"
  by (auto simp: read_entry_def Let_def output_of_def split: ptr.splits prod.splits)

lemma shown_check: "post (shown p a wal s) r \<Longrightarrow> post (shown p a wal s) (check r (Ret 0))"
  by (cases r) (auto simp: check_def)

lemma print_schema_shown:
  assumes "output_of t = output_of s"
  shows "post (shown True False wal s) (check (print_table_schema wal r kj kl ks rj rl rs t) (Ret 0))"
  using assms by (simp add: print_table_schema_def shown_def output_of_def printf_def)

lemma install_schema_shown: "post (shown True False wal s) (deliver_msg A (test_callbacks A) wal (TableSchema r kj rj) s)"
proof -
  have rep: "post (\<lambda>_ t. output_of t = output_of s) (schema_list_replace (ucast r) s)"
    by (auto simp: schema_list_replace_def schema_list_entry_new_def Let_def output_of_def split: option.split)
  have u: "output_of (upd_entry i f t) = output_of t" for i f and t :: "'a test_context"
    by (simp add: upd_entry_def output_of_def)
  have err: "e \<noteq> 0 \<Longrightarrow> output_of t = output_of s \<Longrightarrow> shown True False wal s e t" for e t
    by (simp add: shown_def)
  show ?thesis
    by (auto simp: install_schema_def check_get_def Let_def u test_callbacks_def call_back_Some err
        intro!: post_andthenI [OF rep] print_schema_shown split: option.split)
qed

lemma deliver_shown:
  "post (shown (prints m) (acknowledges m) wal s) (deliver_msg A (test_callbacks A) wal m s)"
proof -
  note D = deliver_row_wp [where P = "\<lambda>t. output_of t = output_of s" and cb = "test_callbacks A" and s = s, OF refl read_entry_output]
  have err: "e \<noteq> 0 \<Longrightarrow> output_of t = output_of s \<Longrightarrow> shown p a wal s e t" for e t p a
    by (simp add: shown_def)
  show ?thesis
  proof (cases m)
    case (BeginTxn x)
    then show ?thesis
      by (simp add: test_callbacks_def call_back_Some print_begin_txn_def shown_def output_of_def checkpoint_def printf_def)
  next
    case (CommitTxn x l)
    then show ?thesis
      by (simp add: test_callbacks_def call_back_Some print_commit_txn_def shown_def output_of_def checkpoint_def printf_def)
  next
    case (TableSchema r kj rj)
    then show ?thesis using install_schema_shown by (simp only: prints.simps acknowledges.simps)
  next
    case (Insert r k v)
    show ?thesis unfolding Insert prints.simps acknowledges.simps
      by (rule D) (auto simp: test_callbacks_def call_back_Some err intro!: shown_check print_row_shown)
  next
    case (Update r k l v)
    show ?thesis unfolding Update prints.simps acknowledges.simps
      by (rule D) (auto simp: test_callbacks_def call_back_Some err intro!: shown_check print_row_shown)
  next
    case (Delete r k l)
    show ?thesis unfolding Delete prints.simps acknowledges.simps
      by (rule D) (auto simp: test_callbacks_def call_back_Some err intro!: shown_check print_row_shown)
  qed
qed

text \<open>A frame: one line for each message, and at least the position of the frame is acknowledged.\<close>

lemma deliver_all_shown:
  "post (\<lambda>e t. fsync_lsn s \<le> fsync_lsn t \<and> (e = 0 \<longrightarrow>
      length (printed t) = length (printed s) + length (filter prints ms) \<and>
      fsync_lsn t = (if \<exists>m \<in> set ms. acknowledges m then max wal (fsync_lsn s) else fsync_lsn s)))
    (deliver_all A (test_callbacks A) wal ms s)"
proof (induction ms arbitrary: s)
  case (Cons m ms)
  show ?case
  proof (cases "deliver_msg A (test_callbacks A) wal m s")
    case (Ret e t)
    with deliver_shown [of m wal s A] have t: "shown (prints m) (acknowledges m) wal s e t" by simp
    show ?thesis
    proof (cases "e = 0")
      case True
      with t have o: "length (printed t) = length (printed s) + of_bool (prints m)"
          "fsync_lsn t = (if acknowledges m then max wal (fsync_lsn s) else fsync_lsn s)"
        by (simp_all add: shown_def output_of_def)
      from Cons [of t] show ?thesis
        unfolding deliver_all.simps Ret
        by (cases "deliver_all A (test_callbacks A) wal ms t") (use True o in \<open>auto simp: check_def\<close>)
    qed (use t Ret in \<open>simp add: check_def shown_def output_of_def\<close>)
  qed (simp_all add: check_def)
qed simp

lemma test_keeps_reader: "callbacks_keep_reader (test_callbacks A :: 'w test_context callbacks)"
proof -
  have r: "reader_part (checkpoint wal (printf f a s)) = reader_part s"
    "reader_part (printf f a s) = reader_part s"
    "reader_part (s\<lparr>taking_snapshot := b\<rparr>) = reader_part s" for wal f a b and s :: "'w test_context"
    by (simp_all add: reader_part_def checkpoint_def printf_def)
  show ?thesis
    by (auto simp: callbacks_keep_reader_def test_callbacks_def keeps_reader_def print_begin_txn_def print_commit_txn_def
        print_table_schema_def print_insert_row_def print_update_row_def print_delete_row_def check_get_def json_if_def
        Let_def r split: option.split)
qed

end
