(* ===== verification/Sample_Main.thy ===== *)
theory Sample_Main
  imports Sample_Server Producer_Safety Test_Client
begin

text \<open>
  The two programs on a concrete server: one that has the replication slot and streams a
  transaction. Its state is the list of the messages that it has still to send.
\<close>

definition stream_pq :: "bytes list pq_ops" where
  "stream_pq = sample_pq\<lparr>
     PQexec := (\<lambda>c q w. (if q = ''IDENTIFY_SYSTEM''
       then \<lparr> PQresultStatus = PGRES_TUPLES_OK, PQresultErrorMessage = [], PQnfields = 4,
              PQfformats = [0, 0, 0, 0], res_rows = [[Some [], Some [], Some [], Some (bytes_of ''db'')]] \<rparr>
       else \<lparr> PQresultStatus = PGRES_COPY_BOTH, PQresultErrorMessage = [], PQnfields = 0,
              PQfformats = [], res_rows = [] \<rparr>, w)),
     PQgetCopyData := (\<lambda>c w. (case w of [] \<Rightarrow> (0, [], []) | b # w \<Rightarrow> (int (length b), b, w)))\<rparr>"

definition sample_conf :: "('w, unit, unit) conf_ops" where
  "sample_conf = \<lparr> rd_kafka_conf_new = (), rd_kafka_topic_conf_new = (),
     rd_kafka_topic_conf_set_partitioner_cb = (\<lambda>t. t), rd_kafka_conf_set_dr_msg_cb = (\<lambda>c. c),
     rd_kafka_conf_set = (\<lambda>c p v. Inr ()), rd_kafka_topic_conf_set = (\<lambda>t p v. Inr ()),
     rd_kafka_new = (\<lambda>c w. (Inr (), w)), rd_kafka_brokers_add = (\<lambda>b w. (1, w)) \<rparr>"

text \<open>Some contents of the memory before it is cleared.\<close>

definition sample_memory :: "'w \<Rightarrow> ('w, unit, unit) main_context" where
  "sample_memory w = producer_context.extend (sample_context w) (main_context.fields () () [])"

definition sample_test :: "unit test_context" where
  "sample_test = client_context.extend (client_context.truncate (sample_context ())) (test_context.fields [])"

definition xlog_message :: "u64 \<Rightarrow> bytes \<Rightarrow> bytes" where
  "xlog_message wal frame = [119] @ sendint64 wal @ sendint64 0 @ sendint64 0 @ frame"

definition sample_stream :: "bytes list" where
  "sample_stream = [xlog_message 100 [2, 0, 14, 0], xlog_message 120 [2, 2, 14, 0, 0]]"

definition sample_argv :: "string list" where
  "sample_argv = [''bottledwater'', ''-d'', ''postgres:'', ''--slot=events'']"

abbreviation sample_state :: "bool \<times> u64 \<Rightarrow> (bytes list, unit, unit) main_context \<Rightarrow> bool" where
  "sample_state \<equiv> main_state avro_codec_ref sample_http eager_kafka stream_pq sample_conf 3 sample_argv"

lemma sample_polled:
  assumes "sql_conn s = None" and "world s = xlog_message wal b # w" and "b \<noteq> []"
    and "avro_value_write avro_codec_ref (frame_of ms) 100 = (0, b)"
  shows "polled avro_codec_ref stream_pq s wal ms"
proof -
  let ?m = "xlog_message wal b"
  have "PQgetCopyData stream_pq (repl_conn s) (world s) = (int (length ?m), ?m, w)"
    using assms(2) by (simp add: stream_pq_def)
  moreover have "xlogdata (int (length ?m)) ?m"
    using assms(3) by (cases b) (simp_all add: xlogdata_def xlog_message_def)
  moreover have "recvint64 (drop 1 ?m) = wal" "drop 25 ?m = b"
    using recv_send [of wal] by (simp_all add: xlog_message_def)
  moreover have "frame_bytes avro_codec_ref ms b" using assms(4) by (auto simp: frame_bytes_def)
  ultimately show ?thesis using assms(1) by (simp add: polled_def)
qed

lemma sample_commit_frame: "avro_value_write avro_codec_ref (frame_of [CommitTxn 7 0]) 100 = (0, [2, 2, 14, 0, 0])"
  by code_simp

lemma sample_main_steps:
  "\<exists>s. sample_state (False, 120) s \<and> fsync_lsn s = 120 \<and> kafka_outq s = []"
proof -
  let ?round = "main_round avro_codec_ref sample_http eager_kafka stream_pq 3"
  have "holds (\<lambda>_ s. holds (\<lambda>e t. e = 0 \<and>
          (sql_conn t = None \<and> world t = sample_stream \<and> client_status t = 0 \<and> \<not> taking_snapshot t) \<and>
          holds (\<lambda>_ u. (sql_conn u = None \<and> world u = tl sample_stream \<and> client_status u = 1) \<and>
            holds (\<lambda>_ v. fsync_lsn v = 120 \<and> kafka_outq v = []) (?round u)) (?round t))
        (db_client_start stream_pq (producer_callbacks avro_codec_ref sample_http eager_kafka stream_pq 3) s))
      (initialise avro_codec_ref sample_conf sample_argv (sample_memory sample_stream))"
    by code_simp
  then obtain s t u v where i: "initialise avro_codec_ref sample_conf sample_argv (sample_memory sample_stream) = Ret () s"
    and t: "db_client_start stream_pq (producer_callbacks avro_codec_ref sample_http eager_kafka stream_pq 3) s = Ret 0 t"
      "sql_conn t = None" "world t = sample_stream" "client_status t = 0" "\<not> taking_snapshot t"
    and u: "?round t = Ret () u" "sql_conn u = None" "world u = tl sample_stream" "client_status u = 1"
    and v: "?round u = Ret () v" "fsync_lsn v = 120" "kafka_outq v = []"
    unfolding holds_conv by auto
  have sig: "\<not> shutdown_signal eager_kafka w" for w :: "bytes list" by (simp add: eager_kafka_def)
  from main_started [OF i t(1)] t(5) have "sample_state (False, 0) t" by simp
  from main_continues [OF this _ sig _ _ u(1), of 100 "[BeginTxn 7]"] t
  have "sample_state (True, 0) u"
    by (simp add: sample_polled [OF _ _ _ sample_frame] sample_stream_def)
  from main_continues [OF this _ sig _ _ v(1), of 120 "[CommitTxn 7 0]"] u
  have "sample_state (False, 120) v"
    by (simp add: sample_polled [OF _ _ _ sample_commit_frame] sample_stream_def)
  with v show ?thesis by blast
qed

section \<open>A broker that fails\<close>

definition failing_kafka :: "'w kafka_ops" where
  "failing_kafka = eager_kafka\<lparr>rd_kafka_poll := (\<lambda>q timeout w. (map (\<lambda>m. (m, -1)) q, [], w))\<rparr>"

lemma failing_reports_once: "reports_once failing_kafka"
  by (auto simp: reports_once_def failing_kafka_def eager_kafka_def image_mset.compositionality comp_def)

abbreviation failing_run :: "bool \<Rightarrow> txn_log \<Rightarrow> kafka_msg list \<Rightarrow> unit producer_context \<Rightarrow> bool" where
  "failing_run \<equiv> producer_run avro_codec_ref sample_http failing_kafka sample_pq 3"

abbreviation failing_callbacks :: "(unit producer_context) callbacks" where
  "failing_callbacks \<equiv> producer_callbacks avro_codec_ref sample_http failing_kafka sample_pq 3"

lemma sample_tied: "tied (sample_context w)"
  by (simp add: tied_def reader_ok_def mapper_inv_def topics_open_def sample_context_def table_invar_def entry_ok_def
      sample_entry_def has_schema_default table_inv_def sample_table_def)

text \<open>A transaction with one row that Kafka has not reported.\<close>

lemma failing_run_steps:
  "\<exists>r s. failing_run True [(0, [])] [] r \<and> tied r \<and> countable r \<and>
     failing_run True [(0, [])] [sample_msg] s \<and> tied s \<and> kafka_outq s = [sample_msg]"
proof -
  let ?d = "deliver_msg avro_codec_ref failing_callbacks"
  have "holds (\<lambda>e r. e = 0 \<and> countable r \<and>
          sent_msgs avro_codec_ref r 110 (Insert 16384 None [10]) = [sample_msg] \<and>
          holds (\<lambda>e s. e = 0 \<and> kafka_outq s = [sample_msg]) (?d 110 (Insert 16384 None [10]) r))
        (?d 105 (BeginTxn 7) (sample_context ()))"
    by code_simp
  then obtain r s where
      r: "?d 105 (BeginTxn 7) (sample_context ()) = Ret 0 r" "countable r"
        "sent_msgs avro_codec_ref r 110 (Insert 16384 None [10]) = [sample_msg]"
    and s: "?d 110 (Insert 16384 None [10]) r = Ret 0 s" "kafka_outq s = [sample_msg]"
    unfolding holds_conv by auto
  note K = failing_reports_once [where 'a = unit]
  have f: "failing_run False [(0, [])] [] (sample_context ())" by (rule run_stream [OF sample_fresh])
  have rr: "failing_run True [(0, [])] [] r" by (rule run_begin [OF f _ r(1)]) simp
  have rs: "failing_run True [(0, [])] [sample_msg] s" using run_row [OF rr _ s(1)] r(3) by simp
  note safe = deliver_msg_safe [where R = sample_http and L = sample_pq and n = 3, OF cref.avro_codec_axioms K run_ok [OF _ K]]
  have tr: "tied r" using safe [where m = "BeginTxn 7" and wal = 105, OF f sample_tied] r(1) by simp
  have "tied s" using safe [where m = "Insert 16384 None [10]" and wal = 110, OF rr tr] s(1) r(2) by simp
  with rr tr r(2) rs s(2) show ?thesis by blast
qed

end
