(* ===== verification/Node_Db.thy ===== *)
theory Node_Db
  imports BW_Prelude
begin

text \<open>
  The node application (\<open>04-app/nodeapp\<close>): the JavaScript values it computes with, its configuration
  (\<open>config/index.js\<close>) and the connection parameters of \<open>lib/db.js\<close>.

  Values that come from JSON and from the environment are of type \<open>js\<close>; the environment is a map. What
  the module exports is the record \<open>db_params\<close>, which its functions close over: \<open>db_client\<close> and its
  siblings return the URL that is handed to the package \<open>pg\<close>, \<open>None\<close> where the source reads past the end of
  the array (\<open>undefined\<close>).
\<close>

section \<open>JavaScript values\<close>

datatype js = JsUndefined | JsNull | JsBool bool | JsNumber int | JsString string
  | JsArray "js list" | JsObject "(string \<times> js) list"

fun truthy :: "js \<Rightarrow> bool" where
  "truthy JsUndefined = False"
| "truthy JsNull = False"
| "truthy (JsBool b) = b"
| "truthy (JsNumber n) = (n \<noteq> 0)"
| "truthy (JsString s) = (s \<noteq> [])"
| "truthy (JsArray vs) = True"
| "truthy (JsObject kvs) = True"

definition js_or :: "js \<Rightarrow> js \<Rightarrow> js" where
  "js_or a b = (if truthy a then a else b)"

text \<open>Reading the property \<open>k\<close> of a value; \<open>None\<close> is a \<open>TypeError\<close>.\<close>

fun js_get :: "js \<Rightarrow> string \<Rightarrow> js option" where
  "js_get JsUndefined k = None"
| "js_get JsNull k = None"
| "js_get (JsObject kvs) k = Some (case map_of kvs k of None \<Rightarrow> JsUndefined | Some v \<Rightarrow> v)"
| "js_get (JsArray vs) k = Some (if k = ''0'' \<and> vs \<noteq> [] then hd vs else JsUndefined)"
| "js_get v k = Some JsUndefined"

fun digits :: "nat \<Rightarrow> string" where
  "digits n = (if n < 10 then [char_of (48 + n)] else digits (n div 10) @ [char_of (48 + n mod 10)])"

declare digits.simps [simp del]

fun join :: "string list \<Rightarrow> string" where
  "join [] = []"
| "join [s] = s"
| "join (s # ss) = s @ '','' @ join ss"

text \<open>Conversion to a string, as \<open>+\<close> does it.\<close>

fun js_string :: "js \<Rightarrow> string" where
  "js_string JsUndefined = ''undefined''"
| "js_string JsNull = ''null''"
| "js_string (JsBool b) = (if b then ''true'' else ''false'')"
| "js_string (JsNumber n) = (if n < 0 then ''-'' @ digits (nat (- n)) else digits (nat n))"
| "js_string (JsString s) = s"
| "js_string (JsArray vs) = join (map (\<lambda>v. case v of JsUndefined \<Rightarrow> [] | JsNull \<Rightarrow> [] | _ \<Rightarrow> js_string v) vs)"
| "js_string (JsObject kvs) = ''[object Object]''"

text \<open>\<open>s.split(c)\<close> for a separator of one character.\<close>

fun split_on :: "char \<Rightarrow> string \<Rightarrow> string list" where
  "split_on c [] = [[]]"
| "split_on c (x # xs) = (if x = c then [] # split_on c xs
     else (case split_on c xs of [] \<Rightarrow> [[x]] | w # ws \<Rightarrow> (x # w) # ws))"

lemma split_on_not_Nil [simp]: "split_on c s \<noteq> []"
  by (induction s) (auto split: list.split)

lemma hd_split_on: "hd (split_on c s) = takeWhile (\<lambda>x. x \<noteq> c) s"
proof (induction s)
  case (Cons x xs)
  obtain w ws where "split_on c xs = w # ws" by (cases "split_on c xs") simp_all
  with Cons show ?case by simp
qed simp

type_synonym environment = "string \<Rightarrow> string option"

definition getenv :: "environment \<Rightarrow> string \<Rightarrow> js" where
  "getenv env k = (case env k of None \<Rightarrow> JsUndefined | Some v \<Rightarrow> JsString v)"

section \<open>The configuration\<close>

record app_config =
  cfg_instance_name :: js
  cfg_http_port :: js
  cfg_host :: js
  cfg_log_folder :: js
  cfg_db_host :: js
  cfg_db_port :: js
  cfg_db_database :: js
  cfg_db_user :: js
  cfg_db_password :: js
  cfg_db_pool_size :: js
  cfg_max_snapshots :: nat
  cfg_rest_proxy_host :: js
  cfg_rest_proxy_port :: js
  cfg_topic_name :: js
  cfg_consumer_group_name :: js
  cfg_from_beginning :: js

definition app_config :: "environment \<Rightarrow> app_config" where
  "app_config env = \<lparr>
     cfg_instance_name = js_or (getenv env ''INSTANCE_NAME'') (JsString ''node1''),
     cfg_http_port = js_or (getenv env ''PORT'') (JsNumber 3000),
     cfg_host = js_or (getenv env ''INSTANCE_NAME'') (JsString ''localhost''),
     cfg_log_folder = js_or (getenv env ''LOG_PATH'') (JsString ''/var/log/nodeapp''),
     cfg_db_host = js_or (getenv env ''DB_HOST'') (JsString ''localhost''),
     cfg_db_port = JsNumber 5432,
     cfg_db_database = JsString ''challenge'',
     cfg_db_user = JsString ''challenge'',
     cfg_db_password = JsString ''challenge'',
     cfg_db_pool_size = JsNumber 1,
     cfg_max_snapshots = 3,
     cfg_rest_proxy_host = JsString ''rp1'',
     cfg_rest_proxy_port = JsNumber 8082,
     cfg_topic_name = JsString ''csvs'',
     cfg_consumer_group_name = JsString ''cg_csv'',
     cfg_from_beginning = JsNumber 1 \<rparr>"

section \<open>Connection parameters\<close>

record db_params =
  db_database :: js
  db_user :: js
  db_password :: js
  db_host :: js
  db_ports :: "js list"
  conns_url :: "string list"

definition conn_url :: "db_params \<Rightarrow> js \<Rightarrow> string" where
  "conn_url p port = ''postgres://'' @ js_string (db_user p) @ '':'' @ js_string (db_password p) @ ''@'' @
     js_string (db_host p) @ '':'' @ js_string port @ ''/'' @ js_string (db_database p)"

definition push_port :: "js \<Rightarrow> db_params \<Rightarrow> db_params" where
  "push_port port p = p\<lparr>db_ports := db_ports p @ [port], conns_url := conns_url p @ [conn_url p port]\<rparr>"

definition push_ports :: "string list \<Rightarrow> db_params \<Rightarrow> db_params" where
  "push_ports = fold (\<lambda>port p. if truthy (JsString port) then push_port (JsString port) p else p)"

definition db_module :: "environment \<Rightarrow> app_config \<Rightarrow> db_params" where
  "db_module env config =
     (let p = \<lparr> db_database = js_or (getenv env ''DB_DATABASE'') (cfg_db_database config),
                db_user = js_or (getenv env ''DB_USER'') (cfg_db_user config),
                db_password = js_or (getenv env ''DB_PASSWORD'') (cfg_db_password config),
                db_host = js_or (getenv env ''DB_HOST'') (cfg_db_host config),
                db_ports = [], conns_url = [] \<rparr>
      in if truthy (getenv env ''DB_PORT'') then push_ports (split_on (CHR '','') (js_string (getenv env ''DB_PORT''))) p
         else push_port (cfg_db_port config) p)"

definition ports_amount :: "db_params \<Rightarrow> int" where
  "ports_amount p = int (length (db_ports p))"

definition url_at :: "db_params \<Rightarrow> int \<Rightarrow> string option" where
  "url_at p i = (if 0 \<le> i \<and> nat i < length (conns_url p) then Some (conns_url p ! nat i) else None)"

definition db_client :: "db_params \<Rightarrow> string option" where
  "db_client p = url_at p 0"

definition db_client_with_index :: "db_params \<Rightarrow> int \<Rightarrow> string option" where
  "db_client_with_index p port_index =
     (if 0 \<le> port_index \<and> port_index < int (length (conns_url p)) then url_at p port_index else url_at p 0)"

definition db_connect :: "db_params \<Rightarrow> string option" where
  "db_connect p = url_at p 0"

definition db_connect_with_index :: "db_params \<Rightarrow> int \<Rightarrow> string option" where
  "db_connect_with_index p port_index =
     (if 0 \<le> port_index \<and> port_index < int (length (conns_url p)) then url_at p port_index else url_at p 0)"

subsection \<open>One URL for each port\<close>

lemma push_ports_spec:
  "db_ports (push_ports ps p) = db_ports p @ map JsString (filter (\<lambda>s. s \<noteq> []) ps) \<and>
   conns_url (push_ports ps p) = conns_url p @ map (\<lambda>s. conn_url p (JsString s)) (filter (\<lambda>s. s \<noteq> []) ps)"
proof (induction ps arbitrary: p)
  case (Cons x ps)
  have "conn_url (push_port port p) = conn_url p" for port by (rule ext) (simp add: conn_url_def push_port_def)
  with Cons [of p] Cons [of "push_port (JsString x) p"] show ?case by (simp add: push_ports_def push_port_def)
qed (simp add: push_ports_def)

lemma db_module_urls: "length (conns_url (db_module env config)) = length (db_ports (db_module env config))"
  by (simp add: db_module_def push_port_def push_ports_spec Let_def)

end
