(* ===== verification/Node_Worker.thy ===== *)
theory Node_Worker
  imports Node_Db
begin

text \<open>
  The worker of the node application (\<open>lib/worker.js\<close>).

  The program is driven by events: its handlers are programs on a state that holds the variables the
  closures share, the connections whose callbacks are still to come, and the calls of other packages
  made so far (\<open>acts\<close>). \<open>Exit n\<close> is \<open>process.exit(n)\<close>; an exception that a handler throws reaches the handler
  of \<open>uncaughtException\<close>, which \<open>start\<close> has installed. A client of the package \<open>pg\<close> is a number, and the
  callback that it owes is an entry of \<open>jobs\<close>.
\<close>

section \<open>State\<close>

datatype act =
    NewClient nat "string option" | ClientConnect nat | ClientEnd nat | ClientQuery nat string "string list"
  | Join js "(string \<times> js) list" | Subscribe js | ConsumerShutdown
  | Listen js | LogErr string nat string | LogInfo string nat string

datatype job = Connecting js | Querying js

record worker =
  consumed :: nat
  current_port_index :: int
  next_client :: nat
  jobs :: "nat \<Rightarrow> job option"
  acts :: "act list"

type_synonym 'a worker_prog = "(worker, 'a) prog"

definition act :: "act \<Rightarrow> worker \<Rightarrow> worker" where
  "act a s = s\<lparr>acts := acts s @ [a]\<rparr>"

definition instance_text :: "environment \<Rightarrow> string \<Rightarrow> string" where
  "instance_text env text = ''Worker '' @ js_string (getenv env ''INSTANCE_NAME'') @ text"

text \<open>The handler of \<open>uncaughtException\<close>.\<close>

definition uncaught :: "'a worker_prog" where
  "uncaught s = Exit 1 (act (LogErr ''start'' 2 ''Mmmh, an uncaught exception, the application is not stable ..'') s)"

text \<open>Reading a property in a handler.\<close>

definition js_read :: "js \<Rightarrow> string \<Rightarrow> (js \<Rightarrow> 'a worker_prog) \<Rightarrow> 'a worker_prog" where
  "js_read v k f s = (case js_get v k of None \<Rightarrow> uncaught s | Some w \<Rightarrow> f w s)"

section \<open>Handlers\<close>

definition log_shutdown :: "environment \<Rightarrow> bool \<Rightarrow> unit worker_prog" where
  "log_shutdown env err s = Ret () (if err
     then act (LogErr ''log_shutdown'' 1 (instance_text env '' has an error while shutting down'')) s
     else act (LogInfo ''log_shutdown'' 2 (instance_text env '' shutdown cleanly'')) s)"

definition round_robin_port :: "db_params \<Rightarrow> int \<Rightarrow> int" where
  "round_robin_port db i = (if i < ports_amount db - 1 then i + 1 else 0)"

text \<open>\<open>process_message\<close> until it waits for the connection, for the query, and its callbacks.\<close>

definition worker_process_message :: "db_params \<Rightarrow> js \<Rightarrow> worker \<Rightarrow> worker" where
  "worker_process_message db msg s =
     (let c = next_client s;
          s = act (NewClient c (db_client_with_index db (current_port_index s))) (s\<lparr>next_client := c + 1\<rparr>)
      in act (ClientConnect c) (s\<lparr>jobs := (jobs s)(c \<mapsto> Connecting msg)\<rparr>))"

text \<open>The callback \<open>fn\<close> that \<open>worker_start\<close> passes to \<open>process_message\<close>.\<close>

definition message_done :: "environment \<Rightarrow> js \<Rightarrow> js option \<Rightarrow> unit worker_prog" where
  "message_done env msg resqry s = (case resqry of
     None \<Rightarrow> Ret () (act (LogErr ''worker_start'' 5 (instance_text env '' has an error while consuming messages'')) s)
   | Some res \<Rightarrow>
       js_read msg ''name'' (\<lambda>name. js_read name ''string'' (\<lambda>name.
       js_read msg ''email'' (\<lambda>email. js_read email ''string'' (\<lambda>email.
       js_read res ''rows'' (\<lambda>rows. js_read rows ''0'' (\<lambda>row. js_read row ''count'' (\<lambda>count s.
         Ret () (act (LogInfo ''worker_start'' 6 ('' MESSAGE *** Name: '' @ js_string name @
           '' *** Email: '' @ js_string email @ '' *** Count: '' @ js_string count)) s)))))))) s)"

definition on_connected :: "environment \<Rightarrow> nat \<Rightarrow> js \<Rightarrow> bool \<Rightarrow> unit worker_prog" where
  "on_connected env c msg err s =
     (if err then
        let s = act (ClientEnd c) (s\<lparr>jobs := (jobs s)(c := None)\<rparr>);
            s = act (LogErr ''process_message'' 1 ''Error while trying to connect to the database'') s
        in message_done env JsUndefined None s
      else
        js_read msg ''name'' (\<lambda>name. js_read name ''string'' (\<lambda>name s. case name of
            JsString text \<Rightarrow>
              let names = split_on (CHR '' '') text; fname = hd names
              in Ret () (act (ClientQuery c ''SELECT count(*) FROM csvs WHERE name ILIKE $1'' [fname @ ''%''])
                   (s\<lparr>jobs := (jobs s)(c \<mapsto> Querying msg)\<rparr>))
          | _ \<Rightarrow> uncaught s)) s)"

definition on_queried :: "environment \<Rightarrow> nat \<Rightarrow> js \<Rightarrow> js option \<Rightarrow> unit worker_prog" where
  "on_queried env c msg resqry s = message_done env msg resqry (act (ClientEnd c) (s\<lparr>jobs := (jobs s)(c := None)\<rparr>))"

text \<open>The consumer configuration.\<close>

definition consumer_config :: "environment \<Rightarrow> app_config \<Rightarrow> (string \<times> js) list" where
  "consumer_config env config = [(''format'', JsString ''avro''), (''auto.commit.enable'', JsString ''true'')] @
     (if truthy (js_or (getenv env ''KAFKA_FROM_BEGINNING'') (cfg_from_beginning config))
      then [(''auto.offset.reset'', JsString ''smallest'')] else [])"

definition worker_start :: "environment \<Rightarrow> app_config \<Rightarrow> unit worker_prog" where
  "worker_start env config s = Ret () (act (Join
     (js_or (getenv env ''KAFKA_CONSUMER_GROUP_NAME'') (cfg_consumer_group_name config)) (consumer_config env config)) s)"

definition on_joined :: "environment \<Rightarrow> app_config \<Rightarrow> bool \<Rightarrow> unit worker_prog" where
  "on_joined env config err s =
     (let s = s\<lparr>current_port_index := -1\<rparr>
      in Ret () (if err then act (LogErr ''worker_start'' 1 (instance_text env '' has an error when creating the consumer'')) s
        else act (Subscribe (js_or (getenv env ''KAFKA_TOPIC_NAME'') (cfg_topic_name config)))
          (act (LogInfo ''worker_start'' 2 (instance_text env '' has initialized consumer instance'')) s)))"

definition on_consumer_error :: "environment \<Rightarrow> unit worker_prog" where
  "on_consumer_error env s = Ret () (act ConsumerShutdown
     (act (LogErr ''worker_start'' 3 (''There was an error with the worker '' @ js_string (getenv env ''INSTANCE_NAME''))) s))"

definition process_each :: "db_params \<Rightarrow> js list \<Rightarrow> worker \<Rightarrow> worker" where
  "process_each db = fold (\<lambda>msg s. worker_process_message db msg
     (s\<lparr>current_port_index := round_robin_port db (current_port_index s)\<rparr>))"

definition on_data :: "db_params \<Rightarrow> js list \<Rightarrow> unit worker_prog" where
  "on_data db msgs s =
     (let s = s\<lparr>consumed := consumed s + length msgs\<rparr>;
          s = act (LogInfo ''worker_start'' 4 (''The amount of messages consumed is: '' @ digits (consumed s))) s
      in Ret () (process_each db msgs s))"

definition on_stream_error :: "environment \<Rightarrow> unit worker_prog" where
  "on_stream_error env s = Ret () (act ConsumerShutdown
     (act (LogErr ''worker_start'' 7 (instance_text env '' has an error with the stream to the Confluent Rest Proxy'')) s))"

definition on_stream_end :: "environment \<Rightarrow> unit worker_prog" where
  "on_stream_end env s = Ret () (act ConsumerShutdown
     (act (LogInfo ''worker_start'' 8 (instance_text env ''has received an end of the stream to the Confluent Rest Proxy'')) s))"

definition on_sigint :: "unit worker_prog" where
  "on_sigint s = Ret () (act ConsumerShutdown s)"

text \<open>\<open>start\<close>, and the callback of the connection that it tests.\<close>

definition start_worker :: "db_params \<Rightarrow> worker" where
  "start_worker db = act (ClientConnect 0) (act (NewClient 0 (db_client db))
     \<lparr> consumed = 0, current_port_index = -1, next_client = 1, jobs = (\<lambda>_. None), acts = [] \<rparr>)"

definition on_tested :: "environment \<Rightarrow> app_config \<Rightarrow> bool \<Rightarrow> unit worker_prog" where
  "on_tested env config err s =
     (let s = act (ClientEnd 0) s
      in if err then Exit 1 (act (LogErr ''start'' 1 ''Error while trying to connect to the database'') s)
         else worker_start env config s)"

section \<open>Runs\<close>

text \<open>
  \<open>worker_state s\<close>: the worker joined its group and has handled events since then. The package \<open>pg\<close>
  calls the callback of a connection and of a query once.
\<close>

datatype worker_event = ConsumerError | Data "js list" | Connected nat bool | Queried nat "js option"
  | StreamError | StreamEnd | Sigint | ShutdownDone bool

definition worker_step :: "environment \<Rightarrow> db_params \<Rightarrow> worker_event \<Rightarrow> unit worker_prog" where
  "worker_step env db ev s = (case ev of
     ConsumerError \<Rightarrow> on_consumer_error env s
   | Data msgs \<Rightarrow> on_data db msgs s
   | Connected c err \<Rightarrow> (case jobs s c of Some (Connecting msg) \<Rightarrow> on_connected env c msg err s | _ \<Rightarrow> Ret () s)
   | Queried c res \<Rightarrow> (case jobs s c of Some (Querying msg) \<Rightarrow> on_queried env c msg res s | _ \<Rightarrow> Ret () s)
   | StreamError \<Rightarrow> on_stream_error env s
   | StreamEnd \<Rightarrow> on_stream_end env s
   | Sigint \<Rightarrow> on_sigint s
   | ShutdownDone err \<Rightarrow> log_shutdown env err s)"

inductive worker_state :: "environment \<Rightarrow> app_config \<Rightarrow> db_params \<Rightarrow> worker \<Rightarrow> bool" for env config db where
  worker_joined: "on_tested env config False (start_worker db) = Ret () s \<Longrightarrow> on_joined env config False s = Ret () t \<Longrightarrow>
    worker_state env config db t"
| worker_handles: "worker_state env config db s \<Longrightarrow> worker_step env db ev s = Ret () t \<Longrightarrow> worker_state env config db t"

subsection \<open>Connections and ports\<close>

text \<open>
  The invariant: a client has been ended, once, exactly if it waits for nothing; the clients of messages
  take the ports in turn, and the last one used \<open>current_port_index\<close>.
\<close>

definition turn :: "db_params \<Rightarrow> nat \<Rightarrow> int" where
  "turn db c = int ((c - 1) mod max 1 (length (db_ports db)))"

definition clients_inv :: "db_params \<Rightarrow> nat \<Rightarrow> worker \<Rightarrow> bool" where
  "clients_inv db n s \<longleftrightarrow> next_client s = n + 1 \<and> current_port_index s = (if n = 0 then -1 else turn db n) \<and>
     (\<forall>c > n. jobs s c = None) \<and>
     (\<forall>c. count_list (acts s) (ClientEnd c) = of_bool (c \<le> n \<and> jobs s c = None)) \<and>
     (\<forall>c \<in> {1..n}. NewClient c (db_client_with_index db (turn db c)) \<in> set (acts s))"

lemma round_robin_turn:
  "round_robin_port db (if n = 0 then -1 else turn db n) = turn db (n + 1)"
proof (cases n)
  case 0
  then show ?thesis by (auto simp: round_robin_port_def turn_def ports_amount_def)
next
  case (Suc k)
  let ?m = "max 1 (length (db_ports db))"
  have "k mod ?m < ?m" by simp
  moreover have "Suc k mod ?m = (if Suc (k mod ?m) = ?m then 0 else Suc (k mod ?m))" by (rule mod_Suc)
  ultimately show ?thesis using Suc by (auto simp: round_robin_port_def turn_def ports_amount_def max_def split: if_splits)
qed

lemma act_sels [simp]:
  "consumed (act a s) = consumed s" "current_port_index (act a s) = current_port_index s"
  "next_client (act a s) = next_client s" "jobs (act a s) = jobs s" "acts (act a s) = acts s @ [a]"
  by (simp_all add: act_def)

lemma count_list_snoc [simp]: "count_list (xs @ [x]) y = count_list xs y + of_bool (x = y)"
  by (induction xs) auto

lemma clients_act: "clients_inv db n s \<Longrightarrow> \<forall>c. a \<noteq> ClientEnd c \<Longrightarrow> clients_inv db n (act a s)"
  by (auto simp: clients_inv_def)

lemma process_message_inv:
  assumes "clients_inv db n s"
  shows "clients_inv db (n + 1) (worker_process_message db msg
    (s\<lparr>current_port_index := round_robin_port db (current_port_index s)\<rparr>))"
proof -
  have "round_robin_port db (current_port_index s) = turn db (n + 1)"
    using assms round_robin_turn [of db n] by (simp add: clients_inv_def)
  then show ?thesis
    using assms by (auto simp: clients_inv_def worker_process_message_def Let_def le_Suc_eq)
qed

lemma process_each_inv: "clients_inv db n s \<Longrightarrow> clients_inv db (n + length msgs) (process_each db msgs s)"
proof (induction msgs arbitrary: n s)
  case (Cons msg msgs)
  from Cons.IH [OF process_message_inv [OF Cons.prems]] show ?case by (simp add: process_each_def)
qed (simp add: process_each_def)

lemma process_each_consumed [simp]: "consumed (process_each db msgs s) = consumed s"
  unfolding process_each_def by (induction msgs arbitrary: s) (simp_all add: worker_process_message_def Let_def)

lemma close_job:
  assumes "clients_inv db n s" and "jobs s c \<noteq> None"
  shows "clients_inv db n (act (ClientEnd c) (s\<lparr>jobs := (jobs s)(c := None)\<rparr>))"
proof -
  have "c \<le> n" using assms by (metis clients_inv_def not_le)
  with assms show ?thesis by (auto simp: clients_inv_def)
qed

lemma move_job: "clients_inv db n s \<Longrightarrow> jobs s c \<noteq> None \<Longrightarrow> clients_inv db n (s\<lparr>jobs := (jobs s)(c \<mapsto> j)\<rparr>)"
  by (auto simp: clients_inv_def)

lemma message_done_inv:
  assumes "clients_inv db n s"
  shows "post (\<lambda>_ t. consumed t = consumed s \<and> clients_inv db n t) (message_done env msg res s)"
  using assms by (auto simp: message_done_def js_read_def uncaught_def clients_act split: option.split)

lemma worker_step_inv:
  assumes "clients_inv db (consumed s) s"
  shows "post (\<lambda>_ t. clients_inv db (consumed t) t) (worker_step env db ev s)"
proof (cases ev)
  case (Data msgs)
  let ?s = "act (LogInfo ''worker_start'' 4 (''The amount of messages consumed is: '' @ digits (consumed s + length msgs)))
      (s\<lparr>consumed := consumed s + length msgs\<rparr>)"
  have "clients_inv db (consumed s) (s\<lparr>consumed := consumed s + length msgs\<rparr>)"
    using assms by (simp add: clients_inv_def)
  then have "clients_inv db (consumed s) ?s" by (rule clients_act) simp
  from process_each_inv [OF this, of msgs] Data show ?thesis by (simp add: worker_step_def on_data_def Let_def)
next
  case (Connected c err)
  show ?thesis
  proof (cases "jobs s c")
    case (Some j)
    show ?thesis
    proof (cases j)
      case (Connecting msg)
      let ?s = "act (LogErr ''process_message'' 1 ''Error while trying to connect to the database'')
          (act (ClientEnd c) (s\<lparr>jobs := (jobs s)(c := None)\<rparr>))"
      have "clients_inv db (consumed s) ?s" using close_job [OF assms, of c] Some by (auto intro: clients_act)
      from message_done_inv [OF this, of env JsUndefined None] move_job [OF assms, of c] Connecting Some Connected
      show ?thesis
        by (auto simp: worker_step_def on_connected_def js_read_def uncaught_def Let_def clients_act elim!: post_mono
            split: option.split js.split)
    qed (use assms Some Connected in \<open>simp add: worker_step_def\<close>)
  qed (use assms Connected in \<open>simp add: worker_step_def\<close>)
next
  case (Queried c res)
  show ?thesis
  proof (cases "jobs s c")
    case (Some j)
    show ?thesis
    proof (cases j)
      case (Querying msg)
      from message_done_inv [OF close_job [OF assms, of c], of env msg res] Querying Some Queried
      show ?thesis by (auto simp: worker_step_def on_queried_def elim!: post_mono)
    qed (use assms Some Queried in \<open>simp add: worker_step_def\<close>)
  qed (use assms Queried in \<open>simp add: worker_step_def\<close>)
qed (use assms in \<open>auto simp: worker_step_def on_consumer_error_def on_stream_error_def on_stream_end_def on_sigint_def
    log_shutdown_def intro!: clients_act\<close>)

lemma worker_state_inv: "worker_state env config db s \<Longrightarrow> clients_inv db (consumed s) s"
proof (induction rule: worker_state.induct)
  case (worker_joined s t)
  then show ?case
    by (auto simp: on_tested_def worker_start_def on_joined_def start_worker_def clients_inv_def Let_def)
next
  case (worker_handles s ev t)
  from worker_step_inv [OF worker_handles.IH, of env ev] worker_handles.hyps(2) show ?case by simp
qed

subsection \<open>What a message needs\<close>

text \<open>The name of a message, as the worker reads it.\<close>

definition message_name :: "js \<Rightarrow> string option" where
  "message_name msg = (case Option.bind (js_get msg ''name'') (\<lambda>v. js_get v ''string'') of
     Some (JsString text) \<Rightarrow> Some text | _ \<Rightarrow> None)"

lemma on_connected_name:
  "on_connected env c msg False s = (case message_name msg of
     None \<Rightarrow> uncaught s
   | Some text \<Rightarrow> Ret () (act (ClientQuery c ''SELECT count(*) FROM csvs WHERE name ILIKE $1''
       [takeWhile (\<lambda>x. x \<noteq> CHR '' '') text @ ''%'']) (s\<lparr>jobs := (jobs s)(c \<mapsto> Querying msg)\<rparr>)))"
  by (auto simp: on_connected_def message_name_def js_read_def hd_split_on Let_def split: option.split js.split)

end
