(* ===== verification/Node_Web.thy ===== *)
theory Node_Web
  imports Node_Worker
begin

text \<open>
  The web service of the node application (\<open>lib/web.js\<close>) and the entry point (\<open>start.js\<close>).

  The state is that of one request: the answers written so far and, for each file of an upload, what its
  callbacks share. The web service has no handler for exceptions, so one that is thrown ends the process with
  status 1 (\<open>crash\<close>). Writing a head after an answer has been sent throws.
\<close>

section \<open>Answers\<close>

datatype body = FormPage | Result nat js

record answer =
  answer_status :: nat
  answer_body :: body

datatype phase = WaitingForDb | Copying | Finished | Refused

text \<open>The variables of one call of the handler of \<open>file\<close>; \<open>has_client\<close>: \<open>db_client\<close> is not null.\<close>

record upload =
  filename :: js
  phase :: phase
  has_client :: bool

record request =
  answers :: "answer list"
  uploads :: "upload list"
  web_acts :: "act list"

type_synonym 'a web_prog = "(request, 'a) prog"

definition crash :: "'a web_prog" where
  "crash r = Exit 1 r"

definition web_act :: "act \<Rightarrow> request \<Rightarrow> request" where
  "web_act a r = r\<lparr>web_acts := web_acts r @ [a]\<rparr>"

text \<open>\<open>res.writeHead\<close> and \<open>res.end\<close>.\<close>

definition respond :: "nat \<Rightarrow> body \<Rightarrow> unit web_prog" where
  "respond headc b r = (if answers r \<noteq> [] then crash r
     else Ret () (r\<lparr>answers := answers r @ [\<lparr> answer_status = headc, answer_body = b \<rparr>]\<rparr>))"

definition display_form :: "unit web_prog" where
  "display_form = respond 200 FormPage"

definition display_msg :: "nat \<Rightarrow> js \<Rightarrow> unit web_prog" where
  "display_msg msg fname =
     (let headc = (if msg = 1 \<or> msg = 2 then 404 else 200) in respond headc (Result msg fname))"

section \<open>Uploads\<close>

definition upd_upload :: "nat \<Rightarrow> (upload \<Rightarrow> upload) \<Rightarrow> request \<Rightarrow> request" where
  "upd_upload i f r = r\<lparr>uploads := (uploads r)[i := f (uploads r ! i)]\<rparr>"

definition on_file :: "db_params \<Rightarrow> js \<Rightarrow> unit web_prog" where
  "on_file db fname r =
     (if fname \<noteq> JsString [] then
        let i = length (uploads r);
            r = r\<lparr>uploads := uploads r @ [\<lparr> filename = fname, phase = WaitingForDb, has_client = True \<rparr>]\<rparr>
        in Ret () (web_act (ClientConnect i) (web_act (NewClient i (db_client db)) r))
      else
        let r = web_act (LogErr ''upload_file'' 3 ''There was not a file name'') r;
            r = r\<lparr>uploads := uploads r @ [\<lparr> filename = fname, phase = Refused, has_client = False \<rparr>]\<rparr>
        in display_msg 5 (JsString []) r)"

text \<open>\<open>db_client.end(); db_client = null\<close>, which throws if \<open>db_client\<close> is null.\<close>

definition end_client :: "nat \<Rightarrow> unit web_prog" where
  "end_client i r = (if has_client (uploads r ! i)
     then Ret () (web_act (ClientEnd i) (upd_upload i (\<lambda>u. u\<lparr>has_client := False\<rparr>) r)) else crash r)"

definition on_drain :: "nat \<Rightarrow> unit web_prog" where
  "on_drain i = end_client i"

definition on_upload_connected :: "nat \<Rightarrow> bool \<Rightarrow> unit web_prog" where
  "on_upload_connected i err r =
     (let fname = filename (uploads r ! i)
      in if err then
           andthen (end_client i r) (\<lambda>_ r.
             display_msg 3 fname (upd_upload i (\<lambda>u. u\<lparr>phase := Refused\<rparr>)
               (web_act (LogErr ''upload_file'' 1
                 (''Error while trying to connect to the database in order to load the file: '' @ js_string fname)) r)))
         else if has_client (uploads r ! i) then
           Ret () (web_act (ClientQuery i (''COPY csvs (name, email) FROM STDIN WITH DELIMITER '' @ [CHR 0x27] @ '','' @ [CHR 0x27] @ '' csv'') [])
             (upd_upload i (\<lambda>u. u\<lparr>phase := Copying\<rparr>) r))
         else crash r)"

definition on_copy_error :: "unit web_prog" where
  "on_copy_error r = Ret () (web_act (LogErr ''upload_file'' 2 ''Error with writable stream to the database'') r)"

definition on_copy_finish :: "nat \<Rightarrow> unit web_prog" where
  "on_copy_finish i r = display_msg 4 (filename (uploads r ! i)) (upd_upload i (\<lambda>u. u\<lparr>phase := Finished\<rparr>) r)"

definition on_busboy_error :: "unit web_prog" where
  "on_busboy_error r = Ret () (web_act (LogErr ''upload_file'' 4 ''Error with the busboy stream'') r)"

section \<open>The server\<close>

text \<open>A request for which nothing has happened; \<open>upload_file\<close> only installs handlers.\<close>

definition new_request :: request where
  "new_request = \<lparr> answers = [], uploads = [], web_acts = [] \<rparr>"

definition upload_file :: "unit web_prog" where
  "upload_file = Ret ()"

definition create_server :: "string \<Rightarrow> string \<Rightarrow> unit web_prog" where
  "create_server url method =
     (if url = ''/upload'' then
        if method = ''GET'' then display_form
        else if method = ''POST'' then upload_file
        else display_msg 1 (JsString [])
      else display_msg 2 (JsString []))"

text \<open>
  The events of an upload, as the packages emit them: a connection is reported once, the copy fails or
  finishes only while it runs, and the queue of a client is drained only while the client is there.
\<close>

datatype web_event = OnFile js | OnConnected nat bool | OnDrain nat | OnCopyError nat | OnCopyFinish nat | OnBusboyError

fun web_emitted :: "web_event \<Rightarrow> request \<Rightarrow> bool" where
  "web_emitted (OnFile fname) r = True"
| "web_emitted (OnConnected i err) r = (i < length (uploads r) \<and> phase (uploads r ! i) = WaitingForDb)"
| "web_emitted (OnDrain i) r = (i < length (uploads r) \<and> phase (uploads r ! i) \<in> {Copying, Finished} \<and> has_client (uploads r ! i))"
| "web_emitted (OnCopyError i) r = (i < length (uploads r) \<and> phase (uploads r ! i) = Copying)"
| "web_emitted (OnCopyFinish i) r = (i < length (uploads r) \<and> phase (uploads r ! i) = Copying)"
| "web_emitted OnBusboyError r = True"

fun web_step :: "db_params \<Rightarrow> web_event \<Rightarrow> unit web_prog" where
  "web_step db (OnFile fname) = on_file db fname"
| "web_step db (OnConnected i err) = on_upload_connected i err"
| "web_step db (OnDrain i) = on_drain i"
| "web_step db (OnCopyError i) = on_copy_error"
| "web_step db (OnCopyFinish i) = on_copy_finish i"
| "web_step db OnBusboyError = on_busboy_error"

inductive web_run :: "db_params \<Rightarrow> web_event list \<Rightarrow> (request, unit) outcome \<Rightarrow> bool" for db where
  web_new: "web_run db [] (create_server ''/upload'' ''POST'' new_request)"
| web_event: "web_run db evs (Ret () r) \<Longrightarrow> web_emitted ev r \<Longrightarrow> web_run db (evs @ [ev]) (web_step db ev r)"

section \<open>The entry point\<close>

definition lower :: "string \<Rightarrow> string" where
  "lower = map (\<lambda>c. let n = of_char c :: nat in if 65 \<le> n \<and> n \<le> 90 then char_of (n + 32) else c)"

datatype service = Web | Worker

definition profiled :: "string list \<Rightarrow> bool" where
  "profiled argv \<longleftrightarrow> 3 \<le> length argv \<and>
     (lower (argv ! 2) = ''y'' \<or> 4 \<le> length argv \<and> lower (argv ! 3) = ''y'')"

definition selected :: "string list \<Rightarrow> service" where
  "selected argv = (if 3 \<le> length argv \<and> lower (argv ! 2) = ''worker'' then Worker else Web)"

text \<open>The handler of \<open>leak\<close> starts with the undeclared variable \<open>place\<close>, and so throws.\<close>

definition on_leak :: "'a web_prog" where
  "on_leak = crash"

text \<open>\<open>start\<close> of the web service, the callback of the connection that it tests, and the handlers of the server.\<close>

definition web_start :: "db_params \<Rightarrow> request" where
  "web_start db = web_act (ClientConnect 0) (web_act (NewClient 0 (db_client db)) new_request)"

definition http_port :: "environment \<Rightarrow> app_config \<Rightarrow> js" where
  "http_port env config = js_or (cfg_http_port config) (getenv env ''PORT'')"

definition on_web_tested :: "environment \<Rightarrow> app_config \<Rightarrow> bool \<Rightarrow> unit web_prog" where
  "on_web_tested env config err r =
     (let r = web_act (ClientEnd 0) r
      in if err then Exit 1 (web_act (LogErr ''start'' 1 ''Error while trying to connect to the database'') r)
         else Ret () (web_act (Listen (http_port env config)) r))"

definition onError :: "unit web_prog" where
  "onError r = Exit 1 (web_act (LogErr ''onError'' 1 ''Unexpected error on the server, shutting down'') r)"

definition onListening :: "environment \<Rightarrow> app_config \<Rightarrow> unit web_prog" where
  "onListening env config r = Ret () (web_act (LogInfo ''onListening'' 1
     (''Server started at port: '' @ js_string (http_port env config))) r)"

definition shutdown_web :: "unit web_prog" where
  "shutdown_web r = Exit 0 (web_act (LogInfo ''shutdown'' 1 ''Server stopped'') r)"

section \<open>Every upload is answered once\<close>

definition answered :: "upload \<Rightarrow> bool" where
  "answered u \<longleftrightarrow> phase u \<in> {Finished, Refused}"

fun is_file :: "web_event \<Rightarrow> bool" where
  "is_file (OnFile fname) = True"
| "is_file ev = False"

definition upload_ok :: "upload \<Rightarrow> bool" where
  "upload_ok u \<longleftrightarrow> (phase u = WaitingForDb \<longrightarrow> has_client u)"

text \<open>With at most one file, one upload is answered when it finishes or is refused.\<close>

definition single_ok :: "request \<Rightarrow> bool" where
  "single_ok r \<longleftrightarrow> length (uploads r) \<le> 1 \<and> length (answers r) = length (filter answered (uploads r)) \<and>
     list_all upload_ok (uploads r)"

lemma single_step:
  assumes "single_ok r" and "web_emitted ev r" and "is_file ev \<Longrightarrow> uploads r = []"
  shows "holds (\<lambda>_ t. single_ok t \<and> length (uploads t) = length (uploads r) + of_bool (is_file ev)) (web_step db ev r)"
proof (cases "uploads r")
  case Nil
  with assms show ?thesis
    by (cases ev) (auto simp: single_ok_def on_file_def on_busboy_error_def web_act_def display_msg_def respond_def
        answered_def upload_ok_def Let_def)
next
  case (Cons u us)
  with assms(1) have "uploads r = [u]" by (simp add: single_ok_def)
  with assms show ?thesis
    by (cases ev; cases "phase u") (auto simp: single_ok_def on_upload_connected_def end_client_def on_drain_def on_copy_error_def
        on_copy_finish_def on_busboy_error_def web_act_def upd_upload_def display_msg_def respond_def
        answered_def upload_ok_def Let_def)
qed

lemma single_upload:
  assumes "web_run db evs out" and "length (filter is_file evs) \<le> 1"
  shows "holds (\<lambda>_ r. single_ok r \<and> length (uploads r) = length (filter is_file evs)) out"
  using assms
proof induction
  case web_new
  then show ?case by (simp add: create_server_def upload_file_def new_request_def single_ok_def)
next
  case (web_event evs r ev)
  then have r: "single_ok r" "length (uploads r) = length (filter is_file evs)" by auto
  then have "is_file ev \<Longrightarrow> uploads r = []" using web_event.prems by simp
  from single_step [OF r(1) web_event.hyps(2) this, of db] r(2) show ?case
    by (cases "web_step db ev r") auto
qed

section \<open>Two files in one request\<close>

text \<open>The second file that finishes writes a second head, and the process dies.\<close>

lemma two_files_crash:
  assumes "a \<noteq> JsString []" and "b \<noteq> JsString []"
  shows "\<exists>r. web_run db [OnFile a, OnFile b, OnConnected 0 False, OnConnected 1 False, OnCopyFinish 0, OnCopyFinish 1] (Exit 1 r)"
proof -
  note d = on_file_def on_upload_connected_def on_copy_finish_def upd_upload_def web_act_def display_msg_def respond_def crash_def Let_def
  let ?r = "new_request"
  have r0: "web_run db [] (Ret () ?r)" using web_new [of db] by (simp add: create_server_def upload_file_def)
  obtain r1 where r1: "web_step db (OnFile a) ?r = Ret () r1" "uploads r1 = [\<lparr> filename = a, phase = WaitingForDb, has_client = True \<rparr>]" "answers r1 = []"
    using assms by (simp add: d new_request_def)
  obtain r2 where r2: "web_step db (OnFile b) r1 = Ret () r2" "uploads r2 = uploads r1 @ [\<lparr> filename = b, phase = WaitingForDb, has_client = True \<rparr>]" "answers r2 = []"
    using assms r1 by (simp add: d)
  obtain r3 where r3: "web_step db (OnConnected 0 False) r2 = Ret () r3" "uploads r3 = [\<lparr> filename = a, phase = Copying, has_client = True \<rparr>, uploads r2 ! 1]" "answers r3 = []"
    using r1 r2 by (simp add: d)
  obtain r4 where r4: "web_step db (OnConnected 1 False) r3 = Ret () r4" "phase (uploads r4 ! 0) = Copying" "phase (uploads r4 ! 1) = Copying" "length (uploads r4) = 2" "answers r4 = []"
    using r1 r2 r3 by (simp add: d)
  obtain r5 where r5: "web_step db (OnCopyFinish 0) r4 = Ret () r5" "phase (uploads r5 ! 1) = Copying" "length (uploads r5) = 2" "answers r5 \<noteq> []"
    using r4 by (simp add: d)
  obtain r6 where r6: "web_step db (OnCopyFinish 1) r5 = Exit 1 r6" using r5 by (simp add: d)
  from web_event [OF r0, of "OnFile a"] r1 have w: "web_run db [OnFile a] (Ret () r1)" by simp
  from web_event [OF w, of "OnFile b"] r2 have w: "web_run db [OnFile a, OnFile b] (Ret () r2)" by simp
  from web_event [OF w, of "OnConnected 0 False"] r1 r2 r3 have w: "web_run db [OnFile a, OnFile b, OnConnected 0 False] (Ret () r3)" by simp
  from web_event [OF w, of "OnConnected 1 False"] r1 r2 r3 r4
  have w: "web_run db [OnFile a, OnFile b, OnConnected 0 False, OnConnected 1 False] (Ret () r4)" by simp
  from web_event [OF w, of "OnCopyFinish 0"] r4 r5
  have w: "web_run db [OnFile a, OnFile b, OnConnected 0 False, OnConnected 1 False, OnCopyFinish 0] (Ret () r5)" by simp
  from web_event [OF w, of "OnCopyFinish 1"] r5 r6 show ?thesis by auto
qed

end
