(* ===== verification/Sample_Node.thy ===== *)
theory Sample_Node
  imports Node_Web
begin

text \<open>The node application with two database ports, and a worker that has received three rows.\<close>

definition sample_env :: environment where
  "sample_env = [''DB_PORT'' \<mapsto> ''5432,5433'']"

definition sample_row :: js where
  "sample_row = JsObject [(''name'', JsObject [(''string'', JsString ''Ada L'')]), (''email'', JsObject [(''string'', JsString ''a'')])]"

definition sample_db :: db_params where
  "sample_db = db_module sample_env (app_config sample_env)"

lemma sample_worker:
  "\<exists>s. worker_state sample_env (app_config sample_env) sample_db s \<and> consumed s = 3 \<and> jobs s 1 = None \<and> jobs s 2 \<noteq> None"
proof -
  let ?w = "worker_step sample_env sample_db"
  obtain s t where s: "on_tested sample_env (app_config sample_env) False (start_worker sample_db) = Ret () s"
    and t: "on_joined sample_env (app_config sample_env) False s = Ret () t"
      "consumed t = 0" "next_client t = 1" "jobs t = (\<lambda>_. None)"
    by (simp add: on_tested_def worker_start_def on_joined_def start_worker_def Let_def)
  let ?job = "Connecting sample_row"
  obtain u where u: "?w (Data [sample_row, sample_row, sample_row]) t = Ret () u"
      "consumed u = 3" "jobs u = [1 \<mapsto> ?job, 2 \<mapsto> ?job, 3 \<mapsto> ?job]"
    using t(2-4) by (simp add: worker_step_def on_data_def process_each_def worker_process_message_def Let_def numeral_3_eq_3 numeral_2_eq_2)
  obtain v where v: "?w (Connected 1 True) u = Ret () v" "consumed v = 3" "jobs v 1 = None" "jobs v 2 \<noteq> None"
    using u(2,3) by (simp add: worker_step_def on_connected_def message_done_def Let_def)
  from worker_handles [OF worker_handles [OF worker_joined [OF s t(1)] u(1)] v(1)] v show ?thesis by blast
qed

end
